(* ===== verification/BoboPrelude.thy ===== *)
theory BoboPrelude
  imports Main "HOL-Library.Word"
begin

text \<open>
  Vocabulary shared by every component of the development: Go error values, the
  \<open>(T, error)\<close> result convention, machine-integer conversions, and a locale for
  components that are driven by a sequence of operations and keep an invariant.
\<close>

named_theorems go_defs \<open>definitions of small Go helpers, to be unfolded by simp\<close>
named_theorems key_simps \<open>distinctness and injectivity of cache keys\<close>

section \<open>Errors and results\<close>

text \<open>
  The error values the services compare or return. The first group are package-level
  sentinels of the repository, compared with \<open>==\<close> or \<open>errors.Is\<close>; \<open>ErrSqlNoRows\<close>,
  \<open>ErrRedisNotFound\<close> and \<open>ErrCtx\<close> are the sentinels of the libraries the code compares
  against; \<open>ErrLib\<close> is any other error a library call returns, with its text;
  \<open>Errorf\<close> is \<open>fmt.Errorf\<close> or \<open>errors.New\<close> at the point of return and \<open>Wrap\<close> is
  \<open>fmt.Errorf\<close> with a \<open>%w\<close> verb. \<open>Panic\<close> is no error value: it is the outcome of a run-time
  panic, which skips the rest of the function and of its callers.
\<close>

datatype err =
    ErrPostNotFound
  | ErrCircuitBreakerOpen
  | ErrCircuitOpen
  | ErrTooManyRequests
  | ErrLockAcquireFailed
  | ErrLockTimeout
  | ErrInvalidNodeID
  | ErrLogicPostNotFound
  | ErrUnauthorized
  | ErrMissingToken
  | ErrInvalidTokenFormat
  | ErrInvalidToken
  | ErrTokenExpired
  | ErrSqlNoRows
  | ErrRedisNotFound
  | ErrCtx
  | ErrStrconv
  | ErrLib string
  | Errorf string
  | Wrap string err
  | Panic string

text \<open>\<open>errors.Is(err, target)\<close>: the error itself or one it wraps.\<close>

fun errors_Is :: "err \<Rightarrow> err \<Rightarrow> bool" where
  "errors_Is (Wrap m e) t \<longleftrightarrow> Wrap m e = t \<or> errors_Is e t"
| "errors_Is e t \<longleftrightarrow> e = t"

text \<open>
  A Go call \<open>v, err := f(...)\<close> whose value is only used when \<open>err == nil\<close> is a sum:
  \<open>Inl\<close> the error, \<open>Inr\<close> the value. A call that also changes state returns a pair of the
  result and the new state. \<open>andThen\<close> is the idiom
  \<open>if err != nil { return ..., err }\<close> followed by the rest of the body.
\<close>

type_synonym 'a res = "err + 'a"

definition andThen :: "'a res \<times> 's \<Rightarrow> ('a \<Rightarrow> 's \<Rightarrow> 'b res \<times> 's) \<Rightarrow> 'b res \<times> 's" where
  "andThen r k = (case r of (Inl e, s) \<Rightarrow> (Inl e, s) | (Inr a, s) \<Rightarrow> k a s)"

lemma andThen_simps [simp]:
  "andThen (Inl e, s) k = (Inl e, s)"
  "andThen (Inr a, s) k = k a s"
  by (simp_all add: andThen_def)

text \<open>\<open>wrapErr\<close> is \<open>fmt.Errorf("msg: %w", err)\<close> applied to a failing call.\<close>

definition wrapErr :: "string \<Rightarrow> 'a res \<times> 's \<Rightarrow> 'a res \<times> 's" where
  "wrapErr m r = (case r of (Inl e, s) \<Rightarrow> (Inl (Wrap m e), s) | (Inr a, s) \<Rightarrow> (Inr a, s))"

lemma wrapErr_simps [simp]:
  "wrapErr m (Inl e, s) = (Inl (Wrap m e), s)"
  "wrapErr m (Inr a, s) = (Inr a, s)"
  by (simp_all add: wrapErr_def)

text \<open>
  Laws of library calls are stated as case expressions over their results, so simp may rewrite
  an \<open>if\<close> whose branches are results of such calls into a case split.
\<close>

lemmas res_splits = sum.splits prod.splits option.splits if_splits

section \<open>Machine integers\<close>

text \<open>
  Go integers that are only compared, stored or printed are \<open>int\<close>. Where the code does
  arithmetic or converts to a narrower type, the two's-complement wrap-around of the width is
  applied explicitly by \<open>i64\<close>, \<open>i32\<close> and \<open>i8\<close>.
\<close>

definition wrap_signed :: "nat \<Rightarrow> int \<Rightarrow> int" where
  "wrap_signed w x = (x + 2 ^ (w - 1)) mod 2 ^ w - 2 ^ (w - 1)"

definition i64 :: "int \<Rightarrow> int" where
  "i64 x = wrap_signed 64 x"

definition i32 :: "int \<Rightarrow> int" where
  "i32 x = wrap_signed 32 x"

definition i8 :: "int \<Rightarrow> int" where
  "i8 x = wrap_signed 8 x"

definition is_int64 :: "int \<Rightarrow> bool" where
  "is_int64 x \<longleftrightarrow> - (2 ^ 63) \<le> x \<and> x < 2 ^ 63"

definition is_int32 :: "int \<Rightarrow> bool" where
  "is_int32 x \<longleftrightarrow> - (2 ^ 31) \<le> x \<and> x < 2 ^ 31"

lemma i64_id [simp]: "is_int64 x \<Longrightarrow> i64 x = x"
  by (simp add: is_int64_def i64_def wrap_signed_def)

lemma i32_id [simp]: "is_int32 x \<Longrightarrow> i32 x = x"
  by (simp add: is_int32_def i32_def wrap_signed_def)

lemma i64_range: "is_int64 (i64 x)"
  using pos_mod_bound [of "2 ^ 64" "x + 2 ^ 63"] pos_mod_sign [of "2 ^ 64" "x + 2 ^ 63"]
  by (simp add: is_int64_def i64_def wrap_signed_def)

section \<open>Components driven by a sequence of operations\<close>

text \<open>
  Every stateful component is a state type with operations; an environment calls the
  operations in some order. The contract: each operation keeps an invariant. The client
  facts: every run keeps it, so every state a run passes through satisfies it.
\<close>

locale invariant_machine =
  fixes step :: "'e \<Rightarrow> 's \<Rightarrow> 's"
    and inv :: "'s \<Rightarrow> bool"
  assumes step_inv: "inv s \<Longrightarrow> inv (step e s)"
begin

lemma run_inv: "inv s \<Longrightarrow> inv (fold step es s)"
  by (induction es arbitrary: s) (auto simp: step_inv)

lemma prefix_inv: "inv s \<Longrightarrow> inv (fold step (take n es) s)"
  by (rule run_inv)

lemma run_append_inv: "inv s \<Longrightarrow> inv (fold step fs (fold step es s))"
  by (intro run_inv)

end

section \<open>Loops that receive events\<close>

text \<open>
  A goroutine with a select loop is a function from the events it receives and its state to whether it
  has returned and its new state. The contract: without events nothing happens, and the loop can be
  stopped and resumed between events, unless it has returned. The client facts: it may be run one
  event at a time, what single events keep every run keeps, and nothing happens after the return.
\<close>

locale event_loop =
  fixes loop :: "'e list \<Rightarrow> 's \<Rightarrow> bool \<times> 's"
  assumes loop_Nil: "loop [] s = (False, s)"
    and loop_append: "loop (xs @ ys) s = (case loop xs s of (True, s') \<Rightarrow> (True, s') | (False, s') \<Rightarrow> loop ys s')"
begin

lemma loop_Cons: "loop (e # es) s = (case loop [e] s of (True, s') \<Rightarrow> (True, s') | (False, s') \<Rightarrow> loop es s')"
  using loop_append [of "[e]" es s] by simp

lemma one_at_a_time: "fold (\<lambda>e (d, s). if d then (d, s) else loop [e] s) es (False, s) = loop es s"
proof -
  have stay: "fold (\<lambda>e (d, s). if d then (d, s) else loop [e] s) es (True, s) = (True, s)" for es s
    by (induction es) simp_all
  show ?thesis
  proof (induction es arbitrary: s)
    case (Cons e es)
    obtain d s1 where 1: "loop [e] s = (d, s1)" by fastforce
    with Cons.IH [of s1] stay [of es s1] show ?case by (cases d) (simp_all add: loop_Cons [of e es])
  qed (simp add: loop_Nil)
qed

lemma loop_inv:
  assumes "\<And>e s. e \<in> set es \<Longrightarrow> P s \<Longrightarrow> P (snd (loop [e] s))" "P s"
  shows "P (snd (loop es s))"
  using assms
proof (induction es arbitrary: s)
  case (Cons e es)
  obtain d s1 where 1: "loop [e] s = (d, s1)" by fastforce
  with Cons.prems(1) [of e s] Cons.prems(2) have "P s1" by simp
  with Cons.IH [of s1] Cons.prems(1) 1 show ?case by (cases d) (simp_all add: loop_Cons [of e es])
qed (simp add: loop_Nil)

lemma returned: "fst (loop xs s) \<Longrightarrow> loop (xs @ ys) s = loop xs s"
  by (auto simp: loop_append split: prod.split bool.split)

end

end
