(* ===== verification/GoLib.thy ===== *)
theory GoLib
  imports BoboPrelude "HOL-Library.Char_ord"
begin

text \<open>
  The parts of Go's \<open>fmt\<close>, \<open>strconv\<close> and \<open>strings\<close> packages that the services use:
  printing an integer with \<open>%d\<close>, \<open>strconv.ParseInt(s, 10, 64)\<close> (and \<open>Atoi\<close> on a 64-bit
  platform, which accepts the same strings), \<open>fmt.Sscanf\<close> of a literal followed by \<open>%d\<close>,
  and the splitting and trimming functions. Strings are byte strings, as in Go.
  The locale \<open>key_scheme\<close> is the contract of every cache-key builder.
\<close>

section \<open>Decimal numbers\<close>

definition digit_char :: "nat \<Rightarrow> char" where
  "digit_char d = char_of (48 + d)"

definition is_digit :: "char \<Rightarrow> bool" where
  "is_digit c \<longleftrightarrow> 48 \<le> (of_char c :: nat) \<and> (of_char c :: nat) \<le> 57"

definition digit_val :: "char \<Rightarrow> nat" where
  "digit_val c = (of_char c :: nat) - 48"

fun show_nat :: "nat \<Rightarrow> string" where
  "show_nat n = (if n < 10 then [digit_char n] else show_nat (n div 10) @ [digit_char (n mod 10)])"

declare show_nat.simps [simp del]

text \<open>\<open>fmt.Sprintf("%d", n)\<close>, also \<open>strconv.FormatInt(n, 10)\<close>.\<close>

definition show_int :: "int \<Rightarrow> string" where
  "show_int n = (if n < 0 then CHR ''-'' # show_nat (nat (- n)) else show_nat (nat n))"

definition digits_val :: "string \<Rightarrow> nat" where
  "digits_val s = foldl (\<lambda>a c. 10 * a + digit_val c) 0 s"

definition parse_nat :: "string \<Rightarrow> nat option" where
  "parse_nat s = (if s \<noteq> [] \<and> list_all is_digit s then Some (digits_val s) else None)"

lemma digit_char_code: "d < 10 \<Longrightarrow> (of_char (digit_char d) :: nat) = 48 + d"
  by (simp add: digit_char_def)

lemma is_digit_digit_char [simp]: "d < 10 \<Longrightarrow> is_digit (digit_char d)"
  by (simp add: is_digit_def digit_char_code)

lemma digit_val_digit_char [simp]: "d < 10 \<Longrightarrow> digit_val (digit_char d) = d"
  by (simp add: digit_val_def digit_char_code)

lemma show_nat_digits: "list_all is_digit (show_nat n)"
proof (induction n rule: show_nat.induct)
  case (1 n)
  then show ?case by (subst show_nat.simps) auto
qed

lemma show_nat_nonempty [simp]: "show_nat n \<noteq> []"
  by (subst show_nat.simps) simp

lemma digits_val_snoc: "digits_val (s @ [c]) = 10 * digits_val s + digit_val c"
  by (simp add: digits_val_def)

lemma digits_val_show_nat: "digits_val (show_nat n) = n"
proof (induction n rule: show_nat.induct)
  case (1 n)
  show ?case
  proof (cases "n < 10")
    case True
    then show ?thesis by (subst show_nat.simps) (simp add: digits_val_def)
  next
    case False
    with 1 show ?thesis by (subst show_nat.simps) (simp add: digits_val_snoc)
  qed
qed

lemma parse_show_nat [simp]: "parse_nat (show_nat n) = Some n"
  by (simp add: parse_nat_def show_nat_digits digits_val_show_nat)

lemma not_digit_sign [simp]: "\<not> is_digit CHR ''-''" "\<not> is_digit CHR ''+''" "\<not> is_digit CHR '':''"
  "\<not> is_digit CHR '' ''" "\<not> is_digit CHR ''/''"
  by (simp_all add: is_digit_def)

lemma show_nat_hd: "is_digit (hd (show_nat n))"
  using show_nat_digits [of n] by (cases "show_nat n") auto

lemma parse_nat_not_sign [simp]: "parse_nat (CHR ''-'' # s) = None" "parse_nat (CHR ''+'' # s) = None"
  by (simp_all add: parse_nat_def)

section \<open>strconv.ParseInt and strconv.Atoi\<close>

definition unsign :: "string \<Rightarrow> bool \<times> string" where
  "unsign s = (case s of
       [] \<Rightarrow> (False, [])
     | c # r \<Rightarrow> if c = CHR ''-'' then (True, r) else if c = CHR ''+'' then (False, r) else (False, s))"

definition ParseInt :: "string \<Rightarrow> int res" where
  "ParseInt s = (case unsign s of (neg, r) \<Rightarrow>
     (case parse_nat r of
        None \<Rightarrow> Inl ErrStrconv
      | Some n \<Rightarrow>
          (if neg then (if n > 2 ^ 63 then Inl ErrStrconv else Inr (- int n))
           else (if n \<ge> 2 ^ 63 then Inl ErrStrconv else Inr (int n)))))"

abbreviation (input) Atoi :: "string \<Rightarrow> int res" where
  "Atoi \<equiv> ParseInt"

lemma unsign_show_nat [simp]: "unsign (show_nat n) = (False, show_nat n)"
proof -
  from show_nat_hd [of n] have "hd (show_nat n) \<noteq> CHR ''-''" "hd (show_nat n) \<noteq> CHR ''+''"
    by auto
  then show ?thesis by (cases "show_nat n") (auto simp: unsign_def)
qed

lemma ParseInt_show_int [simp]: "is_int64 n \<Longrightarrow> ParseInt (show_int n) = Inr n"
proof -
  assume n: "is_int64 n"
  show ?thesis
  proof (cases "n < 0")
    case True
    with n show ?thesis by (simp add: ParseInt_def show_int_def unsign_def is_int64_def nat_le_iff)
  next
    case False
    with n show ?thesis by (simp add: ParseInt_def show_int_def is_int64_def)
  qed
qed

lemma ParseInt_empty [simp]: "ParseInt [] = Inl ErrStrconv"
  by (simp add: ParseInt_def unsign_def parse_nat_def)

lemma ParseInt_range: "ParseInt s = Inr n \<Longrightarrow> is_int64 n"
  by (auto simp: ParseInt_def is_int64_def split: prod.splits option.splits if_splits)

lemma show_nat_inj [simp]: "show_nat m = show_nat n \<longleftrightarrow> m = n"
  by (metis digits_val_show_nat)

lemma show_int_neq_sign: "show_nat m \<noteq> CHR ''-'' # s"
  using show_nat_hd [of m] by (metis list.sel(1) not_digit_sign(1))

lemma show_int_inj [simp]: "show_int m = show_int n \<longleftrightarrow> m = n"
  using show_int_neq_sign show_int_neq_sign [symmetric] by (auto simp: show_int_def)

lemma show_int_nonempty [simp]: "show_int n \<noteq> []"
  by (simp add: show_int_def)

lemma show_int_chars: "c \<in> set (show_int n) \<Longrightarrow> is_digit c \<or> c = CHR ''-''"
  using show_nat_digits by (auto simp: show_int_def list_all_iff split: if_splits)

lemma show_int_no_colon [simp]: "CHR '':'' \<notin> set (show_int n)"
  using show_int_chars by fastforce

section \<open>Splitting and trimming\<close>

text \<open>\<open>strings.Split(s, string(c))\<close>: always at least one part.\<close>

fun split_on :: "char \<Rightarrow> string \<Rightarrow> string list" where
  "split_on c [] = [[]]"
| "split_on c (x # xs) =
     (if x = c then [] # split_on c xs
      else (case split_on c xs of [] \<Rightarrow> [[x]] | p # ps \<Rightarrow> (x # p) # ps))"

text \<open>\<open>strings.SplitN(s, string(c), 2)\<close>.\<close>

definition split2 :: "char \<Rightarrow> string \<Rightarrow> string list" where
  "split2 c s = (case dropWhile (\<lambda>x. x \<noteq> c) s of [] \<Rightarrow> [s] | _ # r \<Rightarrow> [takeWhile (\<lambda>x. x \<noteq> c) s, r])"

text \<open>\<open>strings.Trim(s, string(c))\<close>.\<close>

definition trim_char :: "char \<Rightarrow> string \<Rightarrow> string" where
  "trim_char c s = rev (dropWhile (\<lambda>x. x = c) (rev (dropWhile (\<lambda>x. x = c) s)))"

text \<open>\<open>strings.Contains(s, sub)\<close>.\<close>

fun contains :: "string \<Rightarrow> string \<Rightarrow> bool" where
  "contains [] sub \<longleftrightarrow> sub = []"
| "contains (x # xs) sub \<longleftrightarrow> take (length sub) (x # xs) = sub \<or> contains xs sub"

lemma split_on_nonempty [simp]: "split_on c s \<noteq> []"
  by (induction s) (auto split: list.splits)

lemma split_on_none: "c \<notin> set s \<Longrightarrow> split_on c s = [s]"
  by (induction s) auto

lemma split_on_append: "c \<notin> set s \<Longrightarrow> split_on c (s @ c # t) = s # split_on c t"
  by (induction s) auto

lemma split2_append: "c \<notin> set s \<Longrightarrow> split2 c (s @ c # t) = [s, t]"
proof -
  assume "c \<notin> set s"
  then have "dropWhile (\<lambda>x. x \<noteq> c) (s @ c # t) = c # t" by (induction s) auto
  moreover from \<open>c \<notin> set s\<close> have "takeWhile (\<lambda>x. x \<noteq> c) (s @ c # t) = s"
    by (induction s) auto
  ultimately show ?thesis by (simp add: split2_def)
qed

lemma length_split2: "length (split2 c s) = (if c \<in> set s then 2 else 1)"
proof (cases "c \<in> set s")
  case True
  then obtain p t where "s = p @ c # t" "c \<notin> set p" by (metis split_list_first)
  with True show ?thesis by (simp add: split2_append)
next
  case False
  then have none: "dropWhile (\<lambda>x. x \<noteq> c) s = []" by (induction s) auto
  from False show ?thesis unfolding split2_def none by simp
qed

section \<open>fmt.Sscanf of a literal prefix and one %d\<close>

definition go_space :: "char \<Rightarrow> bool" where
  "go_space c \<longleftrightarrow> (of_char c :: nat) \<in> {9, 11, 12, 13, 32}"

text \<open>
  The literal must match; then blanks are skipped, an optional sign and the longest run of
  digits are read, and the rest of the input is ignored. A newline is not a blank here: it is
  an error, as is a missing digit or a value that does not fit 64 bits.
\<close>

definition sscanf_int :: "string \<Rightarrow> string \<Rightarrow> int res" where
  "sscanf_int pre s =
     (if take (length pre) s = pre then
        (case unsign (dropWhile go_space (drop (length pre) s)) of (neg, r) \<Rightarrow>
           ParseInt ((if neg then CHR ''-'' # takeWhile is_digit r else takeWhile is_digit r)))
      else Inl ErrStrconv)"

lemma show_int_hd_not_space: "show_int n = c # r \<Longrightarrow> \<not> go_space c"
  using show_int_chars [of c n] by (auto simp: go_space_def is_digit_def)

lemma takeWhile_digits_show_nat [simp]: "takeWhile is_digit (show_nat n) = show_nat n"
  using show_nat_digits [of n] by (simp add: list_all_iff)

lemma ParseInt_neg_show_nat: "0 < n \<Longrightarrow> n \<le> 2 ^ 63 \<Longrightarrow> ParseInt (CHR ''-'' # show_nat n) = Inr (- int n)"
  by (simp add: ParseInt_def unsign_def)

lemma sscanf_int_show: "is_int64 n \<Longrightarrow> sscanf_int pre (pre @ show_int n) = Inr n"
proof -
  assume n: "is_int64 n"
  have drop: "dropWhile go_space (show_int n) = show_int n"
    using show_int_hd_not_space [of n] by (cases "show_int n") auto
  show ?thesis
  proof (cases "n < 0")
    case True
    then have "unsign (show_int n) = (True, show_nat (nat (- n)))"
      by (simp add: show_int_def unsign_def)
    with True n drop show ?thesis
      by (simp add: sscanf_int_def ParseInt_neg_show_nat is_int64_def nat_le_iff)
  next
    case False
    then have "show_int n = show_nat (nat n)" by (simp add: show_int_def)
    with n drop show ?thesis
      by (simp add: sscanf_int_def) (metis ParseInt_show_int)
  qed
qed

section \<open>Cache keys\<close>

text \<open>
  A key builder must not map two entities to the same key. What the caches rely on: an
  update under one entity's key leaves every other entity's entry alone.
\<close>

locale key_scheme =
  fixes key :: "'k \<Rightarrow> string"
  assumes key_inj: "key a = key b \<Longrightarrow> a = b"
begin

lemma key_eq_iff: "key a = key b \<longleftrightarrow> a = b"
  using key_inj by auto

lemma key_injective: "inj key"
  by (auto simp: inj_def key_inj)

lemma upd_other: "a \<noteq> b \<Longrightarrow> (m(key a := v)) (key b) = m (key b)"
  by (simp add: key_eq_iff)

end

text \<open>\<open>fmt.Sprintf("%s%d", prefix, n)\<close> and \<open>fmt.Sprintf("%s%d:%d", prefix, m, n)\<close>.\<close>

definition prefix_key :: "string \<Rightarrow> int \<Rightarrow> string" where
  "prefix_key pre n = pre @ show_int n"

definition pair_text :: "int \<Rightarrow> int \<Rightarrow> string" where
  "pair_text m n = show_int m @ CHR '':'' # show_int n"

definition prefix_pair_key :: "string \<Rightarrow> int \<times> int \<Rightarrow> string" where
  "prefix_pair_key pre p = pre @ pair_text (fst p) (snd p)"

lemma split_pair_text: "split_on CHR '':'' (pair_text m n) = [show_int m, show_int n]"
  by (simp add: pair_text_def split_on_append split_on_none)

lemma pair_text_inj [simp]: "pair_text m n = pair_text m' n' \<longleftrightarrow> m = m' \<and> n = n'"
proof
  assume "pair_text m n = pair_text m' n'"
  then have "split_on CHR '':'' (pair_text m n) = split_on CHR '':'' (pair_text m' n')" by simp
  then show "m = m' \<and> n = n'" by (simp add: split_pair_text)
qed simp

interpretation prefixed: key_scheme "prefix_key pre" for pre
  by unfold_locales (simp add: prefix_key_def)

interpretation prefixed_pair: key_scheme "prefix_pair_key pre" for pre
  by unfold_locales (auto simp: prefix_pair_key_def prod_eq_iff)

end
