(* ===== verification/External.thy ===== *)
theory External
  imports GoLib
begin

text \<open>
  The libraries and services the code calls: the go-zero Redis client, MySQL through sqlx,
  bigcache, the bloom-filter library, Kafka. None of them is under \<open>src/\<close>, so each is a
  record of functions that stands for the handle the code holds (\<open>*redis.Redis\<close>,
  \<open>sqlx.SqlConn\<close>, ...) and is an argument of the definitions that use it. A function of such
  a record takes and returns the world \<open>'w\<close>: everything outside the Go process, whatever it is.
  Nothing is assumed of a handle here; what a property relies on is one of the predicates at
  the end of the theory, named in the property's hypotheses.
\<close>

section \<open>Redis\<close>

text \<open>
  What \<open>Eval\<close> returns is an \<open>interface{}\<close>: the client turns an integer reply into an
  \<open>int64\<close> and a bulk reply into a \<open>string\<close>. Script arguments are integers or strings.
\<close>

datatype reply = ReplyInt int | ReplyString string | ReplyNil

datatype arg = ArgInt int | ArgString string

record 'w redis =
  redisGet :: "string \<Rightarrow> 'w \<Rightarrow> string res \<times> 'w"
  redisSet :: "string \<Rightarrow> string \<Rightarrow> 'w \<Rightarrow> unit res \<times> 'w"
  redisSetex :: "string \<Rightarrow> string \<Rightarrow> int \<Rightarrow> 'w \<Rightarrow> unit res \<times> 'w"
  redisDel :: "string list \<Rightarrow> 'w \<Rightarrow> int res \<times> 'w"
  redisKeys :: "string \<Rightarrow> 'w \<Rightarrow> string list res \<times> 'w"
  redisIncr :: "string \<Rightarrow> 'w \<Rightarrow> int res \<times> 'w"
  redisDecr :: "string \<Rightarrow> 'w \<Rightarrow> int res \<times> 'w"
  redisSadd :: "string \<Rightarrow> string \<Rightarrow> 'w \<Rightarrow> int res \<times> 'w"
  redisSrem :: "string \<Rightarrow> string \<Rightarrow> 'w \<Rightarrow> int res \<times> 'w"
  redisSismember :: "string \<Rightarrow> string \<Rightarrow> 'w \<Rightarrow> bool res \<times> 'w"
  redisScard :: "string \<Rightarrow> 'w \<Rightarrow> int res \<times> 'w"
  redisSmembers :: "string \<Rightarrow> 'w \<Rightarrow> string list res \<times> 'w"
  redisZadd :: "string \<Rightarrow> int \<Rightarrow> string \<Rightarrow> 'w \<Rightarrow> bool res \<times> 'w"
  redisZrem :: "string \<Rightarrow> string \<Rightarrow> 'w \<Rightarrow> int res \<times> 'w"
  redisZrevrange :: "string \<Rightarrow> int \<Rightarrow> int \<Rightarrow> 'w \<Rightarrow> string list res \<times> 'w"
  redisZremrangebyscore :: "string \<Rightarrow> int \<Rightarrow> int \<Rightarrow> 'w \<Rightarrow> int res \<times> 'w"
  redisPfadd :: "string \<Rightarrow> string \<Rightarrow> 'w \<Rightarrow> bool res \<times> 'w"
  redisPfcount :: "string \<Rightarrow> 'w \<Rightarrow> int res \<times> 'w"
  redisEval :: "string \<Rightarrow> string list \<Rightarrow> arg list \<Rightarrow> 'w \<Rightarrow> reply res \<times> 'w"

section \<open>bigcache\<close>

record 'w bigcache =
  bcGet :: "string \<Rightarrow> 'w \<Rightarrow> string res \<times> 'w"
  bcSet :: "string \<Rightarrow> string \<Rightarrow> 'w \<Rightarrow> 'w"
  bcDelete :: "string \<Rightarrow> 'w \<Rightarrow> 'w"
  bcLen :: "'w \<Rightarrow> int"

section \<open>MySQL\<close>

text \<open>
  \<open>sqlx.SqlConn\<close>: statements are the texts of the source with their arguments. A query whose
  destination is an integer is \<open>dbQueryInt\<close>; the services extend the record by the row types
  they scan into. \<open>STime\<close> is a \<open>time.Time\<close> argument, by its Unix time.
\<close>

datatype sqlarg = SInt int | SStr string | STime int

record sql_result =
  rowsAffected :: "int res"
  lastInsertId :: "int res"

type_synonym ('r, 'w) query = "string \<Rightarrow> sqlarg list \<Rightarrow> 'w \<Rightarrow> 'r res \<times> 'w"

record 'w sqlconn =
  dbExec :: "(sql_result, 'w) query"
  dbQueryInt :: "(int, 'w) query"

text \<open>\<open>_, err := db.Exec(...)\<close>: the result is not looked at.\<close>

definition execErr :: "('w, 'x) sqlconn_scheme \<Rightarrow> string \<Rightarrow> sqlarg list \<Rightarrow> 'w \<Rightarrow> unit res \<times> 'w" where
  "execErr db sql args w =
     (case dbExec db sql args w of (Inl e, w') \<Rightarrow> (Inl e, w') | (Inr _, w') \<Rightarrow> (Inr (), w'))"

text \<open>The number of placeholders of a statement.\<close>

definition placeholders :: "string \<Rightarrow> nat" where
  "placeholders sql = count_list sql CHR ''?''"

section \<open>What a correct service promises\<close>

text \<open>
  Documented behaviour of Redis, over a view \<open>kv\<close> of the world as the string keys that are
  live, for the commands of a store that does not fail. go-zero's \<open>Get\<close> returns the empty
  string and no error for a missing key.
\<close>

definition redis_strings :: "'w redis \<Rightarrow> ('w \<Rightarrow> string \<rightharpoonup> string) \<Rightarrow> bool" where
  "redis_strings R kv \<longleftrightarrow>
     (\<forall>w k. redisGet R k w = (Inr (case kv w k of None \<Rightarrow> [] | Some v \<Rightarrow> v), w)) \<and>
     (\<forall>w k v t. \<exists>w'. redisSetex R k v t w = (Inr (), w') \<and>
        kv w' = (kv w)(k \<mapsto> v)) \<and>
     (\<forall>w ks. \<exists>n w'. redisDel R ks w = (Inr n, w') \<and> kv w' = (kv w) |` (- set ks))"

text \<open>
  Documented behaviour of bigcache over a view of its entries: \<open>Get\<close> answers from the last
  \<open>Set\<close> of the key unless the entry was deleted or has been evicted. The entries may only
  shrink otherwise, so a hit is never invented.
\<close>

definition bigcache_map :: "'w bigcache \<Rightarrow> ('w \<Rightarrow> string \<rightharpoonup> string) \<Rightarrow> bool" where
  "bigcache_map B bc \<longleftrightarrow>
     (\<forall>w k v. fst (bcGet B k w) = Inr v \<longrightarrow> bc w k = Some v) \<and>
     (\<forall>w k. bc (snd (bcGet B k w)) \<subseteq>\<^sub>m bc w) \<and>
     (\<forall>w k v. bc (bcSet B k v w) \<subseteq>\<^sub>m (bc w)(k \<mapsto> v)) \<and>
     (\<forall>w k. bc (bcDelete B k w) \<subseteq>\<^sub>m (bc w)(k := None))"

text \<open>
  Documented behaviour of the sorted-set commands: \<open>ranking w key\<close> lists the members from the
  highest score down and \<open>score w key\<close> maps them to their scores.
\<close>

definition redis_ranking :: "'w redis \<Rightarrow> ('w \<Rightarrow> string \<Rightarrow> string list) \<Rightarrow> bool" where
  "redis_ranking R ranking \<longleftrightarrow> (\<forall>w k a b. 0 \<le> a \<and> a \<le> b \<longrightarrow>
     redisZrevrange R k a b w = (Inr (take (nat (b - a + 1)) (drop (nat a) (ranking w k))), w))"

definition redis_scores :: "'w redis \<Rightarrow> ('w \<Rightarrow> string \<Rightarrow> string \<rightharpoonup> int) \<Rightarrow> bool" where
  "redis_scores R score \<longleftrightarrow>
     (\<forall>w k v m. \<exists>b w'. redisZadd R k v m w = (Inr b, w') \<and>
        score w' = (score w)(k := (score w k)(m \<mapsto> v))) \<and>
     (\<forall>w k a b. \<exists>n w'. redisZremrangebyscore R k a b w = (Inr n, w') \<and>
        score w' = (score w)(k := (\<lambda>m. case score w k m of None \<Rightarrow> None
                                      | Some v \<Rightarrow> if a \<le> v \<and> v \<le> b then None else Some v)))"

text \<open>bigcache does not touch what another service keeps.\<close>

definition bigcache_frame :: "'w bigcache \<Rightarrow> ('w \<Rightarrow> 'v) \<Rightarrow> bool" where
  "bigcache_frame B view \<longleftrightarrow> (\<forall>k v w. view (snd (bcGet B k w)) = view w \<and>
     view (bcSet B k v w) = view w \<and> view (bcDelete B k w) = view w)"

section \<open>Instances for examples\<close>

text \<open>A Redis that is down: every command fails and changes nothing.\<close>

definition down :: "'w \<Rightarrow> 'a res \<times> 'w" where
  "down w = (Inl (ErrLib ''connection refused''), w)"

definition down_redis :: "'w redis" where
  "down_redis = \<lparr>
     redisGet = (\<lambda>k. down), redisSet = (\<lambda>k v. down), redisSetex = (\<lambda>k v t. down),
     redisDel = (\<lambda>ks. down), redisKeys = (\<lambda>p. down), redisIncr = (\<lambda>k. down),
     redisDecr = (\<lambda>k. down), redisSadd = (\<lambda>k v. down), redisSrem = (\<lambda>k v. down),
     redisSismember = (\<lambda>k v. down), redisScard = (\<lambda>k. down), redisSmembers = (\<lambda>k. down),
     redisZadd = (\<lambda>k sc v. down), redisZrem = (\<lambda>k v. down), redisZrevrange = (\<lambda>k a b. down),
     redisZremrangebyscore = (\<lambda>k a b. down), redisPfadd = (\<lambda>k v. down),
     redisPfcount = (\<lambda>k. down), redisEval = (\<lambda>sc ks args. down)\<rparr>"

text \<open>A Redis that keeps strings, over a world that is a clock and the live keys.\<close>

record demo_world =
  dw_now :: int
  dw_kv :: "string \<rightharpoonup> string"

definition map_redis :: "demo_world redis" where
  "map_redis = down_redis\<lparr>
     redisGet := (\<lambda>k w. (Inr (case dw_kv w k of None \<Rightarrow> [] | Some v \<Rightarrow> v), w)),
     redisSetex := (\<lambda>k v t w. (Inr (), w\<lparr>dw_kv := (dw_kv w)(k \<mapsto> v)\<rparr>)),
     redisDel := (\<lambda>ks w. (Inr 0, w\<lparr>dw_kv := dw_kv w |` (- set ks)\<rparr>))\<rparr>"

lemma map_redis_strings: "redis_strings map_redis dw_kv"
  by (simp add: redis_strings_def map_redis_def)

end
