(* ===== verification/PostModel.thy ===== *)
theory PostModel
  imports External
begin

text \<open>
  The data of the post service (\<open>post/internal/model\<close>) and the interface to
  \<open>encoding/json\<close> its caches use. The field names carry the record's name, because the
  structs share field names.
\<close>

record Post =
  post_ID :: int
  post_UserID :: int
  post_CommunityID :: int
  post_Username :: string
  post_Title :: string
  post_Content :: string
  post_Tags :: string
  post_LikeCount :: int
  post_CommentCount :: int
  post_ViewCount :: int
  post_Status :: int
  post_CreatedAt :: int
  post_UpdatedAt :: int

record Comment =
  comment_ID :: int
  comment_PostID :: int
  comment_UserID :: int
  comment_Username :: string
  comment_Content :: string
  comment_ParentID :: int
  comment_Status :: int
  comment_CreatedAt :: int
  comment_UpdatedAt :: int

text \<open>The database connection with the row types of the post service.\<close>

record 'w post_sqlconn = "'w sqlconn" +
  dbQueryPost :: "(Post, 'w) query"
  dbQueryPosts :: "(Post list, 'w) query"
  dbQueryComment :: "(Comment, 'w) query"
  dbQueryComments :: "(Comment list, 'w) query"

text \<open>
  \<open>json.Marshal\<close> and \<open>json.Unmarshal\<close> at the types the service encodes: a post, a string, a
  list of strings, and the wrapper \<open>CacheableValue\<close> of the empty-value cache at a value type
  \<open>'v\<close>, which the cache never looks into. The texts themselves are never inspected by the code,
  so the codec is an argument. The one fact about it that properties use is stated for the
  value at hand: decoding the encoding gives the value back.
\<close>

record json =
  marshalPost :: "Post \<Rightarrow> string res"
  unmarshalPost :: "string \<Rightarrow> Post res"
  marshalString :: "string \<Rightarrow> string res"
  marshalStrings :: "string list \<Rightarrow> string res"
  unmarshalStrings :: "string \<Rightarrow> string list res"

definition json_keeps :: "json \<Rightarrow> Post \<Rightarrow> bool" where
  "json_keeps J p \<longleftrightarrow> (\<exists>data. marshalPost J p = Inr data \<and> unmarshalPost J data = Inr p)"

text \<open>A post used in examples.\<close>

definition demo_post :: Post where
  "demo_post = \<lparr>post_ID = 7, post_UserID = 3, post_CommunityID = 1, post_Username = ''ann'',
     post_Title = ''t'', post_Content = ''c'', post_Tags = ''[]'', post_LikeCount = 2,
     post_CommentCount = 4, post_ViewCount = 20, post_Status = 2, post_CreatedAt = 100,
     post_UpdatedAt = 100\<rparr>"

lemma demo_post_fields [simp]:
  "post_ID demo_post = 7" "post_ViewCount demo_post = 20" "post_CreatedAt demo_post = 100"
  "post_CommentCount demo_post = 4" "post_Status demo_post = 2"
  "demo_post\<lparr>post_ID := 7, post_ViewCount := v\<rparr> = demo_post\<lparr>post_ViewCount := v\<rparr>"
  "demo_post\<lparr>post_ViewCount := 20\<rparr> = demo_post"
  by (simp_all add: demo_post_def)

text \<open>
  A codec for examples: it prints the identifier and the view count of an otherwise fixed post.
\<close>

definition demo_json :: json where
  "demo_json = \<lparr>
     marshalPost = (\<lambda>p. Inr (pair_text (post_ID p) (post_ViewCount p))),
     unmarshalPost = (\<lambda>s. case split_on CHR '':'' s of
         [a, b] \<Rightarrow> (case (ParseInt a, ParseInt b) of
            (Inr i, Inr v) \<Rightarrow> Inr (demo_post\<lparr>post_ID := i, post_ViewCount := v\<rparr>)
          | _ \<Rightarrow> Inl ErrStrconv)
       | _ \<Rightarrow> Inl ErrStrconv),
     marshalString = (\<lambda>s. Inr (CHR 0x22 # s @ [CHR 0x22])),
     marshalStrings = (\<lambda>ss. Inr ''[]''),
     unmarshalStrings = (\<lambda>s. if s = ''[]'' then Inr [] else Inl (ErrLib ''json''))\<rparr>"

lemma demo_json_roundtrip [simp]:
  "is_int64 i \<Longrightarrow> is_int64 v \<Longrightarrow>
   unmarshalPost demo_json (pair_text i v) = Inr (demo_post\<lparr>post_ID := i, post_ViewCount := v\<rparr>)"
  by (simp add: demo_json_def split_pair_text)

lemma marshalPost_demo:
  "marshalPost demo_json p = Inr (pair_text (post_ID p) (post_ViewCount p))"
  by (simp add: demo_json_def)

lemma demo_json_keeps:
  "is_int64 i \<Longrightarrow> is_int64 v \<Longrightarrow> json_keeps demo_json (demo_post\<lparr>post_ID := i, post_ViewCount := v\<rparr>)"
  by (simp add: json_keeps_def demo_json_def split_pair_text)

lemma demo_json_keeps_demo: "json_keeps demo_json demo_post"
  using demo_json_keeps [of 7 20] by (simp add: demo_post_def is_int64_def)

end
