(* ===== verification/RedisViews.thy ===== *)
theory RedisViews
  imports PostModel
begin

text \<open>
  The view counters in Redis (\<open>post/internal/repository/redis.go\<close>): one HyperLogLog of reader
  ids per post, under \<open>post:view:<id>\<close>, and plain-counter operations on the same key.
\<close>

definition view_key :: "int \<Rightarrow> string" where
  "view_key postID = prefix_key ''post:view:'' postID"

definition addWhenCreateScript :: string where
  "addWhenCreateScript = ''
		local key = KEYS[1]
		local userID = ARGV[1]
		local ttl = tonumber(ARGV[2])
		redis.call('PFADD', key, userID)
		redis.call('EXPIRE', key, ttl)
		return 1
	''"

definition addReadWithExpireScript :: string where
  "addReadWithExpireScript = ''
		local key = KEYS[1]
		local userID = ARGV[1]
		local ttl = tonumber(ARGV[2])
		redis.call('PFADD', key, userID)
		if ttl > 0 then
			redis.call('EXPIRE', key, ttl)
		end
		return 1
	''"

definition incrWithExpireScript :: string where
  "incrWithExpireScript = ''
		local key = KEYS[1]
		local ttl = tonumber(ARGV[1])
		local result = redis.call('INCR', key)
		redis.call('EXPIRE', key, ttl)
		return result
	''"

text \<open>Durations are nanoseconds; \<open>ttl / time.Second\<close> truncates towards zero.\<close>

definition whole_seconds :: "int \<Rightarrow> int" where
  "whole_seconds d = sgn d * (\<bar>d\<bar> div 1000000000)"

definition evalErr :: "'w redis \<Rightarrow> string \<Rightarrow> string list \<Rightarrow> arg list \<Rightarrow> 'w \<Rightarrow> unit res \<times> 'w" where
  "evalErr R script keys args w =
     (case redisEval R script keys args w of (Inl e, w') \<Rightarrow> (Inl e, w') | (Inr _, w') \<Rightarrow> (Inr (), w'))"

definition AddWhenCreate :: "'w redis \<Rightarrow> int \<Rightarrow> int \<Rightarrow> 'w \<Rightarrow> unit res \<times> 'w" where
  "AddWhenCreate R postID userID w =
     (let key = view_key postID; ttl = 24 * 3600 * 7
      in evalErr R addWhenCreateScript [key] [ArgInt userID, ArgInt ttl] w)"

definition AddRead :: "'w redis \<Rightarrow> int \<Rightarrow> int \<Rightarrow> 'w \<Rightarrow> unit res \<times> 'w" where
  "AddRead R postID userID w =
     (let key = view_key postID
      in case redisPfadd R key (show_int userID) w of
           (Inl e, w') \<Rightarrow> (Inl e, w') | (Inr _, w') \<Rightarrow> (Inr (), w'))"

definition AddReadWithExpire :: "'w redis \<Rightarrow> int \<Rightarrow> int \<Rightarrow> int \<Rightarrow> 'w \<Rightarrow> unit res \<times> 'w" where
  "AddReadWithExpire R postID userID ttl w =
     (let key = view_key postID; ttlSeconds = whole_seconds ttl
      in evalErr R addReadWithExpireScript [key] [ArgInt userID, ArgInt ttlSeconds] w)"

definition GetRC :: "'w redis \<Rightarrow> int \<Rightarrow> 'w \<Rightarrow> int res \<times> 'w" where
  "GetRC R postID w = redisPfcount R (view_key postID) w"

definition IncrViewCount :: "'w redis \<Rightarrow> int \<Rightarrow> 'w \<Rightarrow> int res \<times> 'w" where
  "IncrViewCount R postID w = redisIncr R (view_key postID) w"

definition IncrViewCountWithExpire :: "'w redis \<Rightarrow> int \<Rightarrow> int \<Rightarrow> 'w \<Rightarrow> int res \<times> 'w" where
  "IncrViewCountWithExpire R postID ttl w =
     (let key = view_key postID; ttlSeconds = whole_seconds ttl
      in case redisEval R incrWithExpireScript [key] [ArgInt ttlSeconds] w of
           (Inl e, w') \<Rightarrow> (Inl e, w')
         | (Inr result, w') \<Rightarrow>
             (case result of
                ReplyInt val \<Rightarrow> (Inr val, w')
              | _ \<Rightarrow> (Inl (Errorf ''unexpected result type''), w')))"

text \<open>The error of \<open>Sscanf\<close> is not looked at: the count stays 0.\<close>

definition GetViewCount :: "'w redis \<Rightarrow> int \<Rightarrow> 'w \<Rightarrow> int res \<times> 'w" where
  "GetViewCount R postID w =
     (case redisGet R (view_key postID) w of
        (Inl e, w') \<Rightarrow> (Inl e, w')
      | (Inr val, w') \<Rightarrow> (Inr (case sscanf_int [] val of Inl _ \<Rightarrow> 0 | Inr count \<Rightarrow> count), w'))"

definition SetViewCount :: "'w redis \<Rightarrow> int \<Rightarrow> int \<Rightarrow> 'w \<Rightarrow> unit res \<times> 'w" where
  "SetViewCount R postID count w = redisSet R (view_key postID) (show_int count) w"

definition SetViewCountWithExpire :: "'w redis \<Rightarrow> int \<Rightarrow> int \<Rightarrow> int \<Rightarrow> 'w \<Rightarrow> unit res \<times> 'w" where
  "SetViewCountWithExpire R postID count expire w =
     redisSetex R (view_key postID) (show_int count) (whole_seconds expire) w"

text \<open>
  A view count that was stored is read back: with a working Redis, storing an int64 count for a
  post and reading it returns that count, and the count of any other post is what it was.
\<close>

theorem view_count_roundtrip:
  assumes "redis_strings R kv" "is_int64 count"
    and "SetViewCountWithExpire R postID count expire w = (r, w')"
  shows "r = Inr () \<and> fst (GetViewCount R postID w') = Inr count
    \<and> (\<forall>other. other \<noteq> postID \<longrightarrow> fst (GetViewCount R other w') = fst (GetViewCount R other w))"
proof -
  have get: "redisGet R k w = (Inr (case kv w k of None \<Rightarrow> [] | Some v \<Rightarrow> v), w)" for k w
    using assms(1) by (simp add: redis_strings_def)
  obtain w1 where "redisSetex R (view_key postID) (show_int count) (whole_seconds expire) w = (Inr (), w1)"
    "kv w1 = (kv w)(view_key postID \<mapsto> show_int count)"
    using assms(1) unfolding redis_strings_def by blast
  with assms(3) have "r = Inr ()" "kv w' = (kv w)(view_key postID \<mapsto> show_int count)"
    by (simp_all add: SetViewCountWithExpire_def)
  with assms(2) sscanf_int_show [of count "[]"] show ?thesis
    by (simp add: GetViewCount_def get view_key_def prefixed.key_eq_iff)
qed

theorem view_count_roundtrip_witness:
  "fst (GetViewCount map_redis 7
     (snd (SetViewCountWithExpire map_redis 7 42 1000000000 \<lparr>dw_now = 0, dw_kv = Map.empty\<rparr>))) = Inr 42"
  by (rule view_count_roundtrip [OF map_redis_strings _ prod.collapse [symmetric], THEN conjunct2, THEN conjunct1])
    (simp add: is_int64_def)

end
