(* ===== verification/HotPostLocalCache.thy ===== *)
theory HotPostLocalCache
  imports PostModel
begin

text \<open>
  The in-process cache of hot posts (\<open>post/internal/repository/hot_post_local_cache.go\<close>): a
  bigcache of JSON-encoded posts, which only takes posts with at least \<open>threshold\<close> views.
\<close>

section \<open>Operations\<close>

record 'w HotPostLocalCache =
  cache :: "'w bigcache"
  threshold :: int

text \<open>
  \<open>NewBigCache\<close> is the library's constructor: it returns a handle and the world with the new
  cache, or an error, on which the code panics. The entry limit is not passed on: only the time
  to live is.
\<close>

definition NewHotPostLocalCache ::
  "(int \<Rightarrow> 'w \<Rightarrow> 'w bigcache res \<times> 'w) \<Rightarrow> int \<Rightarrow> int \<Rightarrow> int \<Rightarrow> 'w \<Rightarrow>
   'w HotPostLocalCache res \<times> 'w" where
  "NewHotPostLocalCache newBigCache maxEntries ttl thr w =
     (case newBigCache ttl w of
        (Inl e, w') \<Rightarrow> (Inl (Panic ''failed to create bigcache''), w')
      | (Inr b, w') \<Rightarrow> (Inr \<lparr>cache = b, threshold = thr\<rparr>, w'))"

definition formatKey :: "int \<Rightarrow> string" where
  "formatKey postID = show_int postID"

definition LocalCache_Get :: "json \<Rightarrow> 'w HotPostLocalCache \<Rightarrow> int \<Rightarrow> 'w \<Rightarrow> Post option \<times> 'w" where
  "LocalCache_Get J c postID w =
     (case bcGet (cache c) (formatKey postID) w of
        (Inl e, w') \<Rightarrow> (None, w')
      | (Inr data, w') \<Rightarrow>
          (case unmarshalPost J data of
             Inl e \<Rightarrow> (None, w')
           | Inr post \<Rightarrow> (Some post, w')))"

text \<open>\<open>Set\<close> of a pointer: \<open>None\<close> is \<open>nil\<close>.\<close>

definition LocalCache_Set :: "json \<Rightarrow> 'w HotPostLocalCache \<Rightarrow> Post option \<Rightarrow> 'w \<Rightarrow> 'w" where
  "LocalCache_Set J c post w =
     (case post of
        None \<Rightarrow> w
      | Some p \<Rightarrow>
          (if post_ViewCount p < threshold c then w
           else (case marshalPost J p of
                   Inl e \<Rightarrow> w
                 | Inr data \<Rightarrow> bcSet (cache c) (formatKey (post_ID p)) data w)))"

definition LocalCache_Delete :: "'w HotPostLocalCache \<Rightarrow> int \<Rightarrow> 'w \<Rightarrow> 'w" where
  "LocalCache_Delete c postID w = bcDelete (cache c) (formatKey postID) w"

definition LocalCache_UpdateViewCount ::
  "json \<Rightarrow> 'w HotPostLocalCache \<Rightarrow> int \<Rightarrow> int \<Rightarrow> 'w \<Rightarrow> 'w" where
  "LocalCache_UpdateViewCount J c postID viewCount w =
     (case LocalCache_Get J c postID w of
        (None, w') \<Rightarrow> w'
      | (Some post, w') \<Rightarrow> LocalCache_Set J c (Some (post\<lparr>post_ViewCount := viewCount\<rparr>)) w')"

definition ShouldCache :: "'w HotPostLocalCache \<Rightarrow> int \<Rightarrow> bool" where
  "ShouldCache c viewCount \<longleftrightarrow> viewCount \<ge> threshold c"

definition LocalCache_Size :: "'w HotPostLocalCache \<Rightarrow> 'w \<Rightarrow> int" where
  "LocalCache_Size c w = bcLen (cache c) w"

interpretation local_key: key_scheme formatKey
  by unfold_locales (simp add: formatKey_def)

section \<open>What the cache holds\<close>

text \<open>
  An entry is sound if it is the encoding of a post with the entry's own id that has the views
  required; the cache is sound if all of its entries are. \<open>good\<close> are the posts the codec is
  faithful on (in Go: those whose texts are valid UTF-8), which a new view count does not change.
\<close>

definition codec_ok :: "json \<Rightarrow> (Post \<Rightarrow> bool) \<Rightarrow> bool" where
  "codec_ok J good \<longleftrightarrow> (\<forall>p. good p \<longrightarrow> json_keeps J p) \<and>
     (\<forall>p v. good p \<and> is_int64 v \<longrightarrow> good (p\<lparr>post_ViewCount := v\<rparr>))"

definition lc_sound ::
  "json \<Rightarrow> (Post \<Rightarrow> bool) \<Rightarrow> 'w HotPostLocalCache \<Rightarrow> (string \<rightharpoonup> string) \<Rightarrow> bool" where
  "lc_sound J good c m \<longleftrightarrow> (\<forall>k data. m k = Some data \<longrightarrow>
     (\<exists>p. unmarshalPost J data = Inr p \<and> good p \<and> k = formatKey (post_ID p) \<and>
        threshold c \<le> post_ViewCount p))"

lemma lc_sound_le: "lc_sound J g c m \<Longrightarrow> m' \<subseteq>\<^sub>m m \<Longrightarrow> lc_sound J g c m'"
  unfolding lc_sound_def map_le_def by (metis domI)

lemma lc_sound_upd:
  "lc_sound J g c m \<Longrightarrow> unmarshalPost J data = Inr p \<Longrightarrow> g p \<Longrightarrow> threshold c \<le> post_ViewCount p \<Longrightarrow>
   lc_sound J g c (m(formatKey (post_ID p) \<mapsto> data))"
  by (auto simp: lc_sound_def)

lemma lc_sound_del: "lc_sound J g c m \<Longrightarrow> lc_sound J g c (m(k := None))"
  by (auto simp: lc_sound_def)

lemma bigcache_mapD:
  assumes "bigcache_map B bc"
  shows "fst (bcGet B k w) = Inr v \<Longrightarrow> bc w k = Some v"
    and "bc (snd (bcGet B k w)) \<subseteq>\<^sub>m bc w"
    and "bc (bcSet B k v w) \<subseteq>\<^sub>m (bc w)(k \<mapsto> v)"
    and "bc (bcDelete B k w) \<subseteq>\<^sub>m (bc w)(k := None)"
  using assms by (auto simp: bigcache_map_def)

lemma Get_sound:
  assumes "bigcache_map (cache c) bc" "lc_sound J g c (bc w)"
  shows "lc_sound J g c (bc (snd (LocalCache_Get J c postID w)))"
proof -
  have "snd (LocalCache_Get J c postID w) = snd (bcGet (cache c) (formatKey postID) w)"
    by (auto simp: LocalCache_Get_def split: res_splits)
  then show ?thesis using assms bigcache_mapD(2) lc_sound_le by metis
qed

lemma Get_hit:
  assumes "bigcache_map (cache c) bc" "lc_sound J g c (bc w)"
    and "fst (LocalCache_Get J c postID w) = Some p"
  shows "post_ID p = postID \<and> threshold c \<le> post_ViewCount p \<and> g p"
proof -
  obtain data where get: "fst (bcGet (cache c) (formatKey postID) w) = Inr data"
    and p: "unmarshalPost J data = Inr p"
    using assms(3) by (auto simp: LocalCache_Get_def split: res_splits)
  from bigcache_mapD(1) [OF assms(1) get] have "bc w (formatKey postID) = Some data" .
  with assms(2) p show ?thesis
    unfolding lc_sound_def using local_key.key_inj by fastforce
qed

lemma Set_sound:
  assumes "bigcache_map (cache c) bc" "codec_ok J g" "lc_sound J g c (bc w)"
    and "\<And>p. post = Some p \<Longrightarrow> g p"
  shows "lc_sound J g c (bc (LocalCache_Set J c post w))"
proof (cases post)
  case None
  with assms show ?thesis by (simp add: LocalCache_Set_def)
next
  case (Some p)
  with assms(2,4) obtain data where d: "marshalPost J p = Inr data" "unmarshalPost J data = Inr p"
    by (auto simp: json_keeps_def codec_ok_def)
  show ?thesis
  proof (cases "post_ViewCount p < threshold c")
    case True
    with Some assms show ?thesis by (simp add: LocalCache_Set_def)
  next
    case False
    then have "lc_sound J g c ((bc w)(formatKey (post_ID p) \<mapsto> data))"
      using assms(3,4) Some d by (intro lc_sound_upd) auto
    with False Some d bigcache_mapD(3) [OF assms(1)] show ?thesis
      by (auto simp: LocalCache_Set_def intro: lc_sound_le)
  qed
qed

lemma Delete_sound:
  assumes "bigcache_map (cache c) bc" "lc_sound J g c (bc w)"
  shows "lc_sound J g c (bc (LocalCache_Delete c postID w))"
  using lc_sound_le [OF lc_sound_del [OF assms(2)] bigcache_mapD(4) [OF assms(1)]]
  by (simp add: LocalCache_Delete_def)

lemma Delete_miss:
  assumes "bigcache_map (cache c) bc"
  shows "fst (LocalCache_Get J c postID (LocalCache_Delete c postID w)) = None"
proof -
  have "formatKey postID \<notin> dom (bc (LocalCache_Delete c postID w))"
    using map_le_implies_dom_le [OF bigcache_mapD(4) [OF assms, of "formatKey postID" w]]
    by (auto simp: LocalCache_Delete_def)
  then show ?thesis
    using bigcache_mapD(1) [OF assms, of "formatKey postID"]
    by (auto simp: LocalCache_Get_def split: res_splits)
qed

lemma UpdateViewCount_sound:
  assumes "bigcache_map (cache c) bc" "codec_ok J g" "lc_sound J g c (bc w)" "is_int64 v"
  shows "lc_sound J g c (bc (LocalCache_UpdateViewCount J c postID v w))"
proof (cases "LocalCache_Get J c postID w")
  case (Pair r w')
  from Get_sound [OF assms(1,3), of postID] Pair have w': "lc_sound J g c (bc w')" by simp
  show ?thesis
  proof (cases r)
    case None
    with Pair w' show ?thesis by (simp add: LocalCache_UpdateViewCount_def)
  next
    case (Some p)
    with Get_hit [OF assms(1,3), of postID p] Pair have "g p" by simp
    with assms(2,4) have "g (p\<lparr>post_ViewCount := v\<rparr>)" by (auto simp: codec_ok_def)
    with Set_sound [OF assms(1,2) w', of "Some (p\<lparr>post_ViewCount := v\<rparr>)"] Pair Some
    show ?thesis by (simp add: LocalCache_UpdateViewCount_def)
  qed
qed

section \<open>Runs of the cache\<close>

datatype lc_op = LGet int | LSet "Post option" | LDelete int | LUpdateViewCount int int

fun lc_step :: "json \<Rightarrow> 'w HotPostLocalCache \<Rightarrow> lc_op \<Rightarrow> 'w \<Rightarrow> 'w" where
  "lc_step J c (LGet i) w = snd (LocalCache_Get J c i w)"
| "lc_step J c (LSet p) w = LocalCache_Set J c p w"
| "lc_step J c (LDelete i) w = LocalCache_Delete c i w"
| "lc_step J c (LUpdateViewCount i v) w = LocalCache_UpdateViewCount J c i v w"

fun lc_op_ok :: "(Post \<Rightarrow> bool) \<Rightarrow> lc_op \<Rightarrow> bool" where
  "lc_op_ok good (LSet (Some p)) = good p"
| "lc_op_ok good (LUpdateViewCount i v) = is_int64 v"
| "lc_op_ok good _ = True"

lemma lc_run_sound:
  assumes "bigcache_map (cache c) bc" "codec_ok J g" "list_all (lc_op_ok g) ops"
    and "lc_sound J g c (bc w)"
  shows "lc_sound J g c (bc (fold (lc_step J c) ops w))"
  using assms(3,4)
proof (induction ops arbitrary: w)
  case (Cons op ops)
  then have "lc_sound J g c (bc (lc_step J c op w))"
    using assms(1,2)
    by (cases op; cases "case op of LSet p \<Rightarrow> p | _ \<Rightarrow> None")
      (auto intro: Get_sound Set_sound Delete_sound UpdateViewCount_sound)
  with Cons show ?case by simp
qed simp

text \<open>
  C30: After any sequence of gets, sets, deletes and view-count updates on a cache that starts
  empty, a hit on an id is a post that has exactly that id and at least the threshold of views,
  whatever bigcache evicted in between, and an id just deleted is a miss.
\<close>

theorem local_cache_hits_are_hot:
  assumes "bigcache_map (cache c) bc" "codec_ok J good"
    and "list_all (lc_op_ok good) ops" "bc w = Map.empty"
  shows "(case fst (LocalCache_Get J c postID (fold (lc_step J c) ops w)) of
            None \<Rightarrow> True
          | Some p \<Rightarrow> post_ID p = postID \<and> ShouldCache c (post_ViewCount p) \<and> good p)
      \<and> fst (LocalCache_Get J c postID (lc_step J c (LDelete postID) (fold (lc_step J c) ops w))) = None"
proof -
  from assms(4) have "lc_sound J good c (bc w)" by (simp add: lc_sound_def)
  from Get_hit [OF assms(1) lc_run_sound [OF assms(1-3) this], of postID] Delete_miss [OF assms(1)]
  show ?thesis by (auto simp: ShouldCache_def split: option.splits)
qed

text \<open>A bigcache that never evicts, over a world that is its contents.\<close>

definition demo_bigcache :: "(string \<rightharpoonup> string) bigcache" where
  "demo_bigcache = \<lparr>
     bcGet = (\<lambda>k m. (case m k of None \<Rightarrow> Inl (ErrLib ''Entry not found'') | Some v \<Rightarrow> Inr v, m)),
     bcSet = (\<lambda>k v m. m(k \<mapsto> v)),
     bcDelete = (\<lambda>k m. m(k := None)),
     bcLen = (\<lambda>m. 0)\<rparr>"

lemma demo_bigcache_map: "bigcache_map demo_bigcache (\<lambda>m. m)"
  by (auto simp: bigcache_map_def demo_bigcache_def split: option.splits)

definition demo_good :: "Post \<Rightarrow> bool" where
  "demo_good p \<longleftrightarrow> is_int64 (post_ID p) \<and> is_int64 (post_ViewCount p) \<and>
     p = demo_post\<lparr>post_ID := post_ID p, post_ViewCount := post_ViewCount p\<rparr>"

lemma demo_good_post: "is_int64 i \<Longrightarrow> is_int64 v \<Longrightarrow> demo_good (demo_post\<lparr>post_ID := i, post_ViewCount := v\<rparr>)"
  by (simp add: demo_good_def)

lemma demo_codec_ok: "codec_ok demo_json demo_good"
  unfolding codec_ok_def
proof (intro conjI allI impI)
  fix p assume p: "demo_good p"
  then have "json_keeps demo_json (demo_post\<lparr>post_ID := post_ID p, post_ViewCount := post_ViewCount p\<rparr>)"
    by (intro demo_json_keeps) (simp_all add: demo_good_def)
  moreover from p have "p = demo_post\<lparr>post_ID := post_ID p, post_ViewCount := post_ViewCount p\<rparr>"
    by (simp only: demo_good_def)
  ultimately show "json_keeps demo_json p" by simp
next
  fix p v assume a: "demo_good p \<and> is_int64 v"
  then have "p = demo_post\<lparr>post_ID := post_ID p, post_ViewCount := post_ViewCount p\<rparr>"
    by (simp only: demo_good_def)
  then obtain i w where p: "p = demo_post\<lparr>post_ID := i, post_ViewCount := w\<rparr>" by blast
  with a have "is_int64 i" by (simp add: demo_good_def)
  with a p show "demo_good (p\<lparr>post_ViewCount := v\<rparr>)"
    by (simp add: demo_good_def)
qed

definition demo_local :: "(string \<rightharpoonup> string) HotPostLocalCache" where
  "demo_local = \<lparr>cache = demo_bigcache, threshold = 10\<rparr>"

theorem local_cache_hits_are_hot_witness:
  "fst (LocalCache_Get demo_json demo_local 7
     (fold (lc_step demo_json demo_local) [LSet (Some demo_post), LUpdateViewCount 7 25] Map.empty)) =
     Some (demo_post\<lparr>post_ViewCount := 25\<rparr>)
   \<and> fst (LocalCache_Get demo_json demo_local 7 (lc_step demo_json demo_local (LDelete 7)
     (fold (lc_step demo_json demo_local) [LSet (Some demo_post), LUpdateViewCount 7 25] Map.empty))) = None"
proof -
  have ok: "list_all (lc_op_ok demo_good) [LSet (Some demo_post), LUpdateViewCount 7 25]"
    using demo_good_post [of 7 20] by (simp add: demo_post_def is_int64_def)
  have "bigcache_map (cache demo_local) (\<lambda>m. m)"
    by (simp add: demo_local_def demo_bigcache_map)
  from local_cache_hits_are_hot [OF this demo_codec_ok ok, of Map.empty 7]
  have "fst (LocalCache_Get demo_json demo_local 7 (lc_step demo_json demo_local (LDelete 7)
     (fold (lc_step demo_json demo_local) [LSet (Some demo_post), LUpdateViewCount 7 25] Map.empty))) = None"
    by blast
  moreover have "fst (LocalCache_Get demo_json demo_local 7
     (fold (lc_step demo_json demo_local) [LSet (Some demo_post), LUpdateViewCount 7 25] Map.empty)) =
     Some (demo_post\<lparr>post_ViewCount := 25\<rparr>)"
    by (simp add: demo_local_def demo_bigcache_def LocalCache_Get_def LocalCache_Set_def
        LocalCache_UpdateViewCount_def marshalPost_demo is_int64_def)
  ultimately show ?thesis by blast
qed

end
