(* ===== verification/CacheLoader.thy ===== *)
theory CacheLoader
  imports HotPostLocalCache
begin

text \<open>
  The read-through loader of post details (\<open>post/internal/repository/cache_loader.go\<close>): local
  cache, then Redis, then the database behind a Redis lock; a caller that does not get the lock
  polls the caches until a deadline.
\<close>

section \<open>The loader\<close>

definition LockKeyPrefix :: string where "LockKeyPrefix = ''post:lock:''"
definition LockTTL_ms :: int where "LockTTL_ms = 400"
definition CacheKeyPrefix :: string where "CacheKeyPrefix = ''post:cache:''"
definition CacheTTL_s :: int where "CacheTTL_s = 30"

record 'w CacheLoader =
  cl_redis :: "'w redis"
  cl_localCache :: "'w HotPostLocalCache"

definition NewCacheLoader :: "'w redis \<Rightarrow> 'w HotPostLocalCache \<Rightarrow> 'w CacheLoader" where
  "NewCacheLoader rds lc = \<lparr>cl_redis = rds, cl_localCache = lc\<rparr>"

definition acquireScript :: string where
  "acquireScript = ''
local ok = redis.call(\"SET\", KEYS[1], ARGV[1], \"NX\", \"PX\", ARGV[2])
if ok then
	return 1
else
	return 0
end''"

definition releaseScript :: string where
  "releaseScript = ''
if redis.call(\"get\", KEYS[1]) == ARGV[1] then
	return redis.call(\"del\", KEYS[1])
else
	return 0
end''"

text \<open>
  The reply is an \<open>interface{}\<close> and is compared with the string \<open>"1"\<close>, so only a string reply
  can be equal to it.
\<close>

definition acquireLock :: "'w CacheLoader \<Rightarrow> string \<Rightarrow> string \<Rightarrow> 'w \<Rightarrow> bool res \<times> 'w" where
  "acquireLock l key value w =
     (case redisEval (cl_redis l) acquireScript [key] [ArgString value, ArgInt LockTTL_ms] w of
        (Inl err, w') \<Rightarrow> (Inl err, w')
      | (Inr result, w') \<Rightarrow> (Inr (result = ReplyString ''1''), w'))"

definition releaseLock :: "'w CacheLoader \<Rightarrow> string \<Rightarrow> string \<Rightarrow> 'w \<Rightarrow> 'w" where
  "releaseLock l key value w =
     snd (redisEval (cl_redis l) releaseScript [key] [ArgString value] w)"

definition getRedisCache :: "json \<Rightarrow> 'w CacheLoader \<Rightarrow> int \<Rightarrow> 'w \<Rightarrow> Post option \<times> 'w" where
  "getRedisCache J l key w =
     (case redisGet (cl_redis l) (prefix_key CacheKeyPrefix key) w of
        (Inl err, w') \<Rightarrow> (None, w')
      | (Inr val, w') \<Rightarrow>
          (if val = [] then (None, w')
           else (case unmarshalPost J val of
                   Inl err \<Rightarrow> (None, w')
                 | Inr post \<Rightarrow> (Some post, w'))))"

definition setRedisCache :: "json \<Rightarrow> 'w CacheLoader \<Rightarrow> int \<Rightarrow> Post \<Rightarrow> 'w \<Rightarrow> 'w" where
  "setRedisCache J l key post w =
     (case marshalPost J post of
        Inl err \<Rightarrow> w
      | Inr data \<Rightarrow> snd (redisSetex (cl_redis l) (prefix_key CacheKeyPrefix key) data CacheTTL_s w))"

text \<open>
  The lookup that the code repeats four times: the local cache, then Redis, a Redis hit being
  copied to the local cache when it is hot.
\<close>

definition lookupCaches :: "json \<Rightarrow> 'w CacheLoader \<Rightarrow> int \<Rightarrow> 'w \<Rightarrow> Post option \<times> 'w" where
  "lookupCaches J l key w =
     (case LocalCache_Get J (cl_localCache l) key w of
        (Some post, w1) \<Rightarrow> (Some post, w1)
      | (None, w1) \<Rightarrow>
          (case getRedisCache J l key w1 of
             (Some post, w2) \<Rightarrow>
               (Some post,
                if ShouldCache (cl_localCache l) (post_ViewCount post)
                then LocalCache_Set J (cl_localCache l) (Some post) w2 else w2)
           | (None, w2) \<Rightarrow> (None, w2)))"

text \<open>
  What the \<open>select\<close> of \<open>waitForCache\<close> can receive: the deadline, a tick, the context's
  cancellation. Each event comes with what happened in the world meanwhile. When more than one
  channel is ready Go picks any of them, so every order of events is possible. The events are a
  list; \<open>None\<close> is the result of a call that is still waiting when they run out.
\<close>

datatype wait_event = EvTimeout | EvTick | EvDone err

fun waitForCache ::
  "json \<Rightarrow> 'w CacheLoader \<Rightarrow> int \<Rightarrow> ('w \<Rightarrow> Post option res \<times> 'w) \<Rightarrow>
   (wait_event \<times> ('w \<Rightarrow> 'w)) list \<Rightarrow> 'w \<Rightarrow> (Post option res \<times> 'w) option" where
  "waitForCache J l key loadFn [] w = None"
| "waitForCache J l key loadFn ((EvTimeout, env) # evs) w = Some (loadFn (env w))"
| "waitForCache J l key loadFn ((EvTick, env) # evs) w =
     (case lookupCaches J l key (env w) of
        (Some post, w') \<Rightarrow> Some (Inr (Some post), w')
      | (None, w') \<Rightarrow> waitForCache J l key loadFn evs w')"
| "waitForCache J l key loadFn ((EvDone e, env) # evs) w = Some (Inl e, env w)"

text \<open>What runs between a successful \<open>acquireLock\<close> and the deferred \<open>releaseLock\<close>.\<close>

definition loadUnderLock ::
  "json \<Rightarrow> 'w CacheLoader \<Rightarrow> int \<Rightarrow> ('w \<Rightarrow> Post option res \<times> 'w) \<Rightarrow> 'w \<Rightarrow> Post option res \<times> 'w" where
  "loadUnderLock J l key loadFn w =
     (case lookupCaches J l key w of
        (Some post, w1) \<Rightarrow> (Inr (Some post), w1)
      | (None, w1) \<Rightarrow>
          (case loadFn w1 of
             (Inl err, w2) \<Rightarrow> (Inl err, w2)
           | (Inr None, w2) \<Rightarrow> (Inr None, w2)
           | (Inr (Some post), w2) \<Rightarrow>
               (case lookupCaches J l key w2 of
                  (Some cachedPost, w3) \<Rightarrow> (Inr (Some cachedPost), w3)
                | (None, w3) \<Rightarrow>
                    (Inr (Some post),
                     if ShouldCache (cl_localCache l) (post_ViewCount post)
                     then setRedisCache J l key post (LocalCache_Set J (cl_localCache l) (Some post) w3)
                     else w3))))"

definition getWithLock ::
  "('w \<Rightarrow> int) \<Rightarrow> json \<Rightarrow> 'w CacheLoader \<Rightarrow> int \<Rightarrow> ('w \<Rightarrow> Post option res \<times> 'w) \<Rightarrow>
   (wait_event \<times> ('w \<Rightarrow> 'w)) list \<Rightarrow> 'w \<Rightarrow> (Post option res \<times> 'w) option" where
  "getWithLock clk J l key loadFn evs w =
     (let lockKey = prefix_key LockKeyPrefix key;
          lockValue = pair_text (clk w) key
      in case acquireLock l lockKey lockValue w of
           (Inl err, w1) \<Rightarrow> Some (loadFn w1)
         | (Inr True, w1) \<Rightarrow>
             (case loadUnderLock J l key loadFn w1 of
                (r, w2) \<Rightarrow> Some (r, releaseLock l lockKey lockValue w2))
         | (Inr False, w1) \<Rightarrow> waitForCache J l key loadFn evs w1)"

definition GetOrLoad ::
  "('w \<Rightarrow> int) \<Rightarrow> json \<Rightarrow> 'w CacheLoader \<Rightarrow> int \<Rightarrow> ('w \<Rightarrow> Post option res \<times> 'w) \<Rightarrow>
   (wait_event \<times> ('w \<Rightarrow> 'w)) list \<Rightarrow> 'w \<Rightarrow> (Post option res \<times> 'w) option" where
  "GetOrLoad clk J l key loadFn evs w =
     (case lookupCaches J l key w of
        (Some post, w1) \<Rightarrow> Some (Inr (Some post), w1)
      | (None, w1) \<Rightarrow> getWithLock clk J l key loadFn evs w1)"

section \<open>The loader always answers\<close>

fun ends_wait :: "wait_event \<times> ('w \<Rightarrow> 'w) \<Rightarrow> bool" where
  "ends_wait (EvTick, _) = False"
| "ends_wait _ = True"

lemma waitForCache_returns: "list_ex ends_wait evs \<Longrightarrow> \<exists>r. waitForCache J l key loadFn evs w = Some r"
proof (induction evs arbitrary: w)
  case (Cons e evs)
  obtain k env where e: "e = (k, env)" by fastforce
  show ?case
  proof (cases k)
    case EvTick
    with Cons e have "\<exists>r. waitForCache J l key loadFn evs w' = Some r" for w' by auto
    with e EvTick show ?thesis by (auto split: prod.split option.split)
  qed (use e in auto)
qed simp

text \<open>
  What a post the loader returns can be: a hit of one of the caches or the post the load function
  read.
\<close>

definition from_sources ::
  "json \<Rightarrow> 'w CacheLoader \<Rightarrow> int \<Rightarrow> ('w \<Rightarrow> Post option res \<times> 'w) \<Rightarrow> Post \<Rightarrow> bool" where
  "from_sources J l key loadFn p \<longleftrightarrow>
     (\<exists>v. fst (LocalCache_Get J (cl_localCache l) key v) = Some p) \<or>
     (\<exists>v. fst (getRedisCache J l key v) = Some p) \<or>
     (\<exists>v. fst (loadFn v) = Inr (Some p))"

lemma lookupCaches_source:
  "lookupCaches J l key w = (Some p, w') \<Longrightarrow> from_sources J l key loadFn p"
  unfolding lookupCaches_def from_sources_def
  by (auto split: prod.splits option.splits) (metis fst_conv)+

lemma loadFn_source: "loadFn w = (Inr (Some p), w') \<Longrightarrow> from_sources J l key loadFn p"
  unfolding from_sources_def by (metis fst_conv)

lemma waitForCache_source:
  "waitForCache J l key loadFn evs w = Some (Inr (Some p), w') \<Longrightarrow> from_sources J l key loadFn p"
  by (induction J l key loadFn evs w rule: waitForCache.induct)
    (auto split: prod.splits option.splits intro: lookupCaches_source loadFn_source)

lemma loadUnderLock_source:
  "loadUnderLock J l key loadFn w = (Inr (Some p), w') \<Longrightarrow> from_sources J l key loadFn p"
  unfolding loadUnderLock_def
  by (auto split: prod.splits option.splits sum.splits intro: lookupCaches_source loadFn_source)

lemma GetOrLoad_source:
  "GetOrLoad clk J l key loadFn evs w = Some (Inr (Some p), w') \<Longrightarrow> from_sources J l key loadFn p"
  unfolding GetOrLoad_def getWithLock_def Let_def
  by (auto split: prod.splits option.splits sum.splits bool.splits
      intro: lookupCaches_source loadFn_source waitForCache_source loadUnderLock_source)


text \<open>
  For examples: a Redis in which \<open>Eval\<close> answers with a fixed reply and no key is ever found.
\<close>

definition reply_redis :: "reply \<Rightarrow> 'w redis" where
  "reply_redis r = down_redis\<lparr>redisGet := (\<lambda>k w. (Inr [], w)), redisEval := (\<lambda>sc ks args w. (Inr r, w))\<rparr>"

definition demo_loader :: "reply \<Rightarrow> int CacheLoader" where
  "demo_loader r = NewCacheLoader (reply_redis r)
     \<lparr>HotPostLocalCache.cache = \<lparr>bcGet = (\<lambda>k w. (Inl (ErrLib ''Entry not found''), w)),
        bcSet = (\<lambda>k v w. w), bcDelete = (\<lambda>k w. w), bcLen = (\<lambda>w. 0)\<rparr>, threshold = 1000\<rparr>"

lemma demo_loader_misses: "lookupCaches J (demo_loader r) key w = (None, w)"
  by (simp add: lookupCaches_def demo_loader_def NewCacheLoader_def LocalCache_Get_def getRedisCache_def
      reply_redis_def)

lemma demo_loader_sources:
  "from_sources J (demo_loader r) key loadFn p \<longleftrightarrow> (\<exists>v. fst (loadFn v) = Inr (Some p))"
  by (simp add: from_sources_def demo_loader_def NewCacheLoader_def LocalCache_Get_def getRedisCache_def
      reply_redis_def)


section \<open>The lock\<close>



fun all_miss :: "json \<Rightarrow> 'w CacheLoader \<Rightarrow> int \<Rightarrow> (wait_event \<times> ('w \<Rightarrow> 'w)) list \<Rightarrow> 'w \<Rightarrow> 'w option" where
  "all_miss J l key [] w = Some w"
| "all_miss J l key ((EvTick, env) # evs) w =
     (case lookupCaches J l key (env w) of (None, w') \<Rightarrow> all_miss J l key evs w' | _ \<Rightarrow> None)"
| "all_miss J l key (_ # evs) w = None"

lemma waitForCache_all_miss:
  "all_miss J l key evs w = Some w' \<Longrightarrow>
   waitForCache J l key loadFn (evs @ [(EvTimeout, env)]) w = Some (loadFn (env w'))"
  by (induction J l key evs w rule: all_miss.induct) (auto split: prod.splits option.splits)

text \<open>
  C34: The lock is never held and the loader never fills a cache: the acquire script returns an
  integer, which is not equal to the string "1", so for every Redis that converts integer replies
  to integers a read that misses both caches polls until its deadline and then answers with the
  load function's result, having written neither the local cache nor Redis itself.
\<close>

theorem lock_never_acquired:
  assumes "\<forall>ks args w. \<exists>n w'. redisEval (cl_redis l) acquireScript ks args w = (Inr (ReplyInt n), w')"
    and "lookupCaches J l key w = (None, w1)"
    and "redisEval (cl_redis l) acquireScript [prefix_key LockKeyPrefix key]
           [ArgString (pair_text (clk w1) key), ArgInt LockTTL_ms] w1 = (r, w2)"
    and "all_miss J l key ticks w2 = Some w3"
  shows "GetOrLoad clk J l key loadFn (ticks @ [(EvTimeout, env)]) w = Some (loadFn (env w3))
    \<and> fst (acquireLock l k v w) \<noteq> Inr True"
proof -
  from assms(1) obtain n w' where e: "redisEval (cl_redis l) acquireScript [k] [ArgString v, ArgInt LockTTL_ms] w =
      (Inr (ReplyInt n), w')" by blast
  from assms(1,3) obtain m where "r = Inr (ReplyInt m)"
    by (metis prod.inject)
  with assms(2-4) e show ?thesis
    by (simp add: GetOrLoad_def getWithLock_def acquireLock_def Let_def waitForCache_all_miss)
qed

theorem lock_never_acquired_witness:
  "GetOrLoad (\<lambda>w. w) demo_json (demo_loader (ReplyInt 1)) 7 (\<lambda>w. (Inr (Some demo_post), w))
      ([(EvTick, \<lambda>w. w + 20)] @ [(EvTimeout, \<lambda>w. w + 4980)]) 0 = Some (Inr (Some demo_post), 5000)"
proof -
  have miss: "all_miss demo_json (demo_loader (ReplyInt 1)) 7 [(EvTick, \<lambda>w. w + 20)] 0 = Some 20"
    by (simp add: demo_loader_misses)
  have ev: "redisEval (cl_redis (demo_loader (ReplyInt 1))) sc ks args w = (Inr (ReplyInt 1), w)" for sc ks args w
    by (simp add: demo_loader_def NewCacheLoader_def reply_redis_def)
  from lock_never_acquired [where clk = "\<lambda>w. w" and env = "\<lambda>w. w + 4980"
      and loadFn = "\<lambda>w. (Inr (Some demo_post), w)", OF _ demo_loader_misses ev miss] ev
  show ?thesis by simp
qed

end
