(* ===== verification/CircuitBreaker.thy ===== *)
theory CircuitBreaker
  imports GoLib Complex_Main
begin

text \<open>
  The circuit breaker (\<open>post/internal/repository/circuit_breaker.go\<close>). Every method holds the
  mutex for its whole body, so a method is one atomic step on the struct. \<open>time.Now()\<close> is the
  argument \<open>now\<close> of the methods that read the clock. Instants and durations are nanoseconds;
  the rate of failures, a \<open>float64\<close> quotient in the code, is the exact quotient.
\<close>

section \<open>State and configuration\<close>

datatype State = StateClosed | StateOpen | StateHalfOpen

text \<open>\<open>iota\<close> numbers the constants; Go compares them as integers, which orders them.\<close>

definition State_iota :: "State \<Rightarrow> nat" where
  "State_iota s = (case s of StateClosed \<Rightarrow> 0 | StateOpen \<Rightarrow> 1 | StateHalfOpen \<Rightarrow> 2)"

instantiation State :: linorder
begin

definition less_eq_State :: "State \<Rightarrow> State \<Rightarrow> bool" where
  "less_eq_State a b \<longleftrightarrow> State_iota a \<le> State_iota b"

definition less_State :: "State \<Rightarrow> State \<Rightarrow> bool" where
  "less_State a b \<longleftrightarrow> State_iota a < State_iota b"

instance
  by intro_classes
    (auto simp: less_eq_State_def less_State_def State_iota_def split: State.splits)
end

definition State_String :: "State \<Rightarrow> string" where
  "State_String s = (case s of StateClosed \<Rightarrow> ''closed'' | StateOpen \<Rightarrow> ''open''
     | StateHalfOpen \<Rightarrow> ''half-open'')"

record CircuitBreakerConfig =
  FailureThreshold :: int
  SuccessThreshold :: int
  Timeout :: int
  MaxHalfOpenReqs :: int
  FailureRate :: real

record CircuitBreaker =
  state :: State
  failures :: int
  successes :: int
  requests :: int
  lastFailTime :: int
  halfOpenReqs :: int
  config :: CircuitBreakerConfig

text \<open>A duration in nanoseconds, the zero \<open>time.Time\<close>, and \<open>time.Since\<close>, which saturates.\<close>

definition second :: int where
  "second = 1000000000"

definition zero_time :: int where
  "zero_time = - 62135596800 * second"

definition time_since :: "int \<Rightarrow> int \<Rightarrow> int" where
  "time_since now t = max (- (2 ^ 63)) (min (2 ^ 63 - 1) (now - t))"

definition emptyConfig :: CircuitBreakerConfig where
  "emptyConfig = \<lparr>FailureThreshold = 0, SuccessThreshold = 0, Timeout = 0, MaxHalfOpenReqs = 0,
     FailureRate = 0\<rparr>"

definition NewCircuitBreaker :: "CircuitBreakerConfig \<Rightarrow> CircuitBreaker" where
  "NewCircuitBreaker c =
     (let c1 = (if Timeout c = 0 then c\<lparr>Timeout := 30 * second\<rparr> else c);
          c2 = (if FailureThreshold c1 = 0 then c1\<lparr>FailureThreshold := 5\<rparr> else c1);
          c3 = (if SuccessThreshold c2 = 0 then c2\<lparr>SuccessThreshold := 3\<rparr> else c2);
          c4 = (if MaxHalfOpenReqs c3 = 0 then c3\<lparr>MaxHalfOpenReqs := 1\<rparr> else c3);
          c5 = (if FailureRate c4 = 0 then c4\<lparr>FailureRate := 1 / 2\<rparr> else c4)
      in \<lparr>state = StateClosed, failures = 0, successes = 0, requests = 0,
          lastFailTime = zero_time, halfOpenReqs = 0, config = c5\<rparr>)"

section \<open>Operations\<close>

definition Allow :: "int \<Rightarrow> CircuitBreaker \<Rightarrow> bool \<times> CircuitBreaker" where
  "Allow now cb = (case state cb of
       StateClosed \<Rightarrow> (True, cb)
     | StateOpen \<Rightarrow>
         (if time_since now (lastFailTime cb) > Timeout (config cb)
          then (True, cb\<lparr>state := StateHalfOpen, halfOpenReqs := 0, successes := 0\<rparr>)
          else (False, cb))
     | StateHalfOpen \<Rightarrow>
         (if halfOpenReqs cb < MaxHalfOpenReqs (config cb)
          then (True, cb\<lparr>halfOpenReqs := halfOpenReqs cb + 1\<rparr>)
          else (False, cb)))"

definition RecordSuccess :: "CircuitBreaker \<Rightarrow> CircuitBreaker" where
  "RecordSuccess cb = (case state cb of
       StateClosed \<Rightarrow> cb\<lparr>successes := successes cb + 1, failures := 0, requests := 0\<rparr>
     | StateOpen \<Rightarrow> cb
     | StateHalfOpen \<Rightarrow>
         (let cb' = cb\<lparr>successes := successes cb + 1\<rparr> in
          if successes cb' \<ge> SuccessThreshold (config cb')
          then cb'\<lparr>state := StateClosed, failures := 0, successes := 0, requests := 0\<rparr>
          else cb'))"

definition RecordFailure :: "int \<Rightarrow> CircuitBreaker \<Rightarrow> CircuitBreaker" where
  "RecordFailure now cb0 =
     (let cb = cb0\<lparr>lastFailTime := now\<rparr> in
      case state cb of
        StateClosed \<Rightarrow>
          (let cb' = cb\<lparr>failures := failures cb + 1, requests := requests cb + 1\<rparr> in
           if failures cb' \<ge> FailureThreshold (config cb') then cb'\<lparr>state := StateOpen\<rparr>
           else if requests cb' \<ge> FailureThreshold (config cb') \<and>
                   real_of_int (failures cb') / real_of_int (requests cb') \<ge> FailureRate (config cb')
           then cb'\<lparr>state := StateOpen\<rparr>
           else cb')
      | StateOpen \<Rightarrow> cb
      | StateHalfOpen \<Rightarrow>
          cb\<lparr>failures := failures cb + 1, state := StateOpen, halfOpenReqs := 0\<rparr>)"

text \<open>
  \<open>Call\<close> runs \<open>fn\<close> on the world outside the breaker; the clock is read from the world before
  (\<open>Allow\<close>) and after (\<open>RecordFailure\<close>) the call.
\<close>

definition Call :: "('w \<Rightarrow> int) \<Rightarrow> ('w \<Rightarrow> err option \<times> 'w) \<Rightarrow> CircuitBreaker \<Rightarrow> 'w \<Rightarrow>
    err option \<times> CircuitBreaker \<times> 'w" where
  "Call clk fn cb w = (case Allow (clk w) cb of
       (False, cb1) \<Rightarrow> (Some ErrCircuitOpen, cb1, w)
     | (True, cb1) \<Rightarrow>
         (case fn w of
            (Some e, w') \<Rightarrow> (Some e, RecordFailure (clk w') cb1, w')
          | (None, w') \<Rightarrow> (None, RecordSuccess cb1, w')))"

definition Reset :: "CircuitBreaker \<Rightarrow> CircuitBreaker" where
  "Reset cb = cb\<lparr>state := StateClosed, failures := 0, successes := 0, requests := 0,
     halfOpenReqs := 0\<rparr>"

record CircuitBreakerStats =
  StatsState :: State
  Failures :: int
  Successes :: int
  Requests :: int
  HalfOpenReqs :: int

definition Stats :: "CircuitBreaker \<Rightarrow> CircuitBreakerStats" where
  "Stats cb = \<lparr>StatsState = state cb, Failures = failures cb, Successes = successes cb,
     Requests = requests cb, HalfOpenReqs = halfOpenReqs cb\<rparr>"

text \<open>
  Callers on different goroutines interleave the methods freely: a run of the breaker is any
  sequence of method calls, each at its own time.
\<close>

datatype cb_op = OpAllow int | OpSuccess | OpFailure int | OpReset

fun cb_step :: "cb_op \<Rightarrow> CircuitBreaker \<Rightarrow> CircuitBreaker" where
  "cb_step (OpAllow now) cb = snd (Allow now cb)"
| "cb_step OpSuccess cb = RecordSuccess cb"
| "cb_step (OpFailure now) cb = RecordFailure now cb"
| "cb_step OpReset cb = Reset cb"

lemmas cb_defs = Allow_def RecordSuccess_def RecordFailure_def Reset_def

section \<open>The invariant\<close>

text \<open>
  In the closed state every failure was counted as a request and a success clears both, so the
  two counters agree and are below the threshold; in the half-open state the trial
  counters are within their limits.
\<close>

definition cb_inv :: "CircuitBreaker \<Rightarrow> bool" where
  "cb_inv cb \<longleftrightarrow>
     (state cb = StateClosed \<longrightarrow> failures cb = requests cb \<and> 0 \<le> failures cb \<and>
        (0 < failures cb \<longrightarrow> failures cb < FailureThreshold (config cb))) \<and>
     (state cb = StateHalfOpen \<longrightarrow> 0 \<le> halfOpenReqs cb \<and> 0 \<le> successes cb \<and>
        (0 < halfOpenReqs cb \<longrightarrow> halfOpenReqs cb \<le> MaxHalfOpenReqs (config cb)) \<and>
        (0 < successes cb \<longrightarrow> successes cb < SuccessThreshold (config cb)))"

lemma cb_step_inv: "cb_inv cb \<Longrightarrow> cb_inv (cb_step e cb)"
  by (cases e; cases "state cb") (auto simp: cb_inv_def cb_defs Let_def)

interpretation breaker: invariant_machine cb_step cb_inv
  by unfold_locales (rule cb_step_inv)

lemma NewCircuitBreaker_inv: "cb_inv (NewCircuitBreaker c)"
  by (simp add: cb_inv_def NewCircuitBreaker_def Let_def)

lemma cb_step_config [simp]: "config (cb_step e cb) = config cb"
  by (cases e; cases "state cb") (auto simp: cb_defs Let_def)

lemma cb_run_config [simp]: "config (fold cb_step es cb) = config cb"
  by (induction es arbitrary: cb) auto

section \<open>Helper lemmas\<close>

definition set_rate :: "real \<Rightarrow> CircuitBreaker \<Rightarrow> CircuitBreaker" where
  "set_rate r cb = cb\<lparr>config := (config cb)\<lparr>FailureRate := r\<rparr>\<rparr>"

lemma cb_step_set_rate: "cb_inv cb \<Longrightarrow> cb_step e (set_rate r cb) = set_rate r (cb_step e cb)"
  by (cases e; cases "state cb") (auto simp: cb_inv_def cb_defs set_rate_def Let_def)

lemma cb_run_set_rate:
  "cb_inv cb \<Longrightarrow> fold cb_step es (set_rate r cb) = set_rate r (fold cb_step es cb)"
  by (induction es arbitrary: cb) (simp_all add: cb_step_set_rate cb_step_inv)

lemma fold_RecordFailure:
  assumes "state cb = StateClosed" "failures cb = requests cb" "0 \<le> failures cb"
    and "failures cb < FailureThreshold (config cb)"
  shows "let cb' = fold RecordFailure ts cb in
    (int (length ts) < FailureThreshold (config cb) - failures cb \<longrightarrow>
       state cb' = StateClosed \<and> failures cb' = failures cb + int (length ts)) \<and>
    (FailureThreshold (config cb) - failures cb \<le> int (length ts) \<longrightarrow> state cb' = StateOpen)"
  using assms
proof (induction ts arbitrary: cb)
  case Nil
  then show ?case by simp
next
  case (Cons t ts)
  have opn: "state (fold RecordFailure us c) = StateOpen" if "state c = StateOpen" for us c
    using that by (induction us arbitrary: c) (auto simp: RecordFailure_def Let_def)
  show ?case
  proof (cases "failures cb + 1 < FailureThreshold (config cb)")
    case True
    define cb1 where "cb1 = RecordFailure t cb"
    have "state cb1 = StateClosed" "failures cb1 = requests cb1" "failures cb1 = failures cb + 1"
      "config cb1 = config cb"
      using Cons.prems True by (auto simp: cb1_def RecordFailure_def Let_def)
    with Cons.IH [of cb1] Cons.prems True show ?thesis
      by (simp add: cb1_def [symmetric] Let_def algebra_simps)
  next
    case False
    then have "state (RecordFailure t cb) = StateOpen"
      using Cons.prems by (auto simp: RecordFailure_def Let_def)
    with False Cons.prems opn show ?thesis by (auto simp: Let_def)
  qed
qed

text \<open>Calls one after the other, each with its own body \<open>fn\<close>, collecting their results.\<close>

fun run_calls :: "('w \<Rightarrow> int) \<Rightarrow> ('w \<Rightarrow> err option \<times> 'w) list \<Rightarrow> CircuitBreaker \<Rightarrow> 'w \<Rightarrow>
    err option list \<times> CircuitBreaker \<times> 'w" where
  "run_calls clk [] cb w = ([], cb, w)"
| "run_calls clk (fn # fns) cb w =
     (case Call clk fn cb w of (r, cb1, w1) \<Rightarrow>
        (case run_calls clk fns cb1 w1 of (rs, cb2, w2) \<Rightarrow> (r # rs, cb2, w2)))"

text \<open>
  A breaker that cannot close: open, or half-open with at most as many successes as it has
  admitted trials, the trial that opened the half-open state being one more than it counts.
\<close>

definition cannot_close :: "CircuitBreaker \<Rightarrow> bool" where
  "cannot_close cb \<longleftrightarrow> 0 \<le> MaxHalfOpenReqs (config cb) \<and>
     MaxHalfOpenReqs (config cb) + 1 < SuccessThreshold (config cb) \<and>
     (state cb = StateOpen \<or>
      (state cb = StateHalfOpen \<and> 0 \<le> halfOpenReqs cb \<and>
       halfOpenReqs cb \<le> MaxHalfOpenReqs (config cb) \<and> successes cb \<le> halfOpenReqs cb + 1))"

lemma Call_cannot_close:
  "cannot_close cb \<Longrightarrow> Call clk fn cb w = (r, cb', w') \<Longrightarrow> cannot_close cb'"
  by (cases "state cb")
    (auto simp: cannot_close_def Call_def cb_defs Let_def split: if_splits prod.splits option.splits)

lemma run_calls_cannot_close:
  "cannot_close cb \<Longrightarrow> run_calls clk fns cb w = (rs, cb', w') \<Longrightarrow> cannot_close cb'"
proof (induction fns arbitrary: cb w rs)
  case Nil
  then show ?case by simp
next
  case (Cons fn fns)
  then show ?case by (auto split: prod.splits dest: Call_cannot_close)
qed

lemma Call_exhausted:
  "state cb = StateHalfOpen \<Longrightarrow> MaxHalfOpenReqs (config cb) \<le> halfOpenReqs cb \<Longrightarrow>
   Call clk fn cb w = (Some ErrCircuitOpen, cb, w)"
  by (simp add: Call_def Allow_def)

lemma run_calls_exhausted:
  "state cb = StateHalfOpen \<Longrightarrow> MaxHalfOpenReqs (config cb) \<le> halfOpenReqs cb \<Longrightarrow>
   run_calls clk fns cb w = (replicate (length fns) (Some ErrCircuitOpen), cb, w)"
  by (induction fns) (simp_all add: Call_exhausted)

lemma run_calls_succeed:
  assumes "state cb = StateHalfOpen" "list_all (\<lambda>fn. \<forall>w. fst (fn w) = None) fns"
    and "int (length fns) = SuccessThreshold (config cb) - successes cb" "fns \<noteq> []"
    and "halfOpenReqs cb + int (length fns) \<le> MaxHalfOpenReqs (config cb)"
  shows "\<exists>cb' w'. run_calls clk fns cb w = (replicate (length fns) None, cb', w') \<and>
    state cb' = StateClosed"
  using assms
proof (induction fns arbitrary: cb w)
  case Nil
  then show ?case by simp
next
  case (Cons fn fns)
  from Cons.prems(2) have "fst (fn w) = None" by simp
  then obtain w1 where fn: "fn w = (None, w1)" by (cases "fn w") auto
  show ?case
  proof (cases fns)
    case Nil
    with Cons.prems fn show ?thesis by (simp add: Call_def cb_defs Let_def)
  next
    case (Cons f fs)
    define cb1 where "cb1 = cb\<lparr>halfOpenReqs := halfOpenReqs cb + 1, successes := successes cb + 1\<rparr>"
    have call: "Call clk fn cb w = (None, cb1, w1)"
      using Cons.prems fn Cons by (simp add: Call_def cb_defs Let_def cb1_def)
    have "\<exists>cb' w'. run_calls clk fns cb1 w1 = (replicate (length fns) None, cb', w') \<and>
        state cb' = StateClosed"
      by (rule Cons.IH) (use Cons.prems Cons in \<open>simp_all add: cb1_def\<close>)
    with call show ?thesis by auto
  qed
qed

lemma time_since_le: "now \<le> t + d \<Longrightarrow> 0 \<le> d \<Longrightarrow> time_since now t \<le> d"
  by (simp add: time_since_def)

text \<open>Operations that leave an open breaker open: nothing that waits out the timeout, no reset.\<close>

fun within_timeout :: "int \<Rightarrow> int \<Rightarrow> cb_op \<Rightarrow> bool" where
  "within_timeout t d (OpAllow now) \<longleftrightarrow> t \<le> now \<and> now \<le> t + d"
| "within_timeout t d OpSuccess \<longleftrightarrow> True"
| "within_timeout t d (OpFailure now) \<longleftrightarrow> t \<le> now \<and> now \<le> t + d"
| "within_timeout t d OpReset \<longleftrightarrow> False"

lemma cb_step_open:
  assumes "state cb = StateOpen" "t \<le> lastFailTime cb" "lastFailTime cb \<le> t + Timeout (config cb)"
    and "within_timeout t (Timeout (config cb)) e" "0 \<le> Timeout (config cb)"
  shows "state (cb_step e cb) = StateOpen \<and> t \<le> lastFailTime (cb_step e cb) \<and>
    lastFailTime (cb_step e cb) \<le> t + Timeout (config cb)"
  using assms by (cases e) (auto simp: cb_defs time_since_def Let_def)

lemma cb_run_open:
  assumes "state cb = StateOpen" "t \<le> lastFailTime cb" "lastFailTime cb \<le> t + Timeout (config cb)"
    and "list_all (within_timeout t (Timeout (config cb))) es" "0 \<le> Timeout (config cb)"
  shows "state (fold cb_step es cb) = StateOpen \<and> t \<le> lastFailTime (fold cb_step es cb) \<and>
    lastFailTime (fold cb_step es cb) \<le> t + Timeout (config cb)"
  using assms
proof (induction es arbitrary: cb)
  case Nil
  then show ?case by simp
next
  case (Cons e es)
  with cb_step_open [of cb t e] Cons.IH [of "cb_step e cb"] show ?case by simp
qed

section \<open>Properties\<close>


definition tripped :: CircuitBreaker where
  "tripped = fold RecordFailure [1, 2, 3, 4, 5] (NewCircuitBreaker emptyConfig)"

lemma tripped_eq:
  "tripped = (NewCircuitBreaker emptyConfig)\<lparr>state := StateOpen, failures := 5, requests := 5,
     lastFailTime := 5\<rparr>"
  by (simp add: tripped_def NewCircuitBreaker_def RecordFailure_def emptyConfig_def Let_def)


text \<open>
  With the default configuration two successful calls after the timeout exhaust an opened
  breaker: every later \<open>Call\<close> is refused without running its body or changing anything, at any
  later time. Only \<open>Reset\<close> or a failure still in flight gets it out.
\<close>

theorem breaker_default_deadlock:
  assumes "state cb = StateOpen" "config cb = config (NewCircuitBreaker emptyConfig)"
    and "time_since (clk w) (lastFailTime cb) > Timeout (config cb)"
    and "f w = (None, w1)" "g w1 = (None, w2)"
  shows "\<exists>cb'. run_calls clk (f # g # fns) cb w =
      (None # None # replicate (length fns) (Some ErrCircuitOpen), cb', w2) \<and>
    state cb' = StateHalfOpen"
proof -
  define cb2 where "cb2 = cb\<lparr>state := StateHalfOpen, halfOpenReqs := 1, successes := 2\<rparr>"
  have "run_calls clk (f # g # fns) cb w =
      (case run_calls clk fns cb2 w2 of (rs, c, w3) \<Rightarrow> (None # None # rs, c, w3))"
    using assms by (simp add: Call_def cb_defs Let_def cb2_def NewCircuitBreaker_def emptyConfig_def
        split: prod.splits)
  moreover have "run_calls clk fns cb2 w2 =
      (replicate (length fns) (Some ErrCircuitOpen), cb2, w2)"
    using assms by (intro run_calls_exhausted)
      (simp_all add: cb2_def NewCircuitBreaker_def emptyConfig_def Let_def)
  ultimately show ?thesis by (simp add: cb2_def)
qed

theorem breaker_default_deadlock_witness:
  "\<exists>cb'. run_calls id [\<lambda>w. (None, w + 1), \<lambda>w. (None, w + 1), \<lambda>w. (None, w + 3600 * second)]
      tripped (60 * second) = ([None, None, Some ErrCircuitOpen], cb', 60 * second + 1 + 1) \<and>
    state cb' = StateHalfOpen"
  using breaker_default_deadlock [of tripped id "60 * second" "\<lambda>w. (None, w + 1)" "60 * second + 1"
      "\<lambda>w. (None, w + 1)" "60 * second + 1 + 1" "[\<lambda>w. (None, w + 3600 * second)]"]
  by (simp add: tripped_eq NewCircuitBreaker_def emptyConfig_def Let_def time_since_def second_def)

text \<open>
  C21: If the half-open state admits enough trials (\<open>SuccessThreshold \<le> MaxHalfOpenReqs + 1\<close>), a
  breaker that waited out its timeout closes after exactly \<open>SuccessThreshold\<close> successful calls,
  all of which are admitted.
\<close>

theorem breaker_recovers:
  assumes "state cb = StateOpen" "time_since (clk w) (lastFailTime cb) > Timeout (config cb)"
    and "0 < SuccessThreshold (config cb)"
    and "SuccessThreshold (config cb) \<le> MaxHalfOpenReqs (config cb) + 1"
    and "int (length fns) = SuccessThreshold (config cb)"
    and "list_all (\<lambda>fn. \<forall>w. fst (fn w) = None) fns"
  shows "\<exists>cb' w'. run_calls clk fns cb w = (replicate (length fns) None, cb', w') \<and>
    state cb' = StateClosed"
proof -
  obtain fn fs where fns: "fns = fn # fs" using assms(3,5) by (cases fns) auto
  with assms(6) have "fst (fn w) = None" by simp
  then obtain w1 where fn: "fn w = (None, w1)" by (cases "fn w") auto
  define cb1 where "cb1 = cb\<lparr>state := StateHalfOpen, halfOpenReqs := 0, successes := 1\<rparr>"
  show ?thesis
  proof (cases "fs = []")
    case True
    with fns fn assms show ?thesis by (simp add: Call_def cb_defs Let_def)
  next
    case False
    then have call: "Call clk fn cb w = (None, cb1, w1)"
      using fns fn assms by (cases fs) (auto simp: Call_def cb_defs Let_def cb1_def)
    have "\<exists>cb' w'. run_calls clk fs cb1 w1 = (replicate (length fs) None, cb', w') \<and>
        state cb' = StateClosed"
      by (rule run_calls_succeed) (use assms fns False in \<open>simp_all add: cb1_def\<close>)
    with call fns show ?thesis by auto
  qed
qed

theorem breaker_recovers_witness:
  "\<exists>cb' w'. run_calls id [\<lambda>w. (None, w), \<lambda>w. (None, w)]
      (tripped\<lparr>config := (config tripped)\<lparr>SuccessThreshold := 2\<rparr>\<rparr>) (60 * second) =
      (replicate (length [\<lambda>w :: int. (None :: err option, w), \<lambda>w. (None, w)]) None, cb', w') \<and>
    state cb' = StateClosed"
  by (rule breaker_recovers)
    (simp_all add: tripped_eq NewCircuitBreaker_def emptyConfig_def Let_def time_since_def second_def)

text \<open>
  Whatever methods are called, in any order and at any times, a closed breaker's failure and
  request counters are equal and under the threshold, and a half-open breaker's trial and
  success counters are within their limits.
\<close>

theorem breaker_counters:
  defines "run ops c \<equiv> fold cb_step ops (NewCircuitBreaker c)"
  shows "cb_inv (run ops c) \<and> config (run ops c) = config (NewCircuitBreaker c)"
  unfolding run_def by (simp add: breaker.run_inv NewCircuitBreaker_inv)

text \<open>
  \<open>FailureRate\<close> has no effect: two breakers whose configurations differ only there go
  through the same states under the same methods, and \<open>Allow\<close> answers the same.
\<close>

theorem breaker_rate_irrelevant:
  assumes "r \<noteq> 0" "r' \<noteq> 0"
  shows "let cb = fold cb_step ops (NewCircuitBreaker (c\<lparr>FailureRate := r\<rparr>));
             cb' = fold cb_step ops (NewCircuitBreaker (c\<lparr>FailureRate := r'\<rparr>))
         in Stats cb = Stats cb' \<and> lastFailTime cb = lastFailTime cb' \<and>
            fst (Allow now cb) = fst (Allow now cb')"
proof -
  have new: "NewCircuitBreaker (c\<lparr>FailureRate := r'\<rparr>) =
      set_rate r' (NewCircuitBreaker (c\<lparr>FailureRate := r\<rparr>))"
    using assms by (simp add: NewCircuitBreaker_def set_rate_def Let_def)
  show ?thesis
    unfolding new cb_run_set_rate [OF NewCircuitBreaker_inv]
    by (simp add: Let_def set_rate_def Stats_def Allow_def split: State.splits)
qed

theorem breaker_rate_irrelevant_witness:
  "let cb = fold cb_step [OpFailure 1, OpFailure 2, OpFailure 3]
         (NewCircuitBreaker (emptyConfig\<lparr>FailureRate := 1 / 100\<rparr>));
       cb' = fold cb_step [OpFailure 1, OpFailure 2, OpFailure 3]
         (NewCircuitBreaker (emptyConfig\<lparr>FailureRate := 1\<rparr>))
   in Stats cb = Stats cb' \<and> lastFailTime cb = lastFailTime cb' \<and>
      fst (Allow 4 cb) = fst (Allow 4 cb')"
  by (rule breaker_rate_irrelevant) simp_all

text \<open>
  A closed breaker opens at the failure that reaches \<open>FailureThreshold\<close> in a row and not
  before.
\<close>

theorem breaker_trips_at_threshold:
  assumes "state cb = StateClosed" "failures cb = 0" "requests cb = 0"
    and "0 < FailureThreshold (config cb)"
  shows "state (fold RecordFailure ts cb) =
    (if int (length ts) < FailureThreshold (config cb) then StateClosed else StateOpen)"
  using fold_RecordFailure [of cb ts] assms by (auto simp: Let_def)

theorem breaker_trips_at_threshold_witness:
  "state (fold RecordFailure [1, 2, 3, 4, 5] (RecordSuccess (NewCircuitBreaker emptyConfig))) =
    (if int (length [1, 2, 3, 4, 5 :: int]) <
        FailureThreshold (config (RecordSuccess (NewCircuitBreaker emptyConfig)))
     then StateClosed else StateOpen)"
  by (rule breaker_trips_at_threshold)
    (simp_all add: NewCircuitBreaker_def RecordSuccess_def emptyConfig_def Let_def)

text \<open>
  An open breaker refuses every request until its timeout has passed since it opened,
  whatever is recorded meanwhile: late successes and failures of requests already in flight
  cannot close it or let a request through.
\<close>

theorem breaker_open_refuses:
  assumes "state cb = StateOpen" "0 \<le> Timeout (config cb)"
    and "list_all (within_timeout (lastFailTime cb) (Timeout (config cb))) ops"
    and "lastFailTime cb \<le> now" "now \<le> lastFailTime cb + Timeout (config cb)"
  shows "Allow now (fold cb_step ops cb) = (False, fold cb_step ops cb)"
  using cb_run_open [of cb "lastFailTime cb" ops] assms
    time_since_le [of now "lastFailTime (fold cb_step ops cb)" "Timeout (config cb)"]
  by (simp add: Allow_def)

theorem breaker_open_refuses_witness:
  "Allow 9 (fold cb_step [OpSuccess, OpFailure 7, OpAllow 8] tripped) =
    (False, fold cb_step [OpSuccess, OpFailure 7, OpAllow 8] tripped)"
  by (rule breaker_open_refuses)
    (simp_all add: tripped_eq NewCircuitBreaker_def emptyConfig_def Let_def second_def)

end
