(* ===== verification/EmptyValueCache.thy ===== *)
theory EmptyValueCache
  imports PostModel
begin

text \<open>
  The negative cache of posts known not to exist
  (\<open>post/internal/repository/empty_value_cache.go\<close>): a process-local map with expiry times in
  front of marker entries in Redis. The clock is \<open>clk\<close>, nanoseconds, read from the world at
  the moment of the call.
\<close>

section \<open>The process-local map\<close>

definition nanosPerSecond :: int where
  "nanosPerSecond = 1000000000"

record emptyCacheEntry =
  entry_value :: bool
  entry_expiresAt :: int

record syncMapCache =
  smc_data :: "string \<rightharpoonup> emptyCacheEntry"

definition NewSyncMapCache :: syncMapCache where
  "NewSyncMapCache = \<lparr>smc_data = Map.empty\<rparr>"

definition smc_Set :: "string \<Rightarrow> bool \<Rightarrow> int \<Rightarrow> int \<Rightarrow> syncMapCache \<Rightarrow> syncMapCache" where
  "smc_Set key value ttl now c =
     c\<lparr>smc_data := (smc_data c)(key \<mapsto> \<lparr>entry_value = value, entry_expiresAt = now + ttl\<rparr>)\<rparr>"

definition smc_Get :: "string \<Rightarrow> int \<Rightarrow> syncMapCache \<Rightarrow> bool \<times> bool" where
  "smc_Get key now c =
     (case smc_data c key of
        None \<Rightarrow> (False, False)
      | Some entry \<Rightarrow> (if now > entry_expiresAt entry then (False, False) else (entry_value entry, True)))"

definition smc_Delete :: "string \<Rightarrow> syncMapCache \<Rightarrow> syncMapCache" where
  "smc_Delete key c = c\<lparr>smc_data := (smc_data c)(key := None)\<rparr>"

section \<open>The contract of a map with expiry times\<close>

text \<open>
  What the negative cache needs of its local map, and what follows for a sequence of updates:
  an entry is held until its deadline as long as no update touches its key.
\<close>

locale ttl_cache =
  fixes lookup :: "'k \<Rightarrow> int \<Rightarrow> 'c \<Rightarrow> 'v option"
    and put :: "'k \<Rightarrow> 'v \<Rightarrow> int \<Rightarrow> int \<Rightarrow> 'c \<Rightarrow> 'c"
    and del :: "'k \<Rightarrow> 'c \<Rightarrow> 'c"
  assumes lookup_put: "now \<le> t + ttl \<Longrightarrow> lookup k now (put k v ttl t c) = Some v"
    and lookup_expired: "t + ttl < now \<Longrightarrow> lookup k now (put k v ttl t c) = None"
    and lookup_put_other: "j \<noteq> k \<Longrightarrow> lookup k now (put j v ttl t c) = lookup k now c"
    and lookup_del: "lookup k now (del k c) = None"
    and lookup_del_other: "j \<noteq> k \<Longrightarrow> lookup k now (del j c) = lookup k now c"
    and lookup_earlier: "lookup k now c = Some v \<Longrightarrow> now' \<le> now \<Longrightarrow> lookup k now' c = Some v"
begin

definition held :: "'k \<Rightarrow> 'v \<Rightarrow> int \<Rightarrow> 'c \<Rightarrow> bool" where
  "held k v deadline c \<longleftrightarrow> lookup k deadline c = Some v"

lemma held_lookup: "held k v d c \<Longrightarrow> now \<le> d \<Longrightarrow> lookup k now c = Some v"
  unfolding held_def by (rule lookup_earlier)

lemma held_put: "d \<le> t + ttl \<Longrightarrow> held k v d (put k v ttl t c)"
  unfolding held_def by (rule lookup_put)

lemma held_put_other: "j \<noteq> k \<Longrightarrow> held k v d (put j v' ttl t c) = held k v d c"
  unfolding held_def by (simp add: lookup_put_other)

lemma held_del_other: "j \<noteq> k \<Longrightarrow> held k v d (del j c) = held k v d c"
  unfolding held_def by (simp add: lookup_del_other)

lemma held_put_longer: "held k v d c \<Longrightarrow> j = k \<longrightarrow> v' = v \<and> d \<le> t + ttl \<Longrightarrow> held k v d (put j v' ttl t c)"
  by (cases "j = k") (auto simp: held_put held_put_other)

end

definition smc_lookup :: "string \<Rightarrow> int \<Rightarrow> syncMapCache \<Rightarrow> bool option" where
  "smc_lookup key now c = (let (value, found) = smc_Get key now c in if found then Some value else None)"

interpretation smc: ttl_cache smc_lookup smc_Set smc_Delete
  by unfold_locales
    (auto simp: smc_lookup_def smc_Get_def smc_Set_def smc_Delete_def split: option.splits if_splits)

section \<open>The negative cache\<close>

definition EmptyValueMarker :: string where "EmptyValueMarker = ''NULL''"
definition EmptyValuePrefix :: string where "EmptyValuePrefix = ''post:empty:''"
definition EmptyValueDefaultTTL :: int where "EmptyValueDefaultTTL = 60"

record 'w EmptyValueCache =
  evc_redis :: "'w redis option"
  evc_defaultTTL :: int
  evc_localCache :: syncMapCache

definition NewEmptyValueCache :: "'w redis option \<Rightarrow> int \<Rightarrow> 'w EmptyValueCache" where
  "NewEmptyValueCache r ttl =
     \<lparr>evc_redis = r, evc_defaultTTL = (if ttl \<le> 0 then EmptyValueDefaultTTL else ttl),
      evc_localCache = NewSyncMapCache\<rparr>"

definition getEmptyKey :: "int \<Rightarrow> string" where
  "getEmptyKey postID = EmptyValuePrefix @ show_int postID"

text \<open>\<open>time.Duration(ttl) * time.Second\<close> wraps at 64 bits.\<close>

definition seconds :: "int \<Rightarrow> int" where
  "seconds ttl = i64 (ttl * nanosPerSecond)"

definition local_Set :: "('w \<Rightarrow> int) \<Rightarrow> string \<Rightarrow> int \<Rightarrow> 'w \<Rightarrow> 'w EmptyValueCache \<Rightarrow> 'w EmptyValueCache" where
  "local_Set clk key ttl w c =
     c\<lparr>evc_localCache := smc_Set key True (seconds ttl) (clk w) (evc_localCache c)\<rparr>"

text \<open>The variadic \<open>ttl ...int\<close> is a list.\<close>

definition CacheEmpty ::
  "('w \<Rightarrow> int) \<Rightarrow> int \<Rightarrow> int list \<Rightarrow> 'w EmptyValueCache \<Rightarrow> 'w \<Rightarrow> unit res \<times> 'w EmptyValueCache \<times> 'w" where
  "CacheEmpty clk postID ttl c w =
     (let cacheTTL = (if ttl \<noteq> [] \<and> hd ttl > 0 then hd ttl else evc_defaultTTL c);
          key = getEmptyKey postID;
          c' = local_Set clk key cacheTTL w c
      in case evc_redis c of
           None \<Rightarrow> (Inr (), c', w)
         | Some R \<Rightarrow>
             (case redisSetex R key EmptyValueMarker cacheTTL w of
                (Inl err, w') \<Rightarrow> (Inl (Wrap ''cache empty value to redis failed'' err), c', w')
              | (Inr _, w') \<Rightarrow> (Inr (), c', w')))"

definition IsEmptyCached ::
  "('w \<Rightarrow> int) \<Rightarrow> int \<Rightarrow> 'w EmptyValueCache \<Rightarrow> 'w \<Rightarrow> bool \<times> 'w EmptyValueCache \<times> 'w" where
  "IsEmptyCached clk postID c w =
     (let key = getEmptyKey postID; (value, found) = smc_Get key (clk w) (evc_localCache c)
      in if found \<and> value then (True, c, w)
         else case evc_redis c of
           None \<Rightarrow> (False, c, w)
         | Some R \<Rightarrow>
             (case redisGet R key w of
                (Inl err, w') \<Rightarrow> (False, c, w')
              | (Inr val, w') \<Rightarrow>
                  (if val = EmptyValueMarker then (True, local_Set clk key (evc_defaultTTL c) w' c, w')
                   else (False, c, w'))))"

definition RemoveEmptyCache ::
  "int \<Rightarrow> 'w EmptyValueCache \<Rightarrow> 'w \<Rightarrow> unit res \<times> 'w EmptyValueCache \<times> 'w" where
  "RemoveEmptyCache postID c w =
     (let key = getEmptyKey postID;
          c' = c\<lparr>evc_localCache := smc_Delete key (evc_localCache c)\<rparr>
      in case evc_redis c of
           None \<Rightarrow> (Inr (), c', w)
         | Some R \<Rightarrow>
             (case redisDel R [key] w of
                (Inl err, w') \<Rightarrow> (Inl (Wrap ''remove empty value cache from redis failed'' err), c', w')
              | (Inr _, w') \<Rightarrow> (Inr (), c', w')))"

definition CachePostNotFound ::
  "('w \<Rightarrow> int) \<Rightarrow> int \<Rightarrow> 'w EmptyValueCache \<Rightarrow> 'w \<Rightarrow> unit res \<times> 'w EmptyValueCache \<times> 'w" where
  "CachePostNotFound clk postID = CacheEmpty clk postID []"

definition ClearAllEmptyCache ::
  "'w EmptyValueCache \<Rightarrow> 'w \<Rightarrow> unit res \<times> 'w EmptyValueCache \<times> 'w" where
  "ClearAllEmptyCache c w =
     (let c' = c\<lparr>evc_localCache := NewSyncMapCache\<rparr>
      in case evc_redis c of
           None \<Rightarrow> (Inr (), c', w)
         | Some R \<Rightarrow>
             (case redisKeys R (EmptyValuePrefix @ ''*'') w of
                (Inl err, w') \<Rightarrow> (Inl err, c', w')
              | (Inr keys, w') \<Rightarrow>
                  (if length keys > 0 then
                     (case redisDel R keys w' of
                        (Inl err, w'') \<Rightarrow> (Inl err, c', w'')
                      | (Inr _, w'') \<Rightarrow> (Inr (), c', w''))
                   else (Inr (), c', w'))))"

subsection \<open>The generic read-through\<close>

text \<open>
  Values are \<open>interface{}\<close>: nil, the raw string Redis returned, or a value of the caller's
  type. The codec of the wrapper is an argument. \<open>fetchFn\<close> returns \<open>None\<close> for a nil value.
\<close>

record 'v CacheableValue =
  cv_Value :: "'v option"
  cv_IsEmpty :: bool
  cv_ExpiresAt :: int

datatype 'v iface = Nil_iface | Str_iface string | Val_iface 'v

definition to_iface :: "'v option \<Rightarrow> 'v iface" where
  "to_iface v = (case v of None \<Rightarrow> Nil_iface | Some x \<Rightarrow> Val_iface x)"

definition extractPostIDFromKey :: "string \<Rightarrow> int" where
  "extractPostIDFromKey key = (case sscanf_int ''post:detail:'' key of Inl _ \<Rightarrow> 0 | Inr i \<Rightarrow> i)"

definition GetWithEmptyCheck ::
  "('w \<Rightarrow> int) \<Rightarrow> ('v CacheableValue \<Rightarrow> string res) \<Rightarrow> (string \<Rightarrow> 'v CacheableValue res) \<Rightarrow>
   string \<Rightarrow> ('w \<Rightarrow> 'v option res \<times> 'w) \<Rightarrow> int \<Rightarrow> 'w EmptyValueCache \<Rightarrow> 'w \<Rightarrow>
   'v iface res \<times> 'w EmptyValueCache \<times> 'w" where
  "GetWithEmptyCheck clk marshalCV unmarshalCV key fetchFn ttl c w =
     (case evc_redis c of
        None \<Rightarrow> (case fetchFn w of
                   (Inl e, w') \<Rightarrow> (Inl e, c, w')
                 | (Inr v, w') \<Rightarrow> (Inr (to_iface v), c, w'))
      | Some R \<Rightarrow>
          (case redisGet R key w of
             (Inr val, w') \<Rightarrow>
               (if val = EmptyValueMarker then (Inr Nil_iface, c, w')
                else (case unmarshalCV val of
                        Inr result \<Rightarrow>
                          (if cv_IsEmpty result then (Inr Nil_iface, c, w')
                           else (Inr (to_iface (cv_Value result)), c, w'))
                      | Inl _ \<Rightarrow> (Inr (Str_iface val), c, w')))
           | (Inl _, w') \<Rightarrow>
               (case fetchFn w' of
                  (Inl e, w'') \<Rightarrow> (Inl e, c, w'')
                | (Inr None, w'') \<Rightarrow>
                    (case CacheEmpty clk (extractPostIDFromKey key) [ttl] c w'' of
                       (Inl e, c', w3) \<Rightarrow> (Inl e, c', w3)
                     | (Inr _, c', w3) \<Rightarrow> (Inr Nil_iface, c', w3))
                | (Inr (Some v), w'') \<Rightarrow>
                    (let data = (case marshalCV \<lparr>cv_Value = Some v, cv_IsEmpty = False, cv_ExpiresAt = 0\<rparr> of
                                   Inl _ \<Rightarrow> [] | Inr d \<Rightarrow> d)
                     in (Inr (Val_iface v), c, snd (redisSetex R key data ttl w''))))))"

section \<open>Runs\<close>

interpretation empty_key: key_scheme getEmptyKey
  by unfold_locales (simp add: getEmptyKey_def)

text \<open>
  Calls by any number of requests, in any order; \<open>EPass\<close> is whatever happens outside, the passing
  of time included.
\<close>

datatype ('v, 'w) evc_op =
    ECache int "int list"
  | ECheck int
  | ERemove int
  | EClear
  | EFetch string "'w \<Rightarrow> 'v option res \<times> 'w" int
  | EPass 'w

fun evc_step ::
  "('w \<Rightarrow> int) \<Rightarrow> ('v CacheableValue \<Rightarrow> string res) \<Rightarrow> (string \<Rightarrow> 'v CacheableValue res) \<Rightarrow>
   ('v, 'w) evc_op \<Rightarrow> 'w EmptyValueCache \<times> 'w \<Rightarrow> 'w EmptyValueCache \<times> 'w" where
  "evc_step clk m u (ECache i ttl) (c, w) = snd (CacheEmpty clk i ttl c w)"
| "evc_step clk m u (ECheck i) (c, w) = snd (IsEmptyCached clk i c w)"
| "evc_step clk m u (ERemove i) (c, w) = snd (RemoveEmptyCache i c w)"
| "evc_step clk m u EClear (c, w) = snd (ClearAllEmptyCache c w)"
| "evc_step clk m u (EFetch key f ttl) (c, w) = snd (GetWithEmptyCheck clk m u key f ttl c w)"
| "evc_step clk m u (EPass w') (c, w) = (c, w')"

fun evc_trace where
  "evc_trace clk m u [] s = [s]"
| "evc_trace clk m u (x # xs) s = s # evc_trace clk m u xs (evc_step clk m u x s)"

text \<open>Operations that do not write the entry of \<open>i\<close> on purpose.\<close>

fun leaves_entry :: "int \<Rightarrow> ('v, 'w) evc_op \<Rightarrow> bool" where
  "leaves_entry i (ECache j _) \<longleftrightarrow> j \<noteq> i"
| "leaves_entry i (ERemove j) \<longleftrightarrow> j \<noteq> i"
| "leaves_entry i EClear \<longleftrightarrow> False"
| "leaves_entry i (EFetch key _ _) \<longleftrightarrow> extractPostIDFromKey key \<noteq> i"
| "leaves_entry i _ \<longleftrightarrow> True"

abbreviation neg_held :: "int \<Rightarrow> int \<Rightarrow> 'w EmptyValueCache \<Rightarrow> bool" where
  "neg_held i d c \<equiv> smc.held (getEmptyKey i) True d (evc_localCache c)"

lemma smc_lookup_SomeD: "smc_lookup k now c = Some v \<Longrightarrow> smc_Get k now c = (v, True)"
  by (auto simp: smc_lookup_def split: prod.splits if_splits)

lemma IsEmptyCached_hit:
  assumes "neg_held i d c" "clk w \<le> d"
  shows "IsEmptyCached clk i c w = (True, c, w)"
  using smc_lookup_SomeD [OF smc.held_lookup [OF assms]]
  by (simp add: IsEmptyCached_def Let_def)

lemma CacheEmpty_localCache:
  "evc_localCache (fst (snd (CacheEmpty clk i ttl c w))) =
   smc_Set (getEmptyKey i) True (seconds (if ttl \<noteq> [] \<and> hd ttl > 0 then hd ttl else evc_defaultTTL c))
     (clk w) (evc_localCache c)"
  by (auto simp: CacheEmpty_def local_Set_def Let_def split: res_splits)

lemma CacheEmpty_held: "i \<noteq> j \<Longrightarrow> neg_held i d (fst (snd (CacheEmpty clk j ttl c w))) = neg_held i d c"
  by (simp add: CacheEmpty_localCache smc.held_put_other empty_key.key_eq_iff)

lemma RemoveEmptyCache_localCache:
  "evc_localCache (fst (snd (RemoveEmptyCache i c w))) = smc_Delete (getEmptyKey i) (evc_localCache c)"
  by (auto simp: RemoveEmptyCache_def Let_def split: res_splits)

lemma RemoveEmptyCache_held: "i \<noteq> j \<Longrightarrow> neg_held i d (fst (snd (RemoveEmptyCache j c w))) = neg_held i d c"
  by (simp add: RemoveEmptyCache_localCache smc.held_del_other empty_key.key_eq_iff)

lemma IsEmptyCached_localCache:
  "evc_localCache (fst (snd (IsEmptyCached clk i c w))) = evc_localCache c \<or>
   (\<exists>w' ttl. evc_localCache (fst (snd (IsEmptyCached clk i c w))) =
     smc_Set (getEmptyKey i) True ttl (clk w') (evc_localCache c))"
  by (auto simp: IsEmptyCached_def local_Set_def Let_def split: res_splits)

lemma IsEmptyCached_held:
  assumes "neg_held i d c" "clk w \<le> d"
  shows "neg_held i d (fst (snd (IsEmptyCached clk j c w)))"
proof (cases "j = i")
  case True
  with IsEmptyCached_hit [of i d c clk w] assms show ?thesis by simp
next
  case False
  with IsEmptyCached_localCache [of clk j c w] assms(1) show ?thesis
    by (auto simp: smc.held_put_other empty_key.key_eq_iff)
qed

lemma GetWithEmptyCheck_held:
  assumes "extractPostIDFromKey key \<noteq> i"
  shows "neg_held i d (fst (snd (GetWithEmptyCheck clk m u key f ttl c w))) = neg_held i d c"
proof -
  have "fst (snd (GetWithEmptyCheck clk m u key f ttl c w)) = c \<or>
    (\<exists>w''. fst (snd (GetWithEmptyCheck clk m u key f ttl c w)) =
       fst (snd (CacheEmpty clk (extractPostIDFromKey key) [ttl] c w'')))"
    by (auto simp: GetWithEmptyCheck_def Let_def split: res_splits) (metis fst_conv snd_conv)+
  then show ?thesis using CacheEmpty_held assms by metis
qed

lemma evc_step_held:
  assumes "leaves_entry i x" "neg_held i d (fst s)" "clk (snd s) \<le> d"
  shows "neg_held i d (fst (evc_step clk m u x s))"
  using assms by (cases s; cases x)
    (auto simp: CacheEmpty_held RemoveEmptyCache_held IsEmptyCached_held GetWithEmptyCheck_held)

lemma evc_trace_held:
  assumes "list_all (leaves_entry i) xs" "neg_held i d (fst s)"
    and "list_all (\<lambda>s. clk (snd s) \<le> d) (evc_trace clk m u xs s)"
  shows "neg_held i d (fst (List.last (evc_trace clk m u xs s))) \<and>
         clk (snd (List.last (evc_trace clk m u xs s))) \<le> d"
  using assms
proof (induction xs arbitrary: s)
  case (Cons x xs)
  have ne: "evc_trace clk m u xs t \<noteq> []" for t by (cases xs) auto
  from Cons.prems have "neg_held i d (fst (evc_step clk m u x s))"
    by (intro evc_step_held) auto
  with Cons ne show ?case by simp
qed simp

text \<open>
  C28: A post cached as non-existent for \<open>ttl\<close> seconds is reported non-existent at every moment of
  those seconds, whatever other requests cache, check, remove or fetch in between and however Redis
  fails, unless this post's own entry is rewritten; the check itself changes nothing.
\<close>

theorem negative_entry_lasts:
  assumes "s = snd (CacheEmpty clk postID [ttl] c w)" "ttl > 0"
    and "list_all (leaves_entry postID) ops"
    and "list_all (\<lambda>s. clk (snd s) \<le> clk w + seconds ttl) (evc_trace clk m u ops s)"
    and "List.last (evc_trace clk m u ops s) = (c', w')"
  shows "IsEmptyCached clk postID c' w' = (True, c', w')"
proof -
  have "neg_held postID (clk w + seconds ttl) (fst s)"
    using assms(1,2) by (simp add: CacheEmpty_localCache smc.held_put)
  from evc_trace_held [OF assms(3) this assms(4)] assms(5)
  show ?thesis by (auto intro: IsEmptyCached_hit)
qed

theorem negative_entry_lasts_witness:
  "IsEmptyCached dw_now 7
     (fst (snd (CacheEmpty dw_now 7 [5] (NewEmptyValueCache (Some down_redis) 60) \<lparr>dw_now = 100, dw_kv = Map.empty\<rparr>)))
     \<lparr>dw_now = 5000000100, dw_kv = Map.empty\<rparr> =
   (True,
     fst (snd (CacheEmpty dw_now 7 [5] (NewEmptyValueCache (Some down_redis) 60) \<lparr>dw_now = 100, dw_kv = Map.empty\<rparr>)),
     \<lparr>dw_now = 5000000100, dw_kv = Map.empty\<rparr>)"
proof -
  let ?w = "\<lparr>dw_now = 100, dw_kv = Map.empty\<rparr>"
  let ?c = "NewEmptyValueCache (Some down_redis) 60"
  let ?s = "snd (CacheEmpty dw_now 7 [5] ?c ?w)"
  let ?ops = "[EPass \<lparr>dw_now = 5000000100, dw_kv = Map.empty\<rparr>] :: (unit, demo_world) evc_op list"
  have s: "?s = (fst ?s, ?w)"
    by (auto simp: CacheEmpty_def down_redis_def down_def local_Set_def Let_def NewEmptyValueCache_def)
  have ttl: "seconds 5 = 5000000000"
    by (simp add: seconds_def nanosPerSecond_def is_int64_def)
  let ?m = "\<lambda>_. Inl ErrStrconv" and ?u = "\<lambda>_. Inl ErrStrconv"
  have tr: "evc_trace dw_now ?m ?u ?ops ?s = [?s, (fst ?s, \<lparr>dw_now = 5000000100, dw_kv = Map.empty\<rparr>)]"
    using s by (metis evc_step.simps(6) evc_trace.simps(1,2))
  show ?thesis
    by (rule negative_entry_lasts [of ?s dw_now 7 5 ?c ?w ?ops ?m ?u])
      (use tr s ttl in \<open>simp_all add: prod_eq_iff\<close>)
qed

section \<open>The marker in Redis\<close>

text \<open>
  With a working Redis, a post cached as non-existent by one process is known as non-existent to
  every other process on the same Redis, a fresh one included, and once any process removes the
  entry the others, except for what their local maps still hold, and the removing process itself
  report it as possibly existing.
\<close>

theorem negative_entry_shared:
  assumes "redis_strings R kv"
    and "CacheEmpty clk postID ttl (NewEmptyValueCache (Some R) t1) w = (r, c1, w1)"
    and "RemoveEmptyCache postID (NewEmptyValueCache (Some R) t2) w1 = (r', c2, w2)"
  shows "r = Inr () \<and> r' = Inr ()
    \<and> fst (IsEmptyCached clk postID (NewEmptyValueCache (Some R) t) w1)
    \<and> \<not> fst (IsEmptyCached clk postID (NewEmptyValueCache (Some R) t) w2)
    \<and> \<not> fst (IsEmptyCached clk postID c2 w2)"
proof -
  let ?k = "getEmptyKey postID"
  from assms(1) have get: "redisGet R k w = (Inr (case kv w k of None \<Rightarrow> [] | Some v \<Rightarrow> v), w)" for k w
    by (simp add: redis_strings_def)
  let ?t = "if ttl \<noteq> [] \<and> hd ttl > 0 then hd ttl else evc_defaultTTL (NewEmptyValueCache (Some R) t1)"
  obtain w1' where set: "redisSetex R ?k EmptyValueMarker ?t w = (Inr (), w1')"
      "kv w1' = (kv w)(?k \<mapsto> EmptyValueMarker)"
    using assms(1) unfolding redis_strings_def by blast
  obtain n w2' where del: "redisDel R [?k] w1 = (Inr n, w2')" "kv w2' = kv w1 |` (- set [?k])"
    using assms(1) unfolding redis_strings_def by blast
  have red [simp]: "evc_redis (NewEmptyValueCache (Some R) x) = Some R"
    "smc_data (evc_localCache (NewEmptyValueCache (Some R) x)) = Map.empty" for x
    by (simp_all add: NewEmptyValueCache_def NewSyncMapCache_def)
  from assms(2) set have 1: "r = Inr ()" "w1 = w1'"
    by (auto simp: CacheEmpty_def Let_def)
  from assms(3) del have 2: "r' = Inr ()" "w2 = w2'" "evc_redis c2 = Some R"
    "smc_data (evc_localCache c2) ?k = None"
    by (auto simp: RemoveEmptyCache_def Let_def smc_Delete_def)
  have "kv w1 ?k = Some EmptyValueMarker" "kv w2 ?k = None"
    using 1 2 set del by auto
  then show ?thesis
    using 1 2 by (simp add: IsEmptyCached_def smc_Get_def get EmptyValueMarker_def)
qed

theorem negative_entry_shared_witness:
  "let s = CacheEmpty dw_now 7 [] (NewEmptyValueCache (Some map_redis) 0) \<lparr>dw_now = 0, dw_kv = Map.empty\<rparr>
   in fst (IsEmptyCached dw_now 7 (NewEmptyValueCache (Some map_redis) 60) (snd (snd s)))"
  unfolding Let_def
  by (rule negative_entry_shared [OF map_redis_strings, of dw_now 7 "[]" 0 "\<lparr>dw_now = 0, dw_kv = Map.empty\<rparr>"
        _ _ _ 60, THEN conjunct2, THEN conjunct2, THEN conjunct1])
    (simp_all add: prod_eq_iff)

text \<open>
  With a working Redis the read-through never calls its fetch function: go-zero's \<open>Get\<close> returns
  the empty string and no error for a missing key, so the function returns that string (or what it
  decodes to) as a value, for every key, present or not.
\<close>

theorem read_through_never_fetches:
  assumes "redis_strings R kv" "evc_redis c = Some R"
  shows "GetWithEmptyCheck clk m u key f ttl c w = GetWithEmptyCheck clk m u key g ttl c w
    \<and> snd (GetWithEmptyCheck clk m u key f ttl c w) = (c, w)
    \<and> (kv w key = None \<longrightarrow> (\<exists>e. u [] = Inl e) \<longrightarrow>
         fst (GetWithEmptyCheck clk m u key f ttl c w) = Inr (Str_iface []))"
proof -
  from assms have "redisGet R key w = (Inr (case kv w key of None \<Rightarrow> [] | Some v \<Rightarrow> v), w)"
    by (simp add: redis_strings_def)
  then show ?thesis
    using assms(2) by (auto simp: GetWithEmptyCheck_def EmptyValueMarker_def split: res_splits)
qed

theorem read_through_never_fetches_witness:
  "fst (GetWithEmptyCheck dw_now (\<lambda>_. Inl ErrStrconv) (\<lambda>_. Inl ErrStrconv) ''post:detail:7''
     (\<lambda>w. (Inr (Some True), w)) 60 (NewEmptyValueCache (Some map_redis) 60)
     \<lparr>dw_now = 0, dw_kv = Map.empty\<rparr>) = Inr (Str_iface [])"
  using read_through_never_fetches [OF map_redis_strings,
      of "NewEmptyValueCache (Some map_redis) 60" dw_now "\<lambda>_. Inl ErrStrconv" "\<lambda>_. Inl ErrStrconv"
        "''post:detail:7''" "\<lambda>w. (Inr (Some True), w)" 60 "\<lparr>dw_now = 0, dw_kv = Map.empty\<rparr>"]
  by (simp add: NewEmptyValueCache_def)

end
