(* ===== verification/HotPostService.thy ===== *)
theory HotPostService
  imports CircuitBreaker EmptyValueCache HotPostLocalCache
begin

text \<open>
  Hot-post ranking and the cached reads of post details
  (\<open>post/internal/repository/hot_service.go\<close>): the service owns the local cache, the negative
  cache and the circuit breaker, and guards its Redis calls with the breaker. A float64 is a
  real number here: what rounding may do to a score is outside the model.
\<close>

section \<open>State\<close>

definition CommentWeight :: real where "CommentWeight = 3"
definition ViewWeight :: real where "ViewWeight = 1 / 10"
definition DecayFactor :: real where "DecayFactor = 2 / 100"

definition HotPostsHour :: string where "HotPostsHour = ''hot_posts:hour''"
definition HotPostsDay :: string where "HotPostsDay = ''hot_posts:day''"
definition HotPostsWeek :: string where "HotPostsWeek = ''hot_posts:week''"
definition HotPostsMonth :: string where "HotPostsMonth = ''hot_posts:month''"
definition PostDetailPrefix :: string where "PostDetailPrefix = ''post:detail''"

record 'w HotPostService =
  hps_redis :: "'w redis option"
  hps_localCache :: "'w HotPostLocalCache"
  hps_emptyValueCache :: "'w EmptyValueCache"
  hps_circuitBreaker :: CircuitBreaker

record 'w HotPostServiceConfig =
  cfg_Redis :: "'w redis option"
  cfg_LocalCache :: "'w HotPostLocalCache"
  cfg_EmptyCacheTTL :: int
  cfg_CircuitBreakerConf :: CircuitBreakerConfig

definition NewHotPostService :: "'w redis option \<Rightarrow> 'w HotPostLocalCache \<Rightarrow> 'w HotPostService" where
  "NewHotPostService rds lc =
     \<lparr>hps_redis = rds, hps_localCache = lc, hps_emptyValueCache = NewEmptyValueCache rds 60,
      hps_circuitBreaker = NewCircuitBreaker emptyConfig\<rparr>"

definition NewHotPostServiceWithConfig :: "'w HotPostServiceConfig \<Rightarrow> 'w HotPostService" where
  "NewHotPostServiceWithConfig cfg =
     (let emptyCacheTTL = (if cfg_EmptyCacheTTL cfg \<le> 0 then 60 else cfg_EmptyCacheTTL cfg)
      in \<lparr>hps_redis = cfg_Redis cfg, hps_localCache = cfg_LocalCache cfg,
          hps_emptyValueCache = NewEmptyValueCache (cfg_Redis cfg) emptyCacheTTL,
          hps_circuitBreaker = NewCircuitBreaker (cfg_CircuitBreakerConf cfg)\<rparr>)"

definition GetCircuitBreaker :: "'w HotPostService \<Rightarrow> CircuitBreaker" where
  "GetCircuitBreaker s = hps_circuitBreaker s"

definition GetEmptyValueCache :: "'w HotPostService \<Rightarrow> 'w EmptyValueCache" where
  "GetEmptyValueCache s = hps_emptyValueCache s"

definition ShouldCachePost :: "'w HotPostService \<Rightarrow> int \<Rightarrow> bool" where
  "ShouldCachePost s viewCount = ShouldCache (hps_localCache s) viewCount"

definition CachePost :: "json \<Rightarrow> 'w HotPostService \<Rightarrow> Post \<Rightarrow> 'w \<Rightarrow> 'w" where
  "CachePost J s post w =
     (if ShouldCache (hps_localCache s) (post_ViewCount post)
      then LocalCache_Set J (hps_localCache s) (Some post) w else w)"

definition GetLocalCacheSize :: "'w HotPostService \<Rightarrow> 'w \<Rightarrow> int" where
  "GetLocalCacheSize s w = LocalCache_Size (hps_localCache s) w"

text \<open>The breaker's methods on the service's breaker.\<close>

definition hps_Allow :: "('w \<Rightarrow> int) \<Rightarrow> 'w HotPostService \<Rightarrow> 'w \<Rightarrow> bool \<times> 'w HotPostService" where
  "hps_Allow clk s w = (let (ok, cb) = Allow (clk w) (hps_circuitBreaker s)
     in (ok, s\<lparr>hps_circuitBreaker := cb\<rparr>))"

definition hps_Failure :: "('w \<Rightarrow> int) \<Rightarrow> 'w HotPostService \<Rightarrow> 'w \<Rightarrow> 'w HotPostService" where
  "hps_Failure clk s w = s\<lparr>hps_circuitBreaker := RecordFailure (clk w) (hps_circuitBreaker s)\<rparr>"

definition hps_Success :: "'w HotPostService \<Rightarrow> 'w HotPostService" where
  "hps_Success s = s\<lparr>hps_circuitBreaker := RecordSuccess (hps_circuitBreaker s)\<rparr>"

section \<open>Scores\<close>

definition CalculateScore :: "int \<Rightarrow> Post \<Rightarrow> real" where
  "CalculateScore now post =
     (let baseScore = real_of_int (post_CommentCount post) * CommentWeight +
                      real_of_int (post_ViewCount post) * ViewWeight;
          hours = real_of_int (time_since now (post_CreatedAt post * second)) / 3600000000000;
          decayFactor = exp (- DecayFactor * hours)
      in baseScore * decayFactor)"

text \<open>
  \<open>int64(x)\<close> truncates towards zero; a value out of range becomes the smallest integer, as the
  amd64 instruction has it (the language leaves it open).
\<close>

definition int64_of_float :: "real \<Rightarrow> int" where
  "int64_of_float x = (let t = (if x < 0 then \<lceil>x\<rceil> else \<lfloor>x\<rfloor>)
     in if is_int64 t then t else - (2 ^ 63))"

text \<open>\<open>%.2f\<close>: the nearest hundredth, ties to even, with two decimals.\<close>

definition round_half_even :: "real \<Rightarrow> int" where
  "round_half_even x = (let f = \<lfloor>x\<rfloor>; d = x - real_of_int f
     in if d < 1 / 2 then f else if d > 1 / 2 then f + 1 else if even f then f else f + 1)"

definition sprintf_f2 :: "real \<Rightarrow> string" where
  "sprintf_f2 x = (let n = nat (round_half_even (\<bar>x\<bar> * 100))
     in (if x < 0 then ''-'' else '''') @ show_nat (n div 100) @ ''.'' @
        [digit_char (n div 10 mod 10), digit_char (n mod 10)])"

definition hot_keys :: "string list" where
  "hot_keys = [HotPostsHour, HotPostsDay, HotPostsWeek, HotPostsMonth]"

fun zadd_all :: "'w redis \<Rightarrow> string list \<Rightarrow> int \<Rightarrow> string \<Rightarrow> 'w \<Rightarrow> unit res \<times> 'w" where
  "zadd_all R [] sc member w = (Inr (), w)"
| "zadd_all R (key # keys) sc member w =
     (case redisZadd R key sc member w of
        (Inl err, w') \<Rightarrow> (Inl err, w')
      | (Inr _, w') \<Rightarrow> zadd_all R keys sc member w')"

definition nil_redis :: err where
  "nil_redis = Panic ''invalid memory address or nil pointer dereference''"

definition updatePostScoreInternal ::
  "('w \<Rightarrow> int) \<Rightarrow> 'w HotPostService \<Rightarrow> Post \<Rightarrow> 'w \<Rightarrow> unit res \<times> 'w" where
  "updatePostScoreInternal clk s post w =
     (let score = CalculateScore (clk w) post; postIDStr = show_int (post_ID post)
      in case hps_redis s of
           None \<Rightarrow> (Inl nil_redis, w)
         | Some R \<Rightarrow>
             (case zadd_all R hot_keys (int64_of_float (score * 1000)) postIDStr w of
                (Inl err, w') \<Rightarrow> (Inl err, w')
              | (Inr _, w') \<Rightarrow>
                  redisSetex R (prefix_key ''post:hot:score:'' (post_ID post)) (sprintf_f2 score) 3600 w'))"

text \<open>A panic passes the failure bookkeeping by.\<close>

fun is_panic :: "err \<Rightarrow> bool" where
  "is_panic (Panic _) = True"
| "is_panic _ = False"

definition UpdatePostScore ::
  "('w \<Rightarrow> int) \<Rightarrow> 'w HotPostService \<Rightarrow> Post \<Rightarrow> 'w \<Rightarrow> unit res \<times> 'w HotPostService \<times> 'w" where
  "UpdatePostScore clk s post w =
     (case hps_Allow clk s w of
        (False, s1) \<Rightarrow> (Inl ErrCircuitBreakerOpen, s1, w)
      | (True, s1) \<Rightarrow>
          (case updatePostScoreInternal clk s1 post w of
             (Inl err, w') \<Rightarrow>
               (if is_panic err then (Inl err, s1, w') else (Inl err, hps_Failure clk s1 w', w'))
           | (Inr _, w') \<Rightarrow> (Inr (), hps_Success s1, w')))"

section \<open>Rankings\<close>

definition getTimeRangeKey :: "string \<Rightarrow> string" where
  "getTimeRangeKey timeRange =
     (if timeRange = ''hour'' then HotPostsHour
      else if timeRange = ''day'' then HotPostsDay
      else if timeRange = ''week'' then HotPostsWeek
      else if timeRange = ''month'' then HotPostsMonth
      else HotPostsWeek)"

definition GetHotPosts ::
  "('w \<Rightarrow> int) \<Rightarrow> 'w HotPostService \<Rightarrow> string \<Rightarrow> int \<Rightarrow> int \<Rightarrow> 'w \<Rightarrow>
   string list res \<times> 'w HotPostService \<times> 'w" where
  "GetHotPosts clk s timeRange page pageSize w =
     (case hps_Allow clk s w of
        (False, s1) \<Rightarrow> (Inl ErrCircuitBreakerOpen, s1, w)
      | (True, s1) \<Rightarrow>
          (let key = getTimeRangeKey timeRange;
               start = i64 (i64 (page - 1) * pageSize);
               stop = i64 (i64 (start + pageSize) - 1)
           in case hps_redis s1 of
                None \<Rightarrow> (Inl nil_redis, s1, w)
              | Some R \<Rightarrow>
                  (case redisZrevrange R key start stop w of
                     (Inl err, w') \<Rightarrow> (Inl err, hps_Failure clk s1 w', w')
                   | (Inr ids, w') \<Rightarrow> (Inr ids, hps_Success s1, w'))))"

definition retentionHours :: "string \<Rightarrow> int" where
  "retentionHours timeRange =
     (if timeRange = ''hour'' then 24
      else if timeRange = ''day'' then 72
      else if timeRange = ''week'' then 168
      else if timeRange = ''month'' then 720
      else 168)"

definition CleanupExpiredPosts :: "('w \<Rightarrow> int) \<Rightarrow> 'w HotPostService \<Rightarrow> string \<Rightarrow> 'w \<Rightarrow> unit res \<times> 'w" where
  "CleanupExpiredPosts clk s timeRange w =
     (let key = getTimeRangeKey timeRange;
          cutoffTime = (clk w - retentionHours timeRange * 3600 * second) div second
      in case hps_redis s of
           None \<Rightarrow> (Inl nil_redis, w)
         | Some R \<Rightarrow>
             (case redisZremrangebyscore R key 0 cutoffTime w of
                (Inl err, w') \<Rightarrow> (Inl err, w')
              | (Inr _, w') \<Rightarrow> (Inr (), w')))"

section \<open>Cached details\<close>

definition detail_key :: "int \<Rightarrow> string" where
  "detail_key postID = PostDetailPrefix @ '':'' @ show_int postID"

definition CachePostDetail ::
  "json \<Rightarrow> 'w HotPostService \<Rightarrow> Post \<Rightarrow> int \<Rightarrow> 'w \<Rightarrow> unit res \<times> 'w HotPostService \<times> 'w" where
  "CachePostDetail J s post ttl w =
     (let w1 = (if ShouldCache (hps_localCache s) (post_ViewCount post)
                then LocalCache_Set J (hps_localCache s) (Some post) w else w);
          (_, evc, w2) = RemoveEmptyCache (post_ID post) (hps_emptyValueCache s) w1;
          s2 = s\<lparr>hps_emptyValueCache := evc\<rparr>
      in case hps_redis s2 of
           None \<Rightarrow> (Inr (), s2, w2)
         | Some R \<Rightarrow>
             (case marshalPost J post of
                Inl err \<Rightarrow> (Inl err, s2, w2)
              | Inr data \<Rightarrow>
                  (case redisSetex R (detail_key (post_ID post)) data ttl w2 of
                     (r, w3) \<Rightarrow> (r, s2, w3))))"

text \<open>A returned \<open>nil\<close> post without an error is \<open>Inr None\<close>.\<close>

definition GetCachedPostDetail ::
  "('w \<Rightarrow> int) \<Rightarrow> json \<Rightarrow> 'w HotPostService \<Rightarrow> int \<Rightarrow> 'w \<Rightarrow>
   Post option res \<times> 'w HotPostService \<times> 'w" where
  "GetCachedPostDetail clk J s postID w =
     (case LocalCache_Get J (hps_localCache s) postID w of
        (Some post, w1) \<Rightarrow> (Inr (Some post), s, w1)
      | (None, w1) \<Rightarrow>
          (case IsEmptyCached clk postID (hps_emptyValueCache s) w1 of
             (True, evc, w2) \<Rightarrow> (Inl ErrPostNotFound, s\<lparr>hps_emptyValueCache := evc\<rparr>, w2)
           | (False, evc, w2) \<Rightarrow>
               (let s2 = s\<lparr>hps_emptyValueCache := evc\<rparr>
                in case hps_redis s2 of
                     None \<Rightarrow> (Inr None, s2, w2)
                   | Some R \<Rightarrow>
                       (case hps_Allow clk s2 w2 of
                          (False, s3) \<Rightarrow> (Inl ErrCircuitBreakerOpen, s3, w2)
                        | (True, s3) \<Rightarrow>
                            (case redisGet R (detail_key postID) w2 of
                               (Inl err, w3) \<Rightarrow> (Inl err, hps_Failure clk s3 w3, w3)
                             | (Inr data, w3) \<Rightarrow>
                                 (if data = [] then (Inr None, hps_Success s3, w3)
                                  else (case unmarshalPost J data of
                                          Inl err \<Rightarrow> (Inl err, hps_Success s3, w3)
                                        | Inr post \<Rightarrow>
                                            (Inr (Some post), hps_Success s3,
                                             (if ShouldCache (hps_localCache s3) (post_ViewCount post)
                                              then LocalCache_Set J (hps_localCache s3) (Some post) w3
                                              else w3)))))))))"

text \<open>The part of \<open>GetPostDetailWithFallback\<close> after the cache gave no post.\<close>

definition fallback_fetch ::
  "('w \<Rightarrow> int) \<Rightarrow> json \<Rightarrow> 'w HotPostService \<Rightarrow> int \<Rightarrow> (int \<Rightarrow> 'w \<Rightarrow> Post option res \<times> 'w) \<Rightarrow> 'w \<Rightarrow>
   Post option res \<times> 'w HotPostService \<times> 'w" where
  "fallback_fetch clk J s1 postID fetchFn w1 =
     (case IsEmptyCached clk postID (hps_emptyValueCache s1) w1 of
        (True, evc, w2) \<Rightarrow> (Inl ErrPostNotFound, s1\<lparr>hps_emptyValueCache := evc\<rparr>, w2)
      | (False, evc, w2) \<Rightarrow>
          (let s2 = s1\<lparr>hps_emptyValueCache := evc\<rparr>
           in case fetchFn postID w2 of
                (Inl err, w3) \<Rightarrow> (Inl err, s2, w3)
              | (Inr None, w3) \<Rightarrow>
                  (case CacheEmpty clk postID [] (hps_emptyValueCache s2) w3 of
                     (_, evc', w4) \<Rightarrow>
                       (Inl ErrPostNotFound, s2\<lparr>hps_emptyValueCache := evc'\<rparr>, w4))
              | (Inr (Some post), w3) \<Rightarrow>
                  (case CachePostDetail J s2 post 300 w3 of
                     (_, s4, w4) \<Rightarrow> (Inr (Some post), s4, w4))))"

definition GetPostDetailWithFallback ::
  "('w \<Rightarrow> int) \<Rightarrow> json \<Rightarrow> 'w HotPostService \<Rightarrow> int \<Rightarrow> (int \<Rightarrow> 'w \<Rightarrow> Post option res \<times> 'w) \<Rightarrow> 'w \<Rightarrow>
   Post option res \<times> 'w HotPostService \<times> 'w" where
  "GetPostDetailWithFallback clk J s postID fetchFn w =
     (let (r, s1, w1) = GetCachedPostDetail clk J s postID w;
          err = (case r of Inl e \<Rightarrow> Some e | Inr _ \<Rightarrow> None);
          cached = (case r of Inl _ \<Rightarrow> None | Inr p \<Rightarrow> p)
      in case err of
           Some e \<Rightarrow>
             (if \<not> errors_Is e ErrPostNotFound \<and> \<not> errors_Is e ErrCircuitBreakerOpen
              then (Inl e, s1, w1)
              else fallback_fetch clk J s1 postID fetchFn w1)
         | None \<Rightarrow>
             (case cached of
                Some p \<Rightarrow> (Inr (Some p), s1, w1)
              | None \<Rightarrow> fallback_fetch clk J s1 postID fetchFn w1))"

fun zrem_all :: "'w redis \<Rightarrow> string list \<Rightarrow> string \<Rightarrow> 'w \<Rightarrow> unit res \<times> 'w" where
  "zrem_all R [] member w = (Inr (), w)"
| "zrem_all R (key # keys) member w =
     (case redisZrem R key member w of
        (Inl err, w') \<Rightarrow> (Inl err, w')
      | (Inr _, w') \<Rightarrow> zrem_all R keys member w')"

definition RemovePostFromHot :: "'w HotPostService \<Rightarrow> int \<Rightarrow> 'w \<Rightarrow> unit res \<times> 'w" where
  "RemovePostFromHot s postID w =
     (let w1 = LocalCache_Delete (hps_localCache s) postID w
      in case hps_redis s of
           None \<Rightarrow> (Inr (), w1)
         | Some R \<Rightarrow>
             (case zrem_all R hot_keys (show_int postID) w1 of
                (Inl err, w2) \<Rightarrow> (Inl err, w2)
              | (Inr _, w2) \<Rightarrow>
                  (case redisDel R [prefix_key ''post:hot:score:'' postID] w2 of
                     (Inl err, w3) \<Rightarrow> (Inl err, w3)
                   | (Inr _, w3) \<Rightarrow> (Inr (), w3))))"

definition DeletePostCache ::
  "'w HotPostService \<Rightarrow> int \<Rightarrow> 'w \<Rightarrow> unit res \<times> 'w HotPostService \<times> 'w" where
  "DeletePostCache s postID w =
     (let w1 = LocalCache_Delete (hps_localCache s) postID w;
          (_, evc, w2) = RemoveEmptyCache postID (hps_emptyValueCache s) w1;
          s2 = s\<lparr>hps_emptyValueCache := evc\<rparr>
      in case hps_redis s2 of
           None \<Rightarrow> (Inr (), s2, w2)
         | Some R \<Rightarrow>
             (case redisDel R [detail_key postID] w2 of
                (Inl err, w3) \<Rightarrow> (Inl err, s2, w3)
              | (Inr _, w3) \<Rightarrow> (Inr (), s2, w3)))"

section \<open>Paging\<close>

text \<open>Reading the pages 1 to \<open>n\<close> of a ranking one after the other.\<close>

fun read_pages ::
  "('w \<Rightarrow> int) \<Rightarrow> string \<Rightarrow> int \<Rightarrow> nat \<Rightarrow> 'w HotPostService \<Rightarrow> 'w \<Rightarrow>
   string list res \<times> 'w HotPostService \<times> 'w" where
  "read_pages clk timeRange psize 0 s w = (Inr [], s, w)"
| "read_pages clk timeRange psize (Suc n) s w =
     (case read_pages clk timeRange psize n s w of
        (Inl e, s', w') \<Rightarrow> (Inl e, s', w')
      | (Inr xs, s', w') \<Rightarrow>
          (case GetHotPosts clk s' timeRange (int (Suc n)) psize w' of
             (Inl e, s'', w'') \<Rightarrow> (Inl e, s'', w'')
           | (Inr ys, s'', w'') \<Rightarrow> (Inr (xs @ ys), s'', w'')))"

lemma GetHotPosts_page:
  assumes "redis_ranking R ranking" "hps_redis s = Some R" "state (hps_circuitBreaker s) = StateClosed"
    and "1 \<le> page" "1 \<le> psize" "page * psize < 2 ^ 63"
  shows "GetHotPosts clk s timeRange page psize w =
    (Inr (take (nat psize) (drop (nat ((page - 1) * psize)) (ranking w (getTimeRangeKey timeRange)))),
     hps_Success s, w)"
proof -
  have ps: "page \<le> page * psize" "psize \<le> page * psize"
    using mult_left_mono [of 1 psize page] mult_right_mono [of 1 page psize] assms(4,5) by simp_all
  have ge: "0 \<le> (page - 1) * psize" using assms(4,5) by simp
  have eq: "(page - 1) * psize + psize = page * psize" by (simp add: algebra_simps)
  have i1: "i64 (page - 1) = page - 1" and i2: "i64 ((page - 1) * psize) = (page - 1) * psize"
    and i3: "i64 ((page - 1) * psize + psize) = (page - 1) * psize + psize"
    and i4: "i64 ((page - 1) * psize + psize - 1) = (page - 1) * psize + psize - 1"
    using ps ge eq assms(4-6) by (intro i64_id; unfold is_int64_def; linarith)+
  have "redisZrevrange R (getTimeRangeKey timeRange) ((page - 1) * psize) ((page - 1) * psize + psize - 1) w =
      (Inr (take (nat psize) (drop (nat ((page - 1) * psize)) (ranking w (getTimeRangeKey timeRange)))), w)"
    using assms(1,5) ge unfolding redis_ranking_def by simp
  with assms(2,3) show ?thesis
    by (simp add: GetHotPosts_def hps_Allow_def Allow_def Let_def i1 i2 i3 i4)
qed

lemma hps_Success_closed:
  assumes "state (hps_circuitBreaker s) = StateClosed"
  shows "state (hps_circuitBreaker (hps_Success s)) = StateClosed" "hps_redis (hps_Success s) = hps_redis s"
  using assms by (simp_all add: hps_Success_def RecordSuccess_def)

lemma read_pages_run:
  assumes "redis_ranking R ranking" "hps_redis s = Some R" "state (hps_circuitBreaker s) = StateClosed"
    and "1 \<le> psize" "int n * psize < 2 ^ 63"
  shows "\<exists>s'. read_pages clk timeRange psize n s w =
      (Inr (take (n * nat psize) (ranking w (getTimeRangeKey timeRange))), s', w) \<and>
    hps_redis s' = Some R \<and> state (hps_circuitBreaker s') = StateClosed"
  using assms(5)
proof (induction n)
  case 0
  with assms show ?case by simp
next
  case (Suc n)
  have "int n * psize \<le> int (Suc n) * psize" using assms(4) by (intro mult_right_mono) auto
  with Suc obtain s' where IH: "read_pages clk timeRange psize n s w =
      (Inr (take (n * nat psize) (ranking w (getTimeRangeKey timeRange))), s', w)"
    and s': "hps_redis s' = Some R" "state (hps_circuitBreaker s') = StateClosed"
    by force
  have page: "nat ((int (Suc n) - 1) * psize) = n * nat psize"
    using assms(4) by (simp add: nat_mult_distrib)
  note g = GetHotPosts_page [OF assms(1) s', of "int (Suc n)" psize clk timeRange w, unfolded page]
  have "take (Suc n * nat psize) xs = take (n * nat psize) xs @ take (nat psize) (drop (n * nat psize) xs)"
    for xs :: "string list"
    by (metis add.commute mult_Suc take_add)
  with IH g hps_Success_closed [OF s'(2)] s'(1) assms(4) Suc.prems show ?case
    by simp
qed

text \<open>
  C38: The pages of a hot-post ranking tile it: reading the pages 1 to n of a size gives exactly the
  first n * size posts of the ranking of that time range, in order, none missing and none twice, as
  long as the last index fits an int64; the calls keep the breaker closed.
\<close>

theorem hot_pages_tile:
  assumes "redis_ranking R ranking" "hps_redis s = Some R" "state (hps_circuitBreaker s) = StateClosed"
    and "1 \<le> psize" "int n * psize < 2 ^ 63"
  shows "fst (read_pages clk timeRange psize n s w) =
      Inr (take (n * nat psize) (ranking w (getTimeRangeKey timeRange)))
    \<and> state (hps_circuitBreaker (fst (snd (read_pages clk timeRange psize n s w)))) = StateClosed"
  using read_pages_run [OF assms, of clk timeRange w] by force

definition ranked_redis :: "string list redis" where
  "ranked_redis = down_redis\<lparr>
     redisZrevrange := (\<lambda>k a b w. (Inr (take (nat (b - a + 1)) (drop (nat a) w)), w))\<rparr>"

theorem hot_pages_tile_witness:
  "fst (read_pages (\<lambda>_. 0) ''day'' 2 2
     (NewHotPostService (Some ranked_redis) \<lparr>HotPostLocalCache.cache = undefined, threshold = 1\<rparr>)
     [''5'', ''3'', ''9'', ''4'', ''1'']) = Inr [''5'', ''3'', ''9'', ''4'']"
  using hot_pages_tile [of ranked_redis "\<lambda>w k. w"
      "NewHotPostService (Some ranked_redis) \<lparr>HotPostLocalCache.cache = undefined, threshold = 1\<rparr>"
      2 2 "\<lambda>_. 0" "''day''" "[''5'', ''3'', ''9'', ''4'', ''1'']"]
  by (simp add: redis_ranking_def ranked_redis_def NewHotPostService_def NewCircuitBreaker_def Let_def)

section \<open>Scores over time\<close>

text \<open>
  A post's hotness only cools: for counts that are not negative the score is not negative and
  never grows as time passes, and at any moment a post with at least the comments and views of
  another created at the same time scores at least as high.
\<close>

theorem score_decays:
  assumes "0 \<le> post_CommentCount p" "0 \<le> post_ViewCount p" "t1 \<le> t2"
    and "post_CommentCount p \<le> post_CommentCount q" "post_ViewCount p \<le> post_ViewCount q"
    and "post_CreatedAt q = post_CreatedAt p"
  shows "0 \<le> CalculateScore t2 p \<and> CalculateScore t2 p \<le> CalculateScore t1 p
    \<and> CalculateScore t1 p \<le> CalculateScore t1 q"
proof -
  let ?b = "\<lambda>p. real_of_int (post_CommentCount p) * CommentWeight + real_of_int (post_ViewCount p) * ViewWeight"
  have b0: "0 \<le> ?b p" using assms(1,2) by (simp add: CommentWeight_def ViewWeight_def)
  have b1: "?b p \<le> ?b q"
    using assms(4,5) by (simp add: CommentWeight_def ViewWeight_def)
  have "time_since t1 c \<le> time_since t2 c" for c
    using assms(3) by (simp add: time_since_def max_def min_def)
  then have "- DecayFactor * (real_of_int (time_since t2 c) / 3600000000000) \<le>
      - DecayFactor * (real_of_int (time_since t1 c) / 3600000000000)" for c
    by (simp add: DecayFactor_def)
  then have "exp (- DecayFactor * (real_of_int (time_since t2 c) / 3600000000000)) \<le>
      exp (- DecayFactor * (real_of_int (time_since t1 c) / 3600000000000))" for c
    by simp
  from mult_left_mono [OF this b0] b0 mult_right_mono [OF b1] assms(6) show ?thesis
    unfolding CalculateScore_def Let_def by simp
qed

theorem score_decays_witness:
  "CalculateScore (200 * second) demo_post \<le> CalculateScore (100 * second) demo_post"
  using score_decays [of demo_post "100 * second" "200 * second" demo_post]
  by (simp add: second_def)

section \<open>Cleaning up\<close>

lemma score_nonneg: "0 \<le> post_CommentCount p \<Longrightarrow> 0 \<le> post_ViewCount p \<Longrightarrow> 0 \<le> CalculateScore t p"
  by (simp add: CalculateScore_def Let_def CommentWeight_def ViewWeight_def)

lemma exp_decay_le_1:
  "post_CreatedAt p * second \<le> now \<Longrightarrow>
   exp (- DecayFactor * (real_of_int (time_since now (post_CreatedAt p * second)) / 3600000000000)) \<le> 1"
  by (simp add: DecayFactor_def time_since_def)

lemma score_le_base:
  assumes "0 \<le> post_CommentCount p" "0 \<le> post_ViewCount p" "post_CreatedAt p * second \<le> now"
  shows "CalculateScore now p \<le>
    real_of_int (post_CommentCount p) * CommentWeight + real_of_int (post_ViewCount p) * ViewWeight"
  using exp_decay_le_1 [OF assms(3)] assms(1,2)
  unfolding CalculateScore_def Let_def
  by (intro mult_right_le_one_le) (auto simp: CommentWeight_def ViewWeight_def)

lemma int64_of_float_le:
  assumes "0 \<le> x" "x \<le> real_of_int b" "0 \<le> b"
  shows "int64_of_float x \<le> b" "is_int64 b \<Longrightarrow> 0 \<le> int64_of_float x"
proof -
  have "0 \<le> \<lfloor>x\<rfloor>" "\<lfloor>x\<rfloor> \<le> b" using assms by (simp_all add: floor_le_iff)
  with assms show "int64_of_float x \<le> b" "is_int64 b \<Longrightarrow> 0 \<le> int64_of_float x"
    by (auto simp: int64_of_float_def Let_def is_int64_def)
qed

text \<open>A post whose hotness in thousandths is below ten to the ninth.\<close>

definition mild :: "int \<Rightarrow> Post \<Rightarrow> bool" where
  "mild now p \<longleftrightarrow> 0 \<le> post_CommentCount p \<and> 0 \<le> post_ViewCount p \<and>
     30 * post_CommentCount p + post_ViewCount p \<le> 10 ^ 7 \<and> post_CreatedAt p * second \<le> now"

lemma mild_score:
  assumes "mild t p"
  shows "0 \<le> int64_of_float (CalculateScore t p * 1000)"
    and "int64_of_float (CalculateScore t p * 1000) \<le> 1000000000"
proof -
  have c: "0 \<le> post_CommentCount p" "0 \<le> post_ViewCount p" "post_CreatedAt p * second \<le> t"
    "real_of_int (30 * post_CommentCount p + post_ViewCount p) \<le> real_of_int (10 ^ 7)"
    using assms by (simp_all only: mild_def of_int_le_iff)
  from c(4) have "real_of_int (post_CommentCount p) * CommentWeight + real_of_int (post_ViewCount p) * ViewWeight
      \<le> 1000000"
    by (simp add: CommentWeight_def ViewWeight_def)
  with score_le_base [OF c(1-3)] have "CalculateScore t p * 1000 \<le> real_of_int 1000000000"
    by simp
  moreover have "0 \<le> CalculateScore t p * 1000" using score_nonneg [OF c(1,2)] by simp
  ultimately show "0 \<le> int64_of_float (CalculateScore t p * 1000)"
    "int64_of_float (CalculateScore t p * 1000) \<le> 1000000000"
    using int64_of_float_le [of "CalculateScore t p * 1000" 1000000000] by (simp_all add: is_int64_def)
qed

lemma cutoff_large:
  assumes "1003000000 * second \<le> now" "h \<le> 720"
  shows "1000000000 \<le> (now - h * 3600 * second) div second"
proof -
  have "1000000000 * second \<le> now - h * 3600 * second"
    using assms by (simp add: second_def)
  from zdiv_mono1 [OF this, of second] show ?thesis by (simp add: second_def)
qed

text \<open>
  The clean-up compares hotness with time: it removes the members whose score lies between 0 and
  a Unix time, so since the year 2001 it drops every post with 30 * comments + views at most ten
  million from the ranking it cleans, however recently the post was created and scored.
\<close>

theorem cleanup_removes_by_hotness:
  assumes "redis_scores R score" "hps_redis s = Some R"
    and "0 \<le> post_CommentCount p" "0 \<le> post_ViewCount p" "post_CreatedAt p * second \<le> t"
    and "30 * post_CommentCount p + post_ViewCount p \<le> 10 ^ 7"
    and "score w (getTimeRangeKey timeRange) (show_int (post_ID p)) =
           Some (int64_of_float (CalculateScore t p * 1000))"
    and "1003000000 * second \<le> clk w"
  shows "score (snd (CleanupExpiredPosts clk s timeRange w)) (getTimeRangeKey timeRange)
           (show_int (post_ID p)) = None"
proof -
  let ?v = "int64_of_float (CalculateScore t p * 1000)"
  have "mild t p" using assms(3-6) by (simp add: mild_def)
  note v = mild_score [OF this]
  define cutoff where "cutoff h = (clk w - h * 3600 * second) div second" for h
  have cut: "1000000000 \<le> cutoff h" if "h \<le> 720" for h
    using cutoff_large [OF assms(8) that] by (simp add: cutoff_def)
  let ?h = "retentionHours timeRange"
  have h: "?h \<le> 720" by (simp add: retentionHours_def)
  have snd_z: "snd (case z of (Inl err, w') \<Rightarrow> (Inl err, w') | (Inr x, w') \<Rightarrow> (Inr (), w')) = snd z"
    for z :: "int res \<times> 'a"
    by (auto split: res_splits)
  have run: "snd (CleanupExpiredPosts clk s timeRange w) =
      snd (redisZremrangebyscore R (getTimeRangeKey timeRange) 0 (cutoff ?h) w)"
    using assms(2) by (simp add: CleanupExpiredPosts_def cutoff_def Let_def snd_z)
  have "\<exists>n w'. redisZremrangebyscore R (getTimeRangeKey timeRange) 0 (cutoff ?h) w = (Inr n, w') \<and>
     score w' = (score w)(getTimeRangeKey timeRange := (\<lambda>m. case score w (getTimeRangeKey timeRange) m of
        None \<Rightarrow> None | Some v \<Rightarrow> if 0 \<le> v \<and> v \<le> cutoff ?h then None else Some v))"
    using assms(1) by (simp add: redis_scores_def)
  with run assms(7) v cut [OF h] show ?thesis by auto
qed

definition scored_redis :: "(int \<times> (string \<Rightarrow> string \<rightharpoonup> int)) redis" where
  "scored_redis = down_redis\<lparr>
     redisZadd := (\<lambda>k v m w. (Inr True, (fst w, (snd w)(k := (snd w k)(m \<mapsto> v))))),
     redisZremrangebyscore := (\<lambda>k a b w. (Inr 0, (fst w, (snd w)(k := (\<lambda>m. case snd w k m of None \<Rightarrow> None
        | Some v \<Rightarrow> if a \<le> v \<and> v \<le> b then None else Some v)))))\<rparr>"

lemma scored_redis_scores: "redis_scores scored_redis snd"
  by (auto simp: redis_scores_def scored_redis_def)

lemma NewHotPostService_redis [simp]: "hps_redis (NewHotPostService r lc) = r"
  by (simp add: NewHotPostService_def)

theorem cleanup_removes_by_hotness_witness:
  "snd (snd (CleanupExpiredPosts fst
      (NewHotPostService (Some scored_redis) \<lparr>HotPostLocalCache.cache = undefined, threshold = 1\<rparr>) ''day''
      (1700000000 * second,
       \<lambda>k. [''7'' \<mapsto> int64_of_float (CalculateScore (1700000000 * second) (demo_post\<lparr>post_CreatedAt := 1700000000\<rparr>) * 1000)])))
     HotPostsDay ''7'' = None"
proof -
  let ?w = "(1700000000 * second,
       \<lambda>k::string. [''7'' \<mapsto> int64_of_float (CalculateScore (1700000000 * second) (demo_post\<lparr>post_CreatedAt := 1700000000\<rparr>) * 1000)])"
  have k: "getTimeRangeKey ''day'' = HotPostsDay" by (simp add: getTimeRangeKey_def)
  have seven: "show_int 7 = ''7''" by code_simp
  show ?thesis
    using cleanup_removes_by_hotness [of scored_redis snd
      "NewHotPostService (Some scored_redis) \<lparr>HotPostLocalCache.cache = undefined, threshold = 1\<rparr>"
      "demo_post\<lparr>post_CreatedAt := 1700000000\<rparr>" "1700000000 * second" ?w "''day''" fst, unfolded k fst_conv snd_conv]
    by (simp add: scored_redis_scores second_def seven)
qed

section \<open>Outages\<close>

text \<open>A number of ranking requests in a row.\<close>

fun hot_calls ::
  "('w \<Rightarrow> int) \<Rightarrow> string \<Rightarrow> int \<Rightarrow> int \<Rightarrow> nat \<Rightarrow> 'w HotPostService \<Rightarrow> 'w \<Rightarrow> 'w HotPostService \<times> 'w" where
  "hot_calls clk tr page n 0 s w = (s, w)"
| "hot_calls clk tr page n (Suc k) s w =
     (case hot_calls clk tr page n k s w of (s', w') \<Rightarrow> snd (GetHotPosts clk s' tr page n w'))"

definition failing :: "'w redis \<Rightarrow> bool" where
  "failing R \<longleftrightarrow> (\<forall>k a b w. \<exists>e w'. redisZrevrange R k a b w = (Inl e, w'))"

definition counts_failures :: "nat \<Rightarrow> 'w redis \<Rightarrow> 'w HotPostService \<Rightarrow> bool" where
  "counts_failures k R s \<longleftrightarrow> hps_redis s = Some R \<and>
     config (hps_circuitBreaker s) = config (NewCircuitBreaker emptyConfig) \<and>
     failures (hps_circuitBreaker s) = int k \<and> requests (hps_circuitBreaker s) = int k \<and>
     state (hps_circuitBreaker s) = (if k < 5 then StateClosed else StateOpen)"

lemma default_config [simp]:
  "FailureThreshold (config (NewCircuitBreaker emptyConfig)) = 5"
  "Timeout (config (NewCircuitBreaker emptyConfig)) = 30 * second"
  by (simp_all add: NewCircuitBreaker_def emptyConfig_def Let_def)

lemma failing_call:
  assumes "counts_failures k R s" "k < 5" "failing R"
  shows "\<exists>s' w'. snd (GetHotPosts clk s tr page n w) = (s', w') \<and> counts_failures (Suc k) R s' \<and>
    lastFailTime (hps_circuitBreaker s') = clk w'"
proof -
  have f: "\<exists>e w'. redisZrevrange R k a b w = (Inl e, w')" for k a b w
    using assms(3) by (simp add: failing_def)
  obtain e w' where z: "redisZrevrange R (getTimeRangeKey tr) (i64 (i64 (page - 1) * n))
      (i64 (i64 (i64 (i64 (page - 1) * n) + n) - 1)) w = (Inl e, w')"
    using f by blast
  show ?thesis
    using assms(1,2) z
    by (auto simp: GetHotPosts_def counts_failures_def hps_Allow_def Allow_def hps_Failure_def
        RecordFailure_def Let_def)
qed

lemma failing_calls:
  assumes "counts_failures 0 R s" "failing R" "k < 5"
  shows "\<exists>s' w'. hot_calls clk tr page n (Suc k) s w = (s', w') \<and> counts_failures (Suc k) R s' \<and>
    lastFailTime (hps_circuitBreaker s') = clk w'"
  using assms(3)
proof (induction k)
  case 0
  with failing_call [OF assms(1) _ assms(2)] show ?case by force
next
  case (Suc k)
  then obtain s' w' where s': "hot_calls clk tr page n (Suc k) s w = (s', w')" "counts_failures (Suc k) R s'"
    by auto
  from failing_call [OF s'(2) Suc.prems assms(2), of clk tr page n w'] s'(1) show ?case
    by (auto split: prod.splits)
qed



section \<open>Reading what was cached\<close>

lemma RemoveEmptyCache_strings:
  assumes "redis_strings R kv" "evc_redis c = Some R"
  shows "\<exists>c' w'. RemoveEmptyCache i c w = (Inr (), c', w') \<and> kv w' = kv w |` (- {getEmptyKey i}) \<and>
    evc_redis c' = Some R \<and> smc_data (evc_localCache c') (getEmptyKey i) = None"
proof -
  have "\<exists>n w'. redisDel R [getEmptyKey i] w = (Inr n, w') \<and> kv w' = kv w |` (- set [getEmptyKey i])"
    using assms(1) by (simp only: redis_strings_def)
  then show ?thesis
    using assms(2) by (auto simp: RemoveEmptyCache_def smc_Delete_def Let_def)
qed

lemma detail_key_not_empty_key: "detail_key i \<noteq> getEmptyKey j"
  by (simp add: detail_key_def getEmptyKey_def PostDetailPrefix_def EmptyValuePrefix_def)

text \<open>
  C31: Read your write: with a working Redis and the breaker closed, caching a post's detail succeeds
  and the next read of that id returns the post just cached, even if the id was cached as
  non-existent before, except that a copy the local cache holds comes first.
\<close>

theorem cached_detail_is_read:
  assumes "redis_strings R kv" "bigcache_frame (cache (hps_localCache s)) kv"
    and "hps_redis s = Some R" "evc_redis (hps_emptyValueCache s) = Some R"
    and "state (hps_circuitBreaker s) = StateClosed"
    and "marshalPost J p = Inr data" "unmarshalPost J data = Inr p" "data \<noteq> []"
    and "CachePostDetail J s p ttl w = (r, s', w')"
  shows "r = Inr () \<and> fst (GetCachedPostDetail clk J s' (post_ID p) w') =
    Inr (Some (case fst (LocalCache_Get J (hps_localCache s') (post_ID p) w') of None \<Rightarrow> p | Some q \<Rightarrow> q))"
proof -
  define w1 where "w1 = (if ShouldCache (hps_localCache s) (post_ViewCount p)
                then LocalCache_Set J (hps_localCache s) (Some p) w else w)"
  obtain c' w2 where rm: "RemoveEmptyCache (post_ID p) (hps_emptyValueCache s) w1 = (Inr (), c', w2)"
    "kv w2 = kv w1 |` (- {getEmptyKey (post_ID p)})" "evc_redis c' = Some R"
    "smc_data (evc_localCache c') (getEmptyKey (post_ID p)) = None"
    using RemoveEmptyCache_strings [OF assms(1,4)] by blast
  obtain w3 where set: "redisSetex R (detail_key (post_ID p)) data ttl w2 = (Inr (), w3)"
    "kv w3 = (kv w2)(detail_key (post_ID p) \<mapsto> data)"
    using assms(1) unfolding redis_strings_def by blast
  have out: "r = Inr ()" "s' = s\<lparr>hps_emptyValueCache := c'\<rparr>" "w' = w3"
    using assms(9) rm(1) set(1) assms(3,6) by (simp_all add: CachePostDetail_def w1_def [symmetric] Let_def)
  have get: "redisGet R k w = (Inr (case kv w k of None \<Rightarrow> [] | Some v \<Rightarrow> v), w)" for k w
    using assms(1) by (simp add: redis_strings_def)
  obtain h w4 where lc: "LocalCache_Get J (hps_localCache s) (post_ID p) w3 = (h, w4)"
    by fastforce
  have "w4 = snd (bcGet (cache (hps_localCache s)) (formatKey (post_ID p)) w3)"
    using lc by (auto simp: LocalCache_Get_def split: res_splits)
  with assms(2) have "kv w4 = kv w3" by (simp add: bigcache_frame_def)
  then have k: "kv w4 (detail_key (post_ID p)) = Some data" "kv w4 (getEmptyKey (post_ID p)) = None"
    using set(2) rm(2) detail_key_not_empty_key by (simp_all add: not_sym [OF detail_key_not_empty_key])
  then have no: "IsEmptyCached clk (post_ID p) c' w4 = (False, c', w4)"
    using rm(3,4) by (simp add: IsEmptyCached_def smc_Get_def get EmptyValueMarker_def Let_def)
  show ?thesis
  proof (cases h)
    case None
    with lc out no assms(3,5,7,8) k(1) get show ?thesis
      by (simp add: GetCachedPostDetail_def hps_Allow_def Allow_def Let_def)
  next
    case (Some q)
    with lc out show ?thesis by (simp add: GetCachedPostDetail_def)
  qed
qed

text \<open>A bigcache that holds nothing.\<close>

definition empty_bigcache :: "'w bigcache" where
  "empty_bigcache = \<lparr>bcGet = (\<lambda>k w. (Inl (ErrLib ''Entry not found''), w)), bcSet = (\<lambda>k v w. w),
     bcDelete = (\<lambda>k w. w), bcLen = (\<lambda>w. 0)\<rparr>"

definition demo_service :: "demo_world HotPostService" where
  "demo_service = NewHotPostService (Some map_redis) \<lparr>HotPostLocalCache.cache = empty_bigcache, threshold = 1000\<rparr>"

lemma demo_service_facts:
  "bigcache_frame (cache (hps_localCache demo_service)) kv" "hps_redis demo_service = Some map_redis"
  "evc_redis (hps_emptyValueCache demo_service) = Some map_redis"
  "state (hps_circuitBreaker demo_service) = StateClosed"
  "hps_localCache demo_service = \<lparr>HotPostLocalCache.cache = empty_bigcache, threshold = 1000\<rparr>"
  by (simp_all add: demo_service_def NewHotPostService_def NewEmptyValueCache_def NewCircuitBreaker_def
      bigcache_frame_def empty_bigcache_def Let_def)

lemma LocalCache_Get_empty_bigcache:
  "LocalCache_Get J \<lparr>HotPostLocalCache.cache = empty_bigcache, threshold = n\<rparr> i w = (None, w)"
  by (simp add: LocalCache_Get_def empty_bigcache_def)

theorem cached_detail_is_read_witness:
  "let (r, s', w') = CachePostDetail demo_json demo_service demo_post 60 \<lparr>dw_now = 0, dw_kv = Map.empty\<rparr>
   in fst (GetCachedPostDetail dw_now demo_json s' 7 w') = Inr (Some demo_post)"
proof -
  let ?w = "\<lparr>dw_now = 0, dw_kv = Map.empty\<rparr>"
  obtain r s' w' where c: "CachePostDetail demo_json demo_service demo_post 60 ?w = (r, s', w')"
    using prod_cases3 by blast
  have ne: "pair_text 7 20 \<noteq> []" by (simp add: pair_text_def)
  have un: "unmarshalPost demo_json (pair_text 7 20) = Inr demo_post"
    by (simp add: is_int64_def)
  from c have "hps_localCache s' = hps_localCache demo_service"
    by (auto simp: CachePostDetail_def Let_def split: res_splits)
  with cached_detail_is_read [OF map_redis_strings demo_service_facts(1-4) _ un ne c, of dw_now] c show ?thesis
    by (simp add: marshalPost_demo demo_service_facts LocalCache_Get_empty_bigcache)
qed

section \<open>Posts that do not exist\<close>

lemma IsEmptyCached_defaultTTL: "evc_defaultTTL (fst (snd (IsEmptyCached clk i c w))) = evc_defaultTTL c"
  by (auto simp: IsEmptyCached_def local_Set_def Let_def split: res_splits)

lemma GetCachedPostDetail_negative:
  assumes "neg_held i d (hps_emptyValueCache s)" "LocalCache_Get J (hps_localCache s) i w = (None, w1)" "clk w1 \<le> d"
  shows "GetCachedPostDetail clk J s i w = (Inl ErrPostNotFound, s, w1)"
  using IsEmptyCached_hit [OF assms(1), of clk w1] assms(2,3) by (simp add: GetCachedPostDetail_def)

lemma fallback_negative:
  assumes "neg_held i d (hps_emptyValueCache s)" "LocalCache_Get J (hps_localCache s) i w = (None, w1)" "clk w1 \<le> d"
  shows "GetPostDetailWithFallback clk J s i f w = (Inl ErrPostNotFound, s, w1)"
  using GetCachedPostDetail_negative [where clk = clk, OF assms] IsEmptyCached_hit [OF assms(1), of clk w1] assms(3)
  by (simp add: GetPostDetailWithFallback_def fallback_fetch_def)



end
