(* ===== verification/PostRepository.thy ===== *)
theory PostRepository
  imports RedisViews CacheLoader HotPostService
begin

text \<open>
  The MySQL repositories of posts and comments
  (\<open>post/internal/repository/post_repository_impl.go\<close> and \<open>comment_repository_impl.go\<close>). SQL texts
  are those of the source. The post repository holds the hot-post service, whose state the
  operations that invalidate caches return updated.
\<close>

section \<open>Posts\<close>

record 'w postRepository =
  pr_db :: "'w post_sqlconn"
  pr_redis :: "'w redis"
  pr_localCache :: "'w HotPostLocalCache"
  pr_hotPostSvc :: "'w HotPostService"
  pr_cacheLoader :: "'w CacheLoader"

definition NewPostRepository ::
  "'w post_sqlconn \<Rightarrow> 'w redis \<Rightarrow> 'w HotPostLocalCache \<Rightarrow> 'w HotPostService \<Rightarrow> 'w postRepository" where
  "NewPostRepository db rds lc svc =
     \<lparr>pr_db = db, pr_redis = rds, pr_localCache = lc, pr_hotPostSvc = svc,
      pr_cacheLoader = NewCacheLoader rds lc\<rparr>"

definition getViewCountFromRedis :: "'w postRepository \<Rightarrow> int \<Rightarrow> int \<Rightarrow> 'w \<Rightarrow> int \<times> 'w" where
  "getViewCountFromRedis r postID dbViewCount w =
     (case GetRC (pr_redis r) postID w of
        (Inl err, w') \<Rightarrow> (dbViewCount, w')
      | (Inr count, w') \<Rightarrow> (count, w'))"

definition insertPostSQL :: string where
  "insertPostSQL = ''INSERT INTO posts(id, user_id, community_id, username, title, content, tags, status, created_at, updated_at) VALUES(?, ?, ?, ?, ?, ?, ?, ?, ?, ?)''"

text \<open>
  \<open>nextID\<close> is \<open>snowid.NextID\<close> on the process's node. The identifier is returned beside the error,
  and the caller's post is updated through the pointer: the third component.
\<close>

definition Post_Create ::
  "json \<Rightarrow> ('w \<Rightarrow> int res \<times> 'w) \<Rightarrow> 'w postRepository \<Rightarrow> Post \<Rightarrow> 'w \<Rightarrow> (int \<times> err option \<times> Post) \<times> 'w" where
  "Post_Create J nextID r post w =
     (case marshalString J (post_Tags post) of
        Inl err \<Rightarrow> ((0, Some err, post), w)
      | Inr tagsJSON \<Rightarrow>
          (case nextID w of
             (Inl err, w1) \<Rightarrow> ((0, Some (Wrap ''failed to generate snowflake ID'' err), post), w1)
           | (Inr postID, w1) \<Rightarrow>
               (let post' = post\<lparr>post_ID := postID\<rparr>
                in case dbExec (pr_db r) insertPostSQL
                     [SInt (post_ID post'), SInt (post_UserID post'), SInt (post_CommunityID post'),
                      SStr (post_Username post'), SStr (post_Title post'), SStr (post_Content post'),
                      SStr tagsJSON, SInt (post_Status post'), STime (post_CreatedAt post'),
                      STime (post_UpdatedAt post')] w1 of
                     (Inl err, w2) \<Rightarrow> ((0, Some err, post'), w2)
                   | (Inr result, w2) \<Rightarrow>
                       (case rowsAffected result of
                          Inl err \<Rightarrow> ((0, Some err, post'), w2)
                        | Inr affected \<Rightarrow>
                            (if affected = 0 then ((0, Some (Errorf ''no rows affected''), post'), w2)
                             else (case AddWhenCreate (pr_redis r) postID (post_UserID post') w2 of
                                     (Inl err, w3) \<Rightarrow> ((postID, Some err, post'), w3)
                                   | (Inr _, w3) \<Rightarrow> ((postID, None, post'), w3)))))))"

definition selectPostSQL :: string where
  "selectPostSQL = ''SELECT id, user_id, community_id, username, title, content, tags, like_count, comment_count, view_count, status, UNIX_TIMESTAMP(created_at) as created_at, UNIX_TIMESTAMP(updated_at) as updated_at FROM posts WHERE id=? AND status != 3''"

definition findByIDFromDB :: "'w postRepository \<Rightarrow> int \<Rightarrow> 'w \<Rightarrow> Post option res \<times> 'w" where
  "findByIDFromDB r i w =
     (case dbQueryPost (pr_db r) selectPostSQL [SInt i] w of
        (Inl err, w') \<Rightarrow> (if err = ErrSqlNoRows then (Inr None, w') else (Inl err, w'))
      | (Inr post, w') \<Rightarrow> (Inr (Some post), w'))"

definition Post_FindByID :: "'w postRepository \<Rightarrow> int \<Rightarrow> 'w \<Rightarrow> Post option res \<times> 'w" where
  "Post_FindByID r i w =
     (case dbQueryPost (pr_db r) selectPostSQL [SInt i] w of
        (Inl err, w') \<Rightarrow> (if err = ErrSqlNoRows then (Inr None, w') else (Inl err, w'))
      | (Inr post, w') \<Rightarrow> (Inr (Some post), w'))"

text \<open>\<open>evs\<close> are the events a waiting load receives.\<close>

definition GetPostDetail ::
  "('w \<Rightarrow> int) \<Rightarrow> json \<Rightarrow> 'w postRepository \<Rightarrow> (wait_event \<times> ('w \<Rightarrow> 'w)) list \<Rightarrow> int \<Rightarrow> int \<Rightarrow> 'w \<Rightarrow>
   (Post option res \<times> 'w) option" where
  "GetPostDetail clk J r evs userID i w =
     (case GetOrLoad clk J (pr_cacheLoader r) i (findByIDFromDB r i) evs w of
        None \<Rightarrow> None
      | Some (Inl err, w1) \<Rightarrow> Some (Inl err, w1)
      | Some (Inr None, w1) \<Rightarrow> Some (Inr None, w1)
      | Some (Inr (Some post), w1) \<Rightarrow>
          (let (views, w2) = getViewCountFromRedis r i (post_ViewCount post) w1;
               post1 = post\<lparr>post_ViewCount := views\<rparr>
           in if userID > 0 \<and> userID \<noteq> post_UserID post1
              then (let (_, w3) = AddRead (pr_redis r) i userID w2;
                        (views', w4) = getViewCountFromRedis r i (post_ViewCount post1) w3
                    in Some (Inr (Some (post1\<lparr>post_ViewCount := views'\<rparr>)), w4))
              else Some (Inr (Some post1), w2)))"

fun overrideViews :: "'w postRepository \<Rightarrow> Post list \<Rightarrow> 'w \<Rightarrow> Post list \<times> 'w" where
  "overrideViews r [] w = ([], w)"
| "overrideViews r (post # posts) w =
     (let (views, w1) = getViewCountFromRedis r (post_ID post) (post_ViewCount post) w;
          (posts', w2) = overrideViews r posts w1
      in (post\<lparr>post_ViewCount := views\<rparr> # posts', w2))"

subsection \<open>Lists\<close>

definition listSQL :: string where
  "listSQL = ''SELECT id, user_id, community_id, username, title, content, tags, like_count, comment_count, view_count, status, created_at, updated_at FROM posts''"

definition countSQL :: string where
  "countSQL = ''SELECT COUNT(*) FROM posts''"

fun join :: "string \<Rightarrow> string list \<Rightarrow> string" where
  "join sep [] = []"
| "join sep [x] = x"
| "join sep (x # y # ys) = x @ sep @ join sep (y # ys)"

definition listWhere :: "int \<Rightarrow> string \<Rightarrow> string list \<times> sqlarg list" where
  "listWhere communityID tag =
     (let whereClauses = [''status = 2'']; args = [];
          (whereClauses, args) =
            (if communityID > 0 then (whereClauses @ [''community_id = ?''], args @ [SInt communityID])
             else (whereClauses, args))
      in if tag \<noteq> []
         then (whereClauses @ [''JSON_CONTAINS(tags, ?)''], args @ [SStr (CHR 0x22 # tag @ [CHR 0x22])])
         else (whereClauses, args))"

text \<open>The two statements of \<open>List\<close> with their arguments: the count and the page.\<close>

definition listQueries ::
  "int \<Rightarrow> int \<Rightarrow> int \<Rightarrow> string \<Rightarrow> (string \<times> sqlarg list) \<times> (string \<times> sqlarg list)" where
  "listQueries page pageSize communityID tag =
     (let offset = i64 (i64 (page - 1) * pageSize);
          (whereClauses, args) = listWhere communityID tag;
          whereClause = (if length whereClauses > 0 then '' WHERE '' @ join '' AND '' whereClauses else []);
          query = listSQL @ whereClause @ '' ORDER BY created_at DESC LIMIT ? OFFSET ?'';
          countQuery = countSQL @ whereClause;
          args = args @ [SInt pageSize, SInt offset]
      in ((countQuery, take (length args - 2) args), (query, args)))"

definition Post_List ::
  "'w postRepository \<Rightarrow> int \<Rightarrow> int \<Rightarrow> int \<Rightarrow> string \<Rightarrow> 'w \<Rightarrow> (Post list \<times> int) res \<times> 'w" where
  "Post_List r page pageSize communityID tag w =
     (case listQueries page pageSize communityID tag of
        ((countQuery, countArgs), (query, args)) \<Rightarrow>
          (case dbQueryInt (pr_db r) countQuery countArgs w of
             (Inl err, w1) \<Rightarrow> (Inl err, w1)
           | (Inr tot, w1) \<Rightarrow>
               (case dbQueryPosts (pr_db r) query args w1 of
                  (Inl err, w2) \<Rightarrow> (Inl err, w2)
                | (Inr posts, w2) \<Rightarrow>
                    (case overrideViews r posts w2 of (posts', w3) \<Rightarrow> (Inr (posts', tot), w3)))))"

definition listByUserSQL :: string where
  "listByUserSQL = ''SELECT id, user_id, community_id, username, title, content, tags, like_count, comment_count, view_count, status, created_at, updated_at FROM posts WHERE user_id = ? AND status = 2 ORDER BY created_at DESC LIMIT ? OFFSET ?''"

definition countByUserSQL :: string where
  "countByUserSQL = ''SELECT COUNT(*) FROM posts WHERE user_id = ? AND status = 2''"

definition ListByUserID ::
  "'w postRepository \<Rightarrow> int \<Rightarrow> int \<Rightarrow> int \<Rightarrow> 'w \<Rightarrow> (Post list \<times> int) res \<times> 'w" where
  "ListByUserID r userID page pageSize w =
     (let offset = i64 (i64 (page - 1) * pageSize)
      in case dbQueryInt (pr_db r) countByUserSQL [SInt userID] w of
           (Inl err, w1) \<Rightarrow> (Inl err, w1)
         | (Inr tot, w1) \<Rightarrow>
             (case dbQueryPosts (pr_db r) listByUserSQL [SInt userID, SInt pageSize, SInt offset] w1 of
                (Inl err, w2) \<Rightarrow> (Inl err, w2)
              | (Inr posts, w2) \<Rightarrow>
                  (case overrideViews r posts w2 of (posts', w3) \<Rightarrow> (Inr (posts', tot), w3))))"

definition recentPostsSQL :: string where
  "recentPostsSQL = ''SELECT id, user_id, community_id, username, title, content, tags, like_count, comment_count, view_count, status, UNIX_TIMESTAMP(created_at) as created_at, UNIX_TIMESTAMP(updated_at) as updated_at FROM posts WHERE status = 2 AND created_at > DATE_SUB(NOW(), INTERVAL ? DAY) ORDER BY created_at DESC''"

definition GetRecentPosts :: "'w postRepository \<Rightarrow> int \<Rightarrow> 'w \<Rightarrow> Post list res \<times> 'w" where
  "GetRecentPosts r days w =
     (case dbQueryPosts (pr_db r) recentPostsSQL [SInt days] w of
        (Inl err, w1) \<Rightarrow> (Inl err, w1)
      | (Inr posts, w1) \<Rightarrow> (case overrideViews r posts w1 of (posts', w2) \<Rightarrow> (Inr posts', w2)))"

subsection \<open>Writes\<close>

definition updatePostSQL :: string where
  "updatePostSQL = ''UPDATE posts SET title=?, content=?, tags=?, updated_at=? WHERE id=? AND user_id=?''"

definition deletePostSQL :: string where
  "deletePostSQL = ''UPDATE posts SET status = 3 WHERE id=? AND user_id=?''"

definition invalidate :: "'w postRepository \<Rightarrow> int \<Rightarrow> 'w \<Rightarrow> unit res \<times> 'w postRepository \<times> 'w" where
  "invalidate r i w =
     (case DeletePostCache (pr_hotPostSvc r) i w of
        (res, svc, w') \<Rightarrow> (res, r\<lparr>pr_hotPostSvc := svc\<rparr>, w'))"

definition Post_Update :: "json \<Rightarrow> 'w postRepository \<Rightarrow> Post \<Rightarrow> 'w \<Rightarrow> unit res \<times> 'w postRepository \<times> 'w" where
  "Post_Update J r post w =
     (case marshalString J (post_Tags post) of
        Inl err \<Rightarrow> (Inl err, r, w)
      | Inr tagsJSON \<Rightarrow>
          (case execErr (pr_db r) updatePostSQL
                  [SStr (post_Title post), SStr (post_Content post), SStr tagsJSON,
                   SInt (post_UpdatedAt post), SInt (post_ID post), SInt (post_UserID post)] w of
             (Inl err, w1) \<Rightarrow> (Inl err, r, w1)
           | (Inr _, w1) \<Rightarrow> invalidate r (post_ID post) w1))"

definition Post_Delete :: "'w postRepository \<Rightarrow> int \<Rightarrow> int \<Rightarrow> 'w \<Rightarrow> unit res \<times> 'w postRepository \<times> 'w" where
  "Post_Delete r i userID w =
     (case execErr (pr_db r) deletePostSQL [SInt i, SInt userID] w of
        (Inl err, w1) \<Rightarrow> (Inl err, r, w1)
      | (Inr _, w1) \<Rightarrow> invalidate r i w1)"

definition incrViewSQL :: string where
  "incrViewSQL = ''UPDATE posts SET view_count = view_count + 1 WHERE id=?''"

definition incrCommentSQL :: string where
  "incrCommentSQL = ''UPDATE posts SET comment_count = comment_count + 1 WHERE id=?''"

definition decrCommentSQL :: string where
  "decrCommentSQL = ''UPDATE posts SET comment_count = GREATEST(comment_count - 1, 0) WHERE id=?''"

definition Post_IncrementViewCount :: "'w postRepository \<Rightarrow> int \<Rightarrow> 'w \<Rightarrow> unit res \<times> 'w" where
  "Post_IncrementViewCount r postID w = execErr (pr_db r) incrViewSQL [SInt postID] w"

definition IncrementCommentCount :: "'w postRepository \<Rightarrow> int \<Rightarrow> 'w \<Rightarrow> unit res \<times> 'w" where
  "IncrementCommentCount r postID w = execErr (pr_db r) incrCommentSQL [SInt postID] w"

definition DecrementCommentCount :: "'w postRepository \<Rightarrow> int \<Rightarrow> 'w \<Rightarrow> unit res \<times> 'w" where
  "DecrementCommentCount r postID w = execErr (pr_db r) decrCommentSQL [SInt postID] w"

section \<open>Comments\<close>

record 'w commentRepository =
  cr_db :: "'w post_sqlconn"

definition NewCommentRepository :: "'w post_sqlconn \<Rightarrow> 'w commentRepository" where
  "NewCommentRepository db = \<lparr>cr_db = db\<rparr>"

definition insertCommentSQL :: string where
  "insertCommentSQL = ''INSERT INTO comments(post_id, user_id, username, content, parent_id, created_at, updated_at) VALUES(?, ?, ?, ?, ?, ?, ?)''"

definition selectCommentSQL :: string where
  "selectCommentSQL = ''SELECT id, post_id, user_id, username, content, parent_id, created_at, updated_at FROM comments WHERE id=?''"

definition listCommentsSQL :: string where
  "listCommentsSQL = ''SELECT id, post_id, user_id, username, content, parent_id, created_at, updated_at FROM comments WHERE post_id=? ORDER BY created_at ASC''"

definition deleteCommentSQL :: string where
  "deleteCommentSQL = ''DELETE FROM comments WHERE id=? AND user_id=?''"

definition Comment_Create :: "'w commentRepository \<Rightarrow> Comment \<Rightarrow> 'w \<Rightarrow> int res \<times> 'w" where
  "Comment_Create r comment w =
     (case dbExec (cr_db r) insertCommentSQL
             [SInt (comment_PostID comment), SInt (comment_UserID comment), SStr (comment_Username comment),
              SStr (comment_Content comment), SInt (comment_ParentID comment),
              SInt (comment_CreatedAt comment), SInt (comment_UpdatedAt comment)] w of
        (Inl err, w') \<Rightarrow> (Inl err, w')
      | (Inr result, w') \<Rightarrow> (lastInsertId result, w'))"

text \<open>A missing row is an error here, not \<open>nil\<close>.\<close>

definition Comment_FindByID :: "'w commentRepository \<Rightarrow> int \<Rightarrow> 'w \<Rightarrow> Comment option res \<times> 'w" where
  "Comment_FindByID r i w =
     (case dbQueryComment (cr_db r) selectCommentSQL [SInt i] w of
        (Inl err, w') \<Rightarrow> (Inl err, w')
      | (Inr comment, w') \<Rightarrow> (Inr (Some comment), w'))"

definition ListByPostID :: "'w commentRepository \<Rightarrow> int \<Rightarrow> 'w \<Rightarrow> Comment list res \<times> 'w" where
  "ListByPostID r postID w = dbQueryComments (cr_db r) listCommentsSQL [SInt postID] w"

definition Comment_Delete :: "'w commentRepository \<Rightarrow> int \<Rightarrow> int \<Rightarrow> 'w \<Rightarrow> unit res \<times> 'w" where
  "Comment_Delete r i userID w = execErr (cr_db r) deleteCommentSQL [SInt i, SInt userID] w"

section \<open>Statements and arguments agree\<close>

fun binds :: "string \<times> sqlarg list \<Rightarrow> bool" where
  "binds (sql, args) = (placeholders sql = length args)"

lemma placeholders_append [simp]: "placeholders (a @ b) = placeholders a + placeholders b"
  by (simp add: placeholders_def)

text \<open>
  Both statements of a post listing have exactly one argument per placeholder, for every filter;
  they select with the same condition, so the total counts what the pages list; the page starts at
  (page - 1) * pageSize, computed in 64 bits.
\<close>

theorem list_queries_bind:
  "let ((countQuery, countArgs), (query, args)) = listQueries page pageSize communityID tag
   in binds (countQuery, countArgs) \<and> binds (query, args) \<and>
      (\<exists>cond. countQuery = countSQL @ cond \<and>
         query = listSQL @ cond @ '' ORDER BY created_at DESC LIMIT ? OFFSET ?'') \<and>
      args = countArgs @ [SInt pageSize, SInt (i64 (i64 (page - 1) * pageSize))]"
proof -
  have texts: "placeholders listSQL = 0" "placeholders countSQL = 0"
    "placeholders '' ORDER BY created_at DESC LIMIT ? OFFSET ?'' = 2" "placeholders '' WHERE '' = 0"
    "placeholders '' AND '' = 0" "placeholders ''status = 2'' = 0"
    "placeholders ''community_id = ?'' = 1" "placeholders ''JSON_CONTAINS(tags, ?)'' = 1"
    by code_simp+
  define cond where "cond = '' WHERE '' @ join '' AND '' (fst (listWhere communityID tag))"
  have ne: "fst (listWhere communityID tag) \<noteq> []"
    by (simp add: listWhere_def Let_def)
  have args: "placeholders cond = length (snd (listWhere communityID tag))"
    by (auto simp: cond_def listWhere_def placeholders_def Let_def)
  have q: "listQueries page pageSize communityID tag =
     ((countSQL @ cond, snd (listWhere communityID tag)),
      (listSQL @ cond @ '' ORDER BY created_at DESC LIMIT ? OFFSET ?'',
       snd (listWhere communityID tag) @ [SInt pageSize, SInt (i64 (i64 (page - 1) * pageSize))]))"
    using ne by (cases "listWhere communityID tag") (simp add: listQueries_def cond_def Let_def)
  show ?thesis
    unfolding q using args texts by auto
qed

section \<open>Cached copies after a write\<close>

definition db_frame :: "('w, 'x) sqlconn_scheme \<Rightarrow> ('w \<Rightarrow> 'v) \<Rightarrow> bool" where
  "db_frame db view \<longleftrightarrow> (\<forall>sql args w. view (snd (dbExec db sql args w)) = view w)"

lemma execErr_frame: "db_frame db view \<Longrightarrow> view (snd (execErr db sql args w)) = view w"
  unfolding db_frame_def execErr_def by (auto split: res_splits) (metis snd_conv)+

definition loader_key :: "int \<Rightarrow> string" where
  "loader_key i = prefix_key CacheKeyPrefix i"

lemma loader_key_other [key_simps]: "loader_key i \<noteq> detail_key j" "loader_key i \<noteq> getEmptyKey j"
  by (simp_all add: loader_key_def prefix_key_def CacheKeyPrefix_def detail_key_def PostDetailPrefix_def
      getEmptyKey_def EmptyValuePrefix_def)

definition one_redis :: "'w redis \<Rightarrow> 'w postRepository \<Rightarrow> bool" where
  "one_redis R r \<longleftrightarrow> cl_redis (pr_cacheLoader r) = R \<and> hps_redis (pr_hotPostSvc r) = Some R \<and>
     evc_redis (hps_emptyValueCache (pr_hotPostSvc r)) = Some R"

lemma invalidate_kv:
  assumes "redis_strings R kv" "one_redis R r" "bigcache_frame (cache (hps_localCache (pr_hotPostSvc r))) kv"
  shows "kv (snd (snd (invalidate r i w))) (loader_key j) = kv w (loader_key j) \<and>
    pr_cacheLoader (fst (snd (invalidate r i w))) = pr_cacheLoader r"
proof -
  let ?s = "pr_hotPostSvc r"
  define w1 where "w1 = LocalCache_Delete (hps_localCache ?s) i w"
  have w1: "kv w1 = kv w"
    using assms(3) by (simp add: w1_def LocalCache_Delete_def bigcache_frame_def)
  obtain c' w2 where rm: "RemoveEmptyCache i (hps_emptyValueCache ?s) w1 = (Inr (), c', w2)"
    "kv w2 = kv w1 |` (- {getEmptyKey i})"
    using RemoveEmptyCache_strings [OF assms(1), of "hps_emptyValueCache ?s" i w1] assms(2)
    by (auto simp: one_redis_def)
  obtain n w3 where del: "redisDel R [detail_key i] w2 = (Inr n, w3)" "kv w3 = kv w2 |` (- set [detail_key i])"
    using assms(1) unfolding redis_strings_def by blast
  have "invalidate r i w = (Inr (), r\<lparr>pr_hotPostSvc := ?s\<lparr>hps_emptyValueCache := c'\<rparr>\<rparr>, w3)"
    using assms(2) rm(1) del(1)
    by (simp add: invalidate_def DeletePostCache_def w1_def [symmetric] one_redis_def Let_def)
  then show ?thesis using w1 rm(2) del(2) by (simp add: key_simps)
qed

lemma write_kv:
  assumes "redis_strings R kv" "one_redis R r" "bigcache_frame (cache (hps_localCache (pr_hotPostSvc r))) kv"
    and "db_frame (pr_db r) kv"
  shows "kv (snd (snd (Post_Update J r post w))) (loader_key j) = kv w (loader_key j) \<and>
      pr_cacheLoader (fst (snd (Post_Update J r post w))) = pr_cacheLoader r"
    and "kv (snd (snd (Post_Delete r i u w))) (loader_key j) = kv w (loader_key j) \<and>
      pr_cacheLoader (fst (snd (Post_Delete r i u w))) = pr_cacheLoader r"
proof -
  have fr: "kv w' = kv w" if "execErr (pr_db r) sql args w = (x, w')" for sql args x w'
    using execErr_frame [OF assms(4), of sql args w] that by simp
  note inv = invalidate_kv [OF assms(1-3)]
  show "kv (snd (snd (Post_Update J r post w))) (loader_key j) = kv w (loader_key j) \<and>
      pr_cacheLoader (fst (snd (Post_Update J r post w))) = pr_cacheLoader r"
    by (auto simp: Post_Update_def inv split: sum.splits prod.splits dest: fr)
  show "kv (snd (snd (Post_Delete r i u w))) (loader_key j) = kv w (loader_key j) \<and>
      pr_cacheLoader (fst (snd (Post_Delete r i u w))) = pr_cacheLoader r"
    by (auto simp: Post_Delete_def inv split: sum.splits prod.splits dest: fr)
qed

text \<open>
  C32: An update or a deletion does not reach the loader's copy: writes invalidate \<open>post:detail:<id>\<close>
  but the read path caches under \<open>post:cache:<id>\<close>, so while a copy lives there a read after the
  write that misses the local cache still returns the old post, deleted or not, without asking the
  database.
\<close>

theorem writes_leave_loader_copy:
  assumes "redis_strings R kv" "one_redis R r" "bigcache_frame (cache (hps_localCache (pr_hotPostSvc r))) kv"
    and "db_frame (pr_db r) kv"
    and "kv w (loader_key postID) = Some data" "data \<noteq> []" "unmarshalPost J data = Inr old"
    and "(res, r', w') = Post_Update J r post w \<or> (res, r', w') = Post_Delete r postID u w"
    and "LocalCache_Get J (cl_localCache (pr_cacheLoader r)) postID w' = (None, w1)" "kv w1 = kv w'"
  shows "\<exists>w2. GetOrLoad clk J (pr_cacheLoader r') postID load evs w' = Some (Inr (Some old), w2)"
proof -
  have w': "kv w1 (loader_key postID) = Some data" "pr_cacheLoader r' = pr_cacheLoader r"
    using write_kv(1) [OF assms(1-4), where J = J and post = post and w = w and j = postID]
      write_kv(2) [OF assms(1-4), where i = postID and u = u and w = w and j = postID]
      assms(5,8,10) by (metis fst_conv snd_conv)+
  have "redisGet R (loader_key postID) w1 = (Inr data, w1)"
    using assms(1) w'(1) by (simp add: redis_strings_def)
  then have "getRedisCache J (pr_cacheLoader r) postID w1 = (Some old, w1)"
    using assms(2,6,7) by (simp add: getRedisCache_def loader_key_def one_redis_def)
  with assms(9) w'(2) show ?thesis by (simp add: GetOrLoad_def lookupCaches_def)
qed

definition demo_db :: "'w post_sqlconn" where
  "demo_db = \<lparr>dbExec = (\<lambda>sql args w. (Inr \<lparr>rowsAffected = Inr 1, lastInsertId = Inr 1\<rparr>, w)),
     dbQueryInt = (\<lambda>sql args w. (Inr 1, w)),
     dbQueryPost = (\<lambda>sql args w. (Inl ErrSqlNoRows, w)),
     dbQueryPosts = (\<lambda>sql args w. (Inr [demo_post], w)),
     dbQueryComment = (\<lambda>sql args w. (Inl ErrSqlNoRows, w)),
     dbQueryComments = (\<lambda>sql args w. (Inr [], w))\<rparr>"

definition demo_repo :: "demo_world postRepository" where
  "demo_repo = NewPostRepository demo_db map_redis \<lparr>HotPostLocalCache.cache = empty_bigcache, threshold = 1000\<rparr> demo_service"

lemma demo_repo_facts:
  "one_redis map_redis demo_repo" "bigcache_frame (cache (hps_localCache (pr_hotPostSvc demo_repo))) kv"
  "db_frame (pr_db demo_repo) kv" "pr_redis demo_repo = map_redis"
  "cl_localCache (pr_cacheLoader demo_repo) = \<lparr>HotPostLocalCache.cache = empty_bigcache, threshold = 1000\<rparr>"
  by (simp_all add: one_redis_def demo_repo_def NewPostRepository_def NewCacheLoader_def demo_service_facts
      db_frame_def demo_db_def bigcache_frame_def empty_bigcache_def)

theorem writes_leave_loader_copy_witness:
  "let (res, r', w') = Post_Delete demo_repo 7 3
       \<lparr>dw_now = 0, dw_kv = [loader_key 7 \<mapsto> pair_text 7 20]\<rparr>
   in \<exists>w2. GetOrLoad dw_now demo_json (pr_cacheLoader r') 7 (\<lambda>w. (Inr None, w)) [] w' =
        Some (Inr (Some demo_post), w2)"
proof -
  let ?w = "\<lparr>dw_now = 0, dw_kv = [loader_key 7 \<mapsto> pair_text 7 20]\<rparr>"
  obtain res r' w' where d: "Post_Delete demo_repo 7 3 ?w = (res, r', w')" using prod_cases3 by blast
  have ne: "pair_text 7 20 \<noteq> []" by (simp add: pair_text_def)
  have un: "unmarshalPost demo_json (pair_text 7 20) = Inr demo_post" by (simp add: is_int64_def)
  have kv: "dw_kv ?w (loader_key 7) = Some (pair_text 7 20)" by simp
  have lc: "LocalCache_Get demo_json (cl_localCache (pr_cacheLoader demo_repo)) 7 w' = (None, w')"
    by (simp add: demo_repo_facts LocalCache_Get_empty_bigcache)
  from writes_leave_loader_copy [OF map_redis_strings demo_repo_facts(1-3) kv ne un disjI2 lc refl,
      of res r' 3 dw_now "\<lambda>w. (Inr None, w)" "[]"] d
  show ?thesis by simp
qed

section \<open>The views shown\<close>

text \<open>
  The view count of a post detail is Redis's count of recent readers alone: whenever Redis counts
  at all, the number shown is the cardinality of the post's counter at the end of the read, whatever
  the cached copy or the database has, so the views moved to the database by a sync disappear.
\<close>

theorem views_shown_are_redis:
  assumes "\<forall>w. redisPfcount (pr_redis r) (view_key i) w = (Inr (readers w), w)"
    and "GetPostDetail clk J r evs userID i w = Some (Inr (Some p), w')"
  shows "post_ViewCount p = readers w'"
  using assms
  by (auto simp: GetPostDetail_def getViewCountFromRedis_def GetRC_def Let_def
      split: option.splits sum.splits prod.splits if_splits)

definition counting_redis :: "int redis" where
  "counting_redis = down_redis\<lparr>redisPfcount := (\<lambda>k w. (Inr w, w)), redisPfadd := (\<lambda>k v w. (Inr True, w + 1))\<rparr>"

theorem views_shown_are_redis_witness:
  "\<exists>p w'. GetPostDetail (\<lambda>w. w) demo_json
      (NewPostRepository (demo_db\<lparr>dbQueryPost := (\<lambda>sql args w. (Inr demo_post, w))\<rparr>) counting_redis
         \<lparr>HotPostLocalCache.cache = empty_bigcache, threshold = 1000\<rparr> undefined) [] 8 7 41 = Some (Inr (Some p), w')
     \<and> post_ViewCount p = w' \<and> w' = 42"
proof -
  let ?r = "NewPostRepository (demo_db\<lparr>dbQueryPost := (\<lambda>sql args w. (Inr demo_post, w))\<rparr>) counting_redis
         \<lparr>HotPostLocalCache.cache = empty_bigcache, threshold = 1000\<rparr> undefined"
  have "\<exists>p. GetPostDetail (\<lambda>w. w) demo_json ?r [] 8 7 41 = Some (Inr (Some p), 42)"
    by (simp add: GetPostDetail_def NewPostRepository_def NewCacheLoader_def GetOrLoad_def lookupCaches_def
        LocalCache_Get_empty_bigcache getRedisCache_def counting_redis_def down_redis_def down_def
        getWithLock_def acquireLock_def findByIDFromDB_def demo_db_def getViewCountFromRedis_def GetRC_def
        AddRead_def Let_def demo_post_def)
  then obtain p where p: "GetPostDetail (\<lambda>w. w) demo_json ?r [] 8 7 41 = Some (Inr (Some p), 42)" ..
  from views_shown_are_redis [OF _ p, of "\<lambda>w. w"] p show ?thesis
    by (simp add: NewPostRepository_def counting_redis_def)
qed

end
