(* ===== verification/ViewCountSyncer.thy ===== *)
theory ViewCountSyncer
  imports PostRepository
begin

text \<open>
  The job that moves view counts from Redis to MySQL
  (\<open>post/internal/repository/view_count_syncer.go\<close>), every five minutes until it is stopped.
\<close>

section \<open>The syncer\<close>

record 'w ViewCountSyncer =
  vs_redis :: "'w redis"
  vs_db :: "'w post_sqlconn"
  vs_localCache :: "'w HotPostLocalCache"

definition ViewCountKeyPattern :: string where "ViewCountKeyPattern = ''post:view:*''"

definition NewViewCountSyncer ::
  "'w redis \<Rightarrow> 'w post_sqlconn \<Rightarrow> 'w HotPostLocalCache \<Rightarrow> 'w ViewCountSyncer" where
  "NewViewCountSyncer rds db lc = \<lparr>vs_redis = rds, vs_db = db, vs_localCache = lc\<rparr>"

definition syncSQL :: string where
  "syncSQL = ''UPDATE posts SET view_count = view_count + ? WHERE id = ?''"

text \<open>The loop of \<open>Sync\<close>; \<open>syncErr\<close> is the last error of the database.\<close>

fun sync_keys ::
  "json \<Rightarrow> 'w ViewCountSyncer \<Rightarrow> string list \<Rightarrow> err option \<Rightarrow> 'w \<Rightarrow> err option \<times> 'w" where
  "sync_keys J s [] syncErr w = (syncErr, w)"
| "sync_keys J s (key # keys) syncErr w =
     (case sscanf_int ''post:view:'' key of
        Inl _ \<Rightarrow> sync_keys J s keys syncErr w
      | Inr postID \<Rightarrow>
          (case redisPfcount (vs_redis s) key w of
             (Inl err, w1) \<Rightarrow> sync_keys J s keys syncErr w1
           | (Inr viewCount, w1) \<Rightarrow>
               (if viewCount = 0 then sync_keys J s keys syncErr w1
                else (case execErr (vs_db s) syncSQL [SInt viewCount, SInt postID] w1 of
                        (Inl err, w2) \<Rightarrow> sync_keys J s keys (Some err) w2
                      | (Inr _, w2) \<Rightarrow>
                          (let w3 = LocalCache_UpdateViewCount J (vs_localCache s) postID viewCount w2;
                               w4 = snd (redisDel (vs_redis s) [key] w3)
                           in sync_keys J s keys syncErr w4)))))"

definition Sync :: "json \<Rightarrow> 'w ViewCountSyncer \<Rightarrow> 'w \<Rightarrow> err option \<times> 'w" where
  "Sync J s w =
     (case redisKeys (vs_redis s) ViewCountKeyPattern w of
        (Inl err, w1) \<Rightarrow> (Some (Wrap ''failed to get view count keys'' err), w1)
      | (Inr keys, w1) \<Rightarrow>
          (if length keys = 0 then (None, w1) else sync_keys J s keys None w1))"

definition SyncSingle :: "json \<Rightarrow> 'w ViewCountSyncer \<Rightarrow> int \<Rightarrow> 'w \<Rightarrow> err option \<times> 'w" where
  "SyncSingle J s postID w =
     (let key = view_key postID
      in case redisPfcount (vs_redis s) key w of
           (Inl err, w1) \<Rightarrow> (Some (Wrap ''failed to get view count'' err), w1)
         | (Inr viewCount, w1) \<Rightarrow>
             (if viewCount = 0 then (None, w1)
              else (case execErr (vs_db s) syncSQL [SInt viewCount, SInt postID] w1 of
                      (Inl err, w2) \<Rightarrow> (Some (Wrap ''failed to update view count'' err), w2)
                    | (Inr _, w2) \<Rightarrow>
                        (let w3 = LocalCache_UpdateViewCount J (vs_localCache s) postID viewCount w2
                         in case redisDel (vs_redis s) [key] w3 of
                              (Inl err, w4) \<Rightarrow> (Some (Wrap ''failed to delete view count key'' err), w4)
                            | (Inr _, w4) \<Rightarrow> (None, w4)))))"

text \<open>
  The goroutine started by \<open>Start\<close>: it receives ticks, each after what happened outside in the
  meantime, until the stop channel is closed. The result is the world and whether it has returned.
\<close>

datatype 'w sync_event = SyncTick "'w \<Rightarrow> 'w" | SyncStop

fun sync_run :: "json \<Rightarrow> 'w ViewCountSyncer \<Rightarrow> 'w sync_event list \<Rightarrow> 'w \<Rightarrow> bool \<times> 'w" where
  "sync_run J s [] w = (False, w)"
| "sync_run J s (SyncStop # evs) w = (True, w)"
| "sync_run J s (SyncTick env # evs) w = sync_run J s evs (snd (Sync J s (env w)))"

interpretation view_loop: event_loop "sync_run J s" for J s
proof
  show "sync_run J s (xs @ ys) w = (case sync_run J s xs w of (True, w') \<Rightarrow> (True, w') | (False, w') \<Rightarrow> sync_run J s ys w')"
    for xs ys w
    by (induction J s xs w rule: sync_run.induct) simp_all
qed simp

section \<open>Views are conserved\<close>

text \<open>
  The behaviour of the services the syncer calls, over two views of the world: \<open>hll w k\<close>, the
  count of a Redis key, and \<open>col w i\<close>, the column \<open>view_count\<close> of a post. Counting and the
  update may fail, and then have no effect; deleting a key sets its count to 0.
\<close>

definition view_services ::
  "'w ViewCountSyncer \<Rightarrow> ('w \<Rightarrow> string \<Rightarrow> int) \<Rightarrow> ('w \<Rightarrow> int \<Rightarrow> int) \<Rightarrow> bool" where
  "view_services s hll col \<longleftrightarrow>
     (\<forall>k w r w'. redisPfcount (vs_redis s) k w = (r, w') \<longrightarrow>
        hll w' = hll w \<and> col w' = col w \<and> (\<forall>n. r = Inr n \<longrightarrow> n = hll w k)) \<and>
     (\<forall>n i w r w'. dbExec (vs_db s) syncSQL [SInt n, SInt i] w = (r, w') \<longrightarrow>
        hll w' = hll w \<and> (\<forall>e. r = Inl e \<longrightarrow> col w' = col w) \<and>
        (\<forall>x. r = Inr x \<longrightarrow> col w' = (col w)(i := col w i + n))) \<and>
     (\<forall>k w. \<exists>n w'. redisDel (vs_redis s) [k] w = (Inr n, w') \<and> hll w' = (hll w)(k := 0) \<and> col w' = col w) \<and>
     (\<forall>w r w'. redisKeys (vs_redis s) ViewCountKeyPattern w = (r, w') \<longrightarrow>
        hll w' = hll w \<and> col w' = col w \<and>
        (\<forall>ks. r = Inr ks \<longrightarrow> list_all (\<lambda>k. \<exists>i. is_int64 i \<and> k = view_key i) ks)) \<and>
     bigcache_frame (cache (vs_localCache s)) hll \<and> bigcache_frame (cache (vs_localCache s)) col"

definition views_of :: "('w \<Rightarrow> string \<Rightarrow> int) \<Rightarrow> ('w \<Rightarrow> int \<Rightarrow> int) \<Rightarrow> 'w \<Rightarrow> int \<Rightarrow> int" where
  "views_of hll col w i = col w i + hll w (view_key i)"

lemma view_key_eq [simp]: "view_key i = view_key j \<longleftrightarrow> i = j"
  by (simp add: view_key_def prefixed.key_eq_iff)

lemma LocalCache_UpdateViewCount_frame:
  assumes "bigcache_frame (cache c) view"
  shows "view (LocalCache_UpdateViewCount J c i v w) = view w"
proof -
  have g: "view (snd (LocalCache_Get J c i w)) = view w" for i w
    using assms by (auto simp: LocalCache_Get_def bigcache_frame_def split: sum.splits prod.splits)
      (metis snd_conv)+
  have "view (LocalCache_Set J c p w) = view w" for p w
    using assms by (auto simp: LocalCache_Set_def bigcache_frame_def split: option.splits sum.splits)
  then show ?thesis using g [of i w]
    by (auto simp: LocalCache_UpdateViewCount_def split: prod.split option.split)
qed

lemma view_servicesD:
  assumes "view_services s hll col"
  shows "redisPfcount (vs_redis s) k w = (r, w') \<Longrightarrow>
      hll w' = hll w \<and> col w' = col w \<and> (\<forall>n. r = Inr n \<longrightarrow> n = hll w k)"
    and "execErr (vs_db s) syncSQL [SInt n, SInt i] w = (x, w') \<Longrightarrow>
      hll w' = hll w \<and> col w' = (case x of Inl _ \<Rightarrow> col w | Inr _ \<Rightarrow> (col w)(i := col w i + n))"
    and "\<exists>n w'. redisDel (vs_redis s) [k] w = (Inr n, w') \<and> hll w' = (hll w)(k := 0) \<and> col w' = col w"
    and "redisKeys (vs_redis s) ViewCountKeyPattern w = (y, w') \<Longrightarrow>
      hll w' = hll w \<and> col w' = col w \<and>
      (\<forall>ks. y = Inr ks \<longrightarrow> list_all (\<lambda>k. \<exists>i. is_int64 i \<and> k = view_key i) ks)"
    and "hll (LocalCache_UpdateViewCount J (vs_localCache s) i v w) = hll w"
    and "col (LocalCache_UpdateViewCount J (vs_localCache s) i v w) = col w"
  using assms unfolding view_services_def
  by (auto simp: execErr_def LocalCache_UpdateViewCount_frame split: sum.splits prod.splits)

text \<open>One key moved: the count goes from Redis to the column.\<close>

lemma move_one:
  assumes "view_services s hll col"
    and "redisPfcount (vs_redis s) (view_key i) w = (Inr n, w1)"
    and "execErr (vs_db s) syncSQL [SInt n, SInt i] w1 = (Inr u, w2)"
  shows "views_of hll col (snd (redisDel (vs_redis s) [view_key i]
      (LocalCache_UpdateViewCount J (vs_localCache s) i n w2))) = views_of hll col w"
proof -
  note D = view_servicesD [OF assms(1)]
  let ?w3 = "LocalCache_UpdateViewCount J (vs_localCache s) i n w2"
  obtain m w4 where "redisDel (vs_redis s) [view_key i] ?w3 = (Inr m, w4)"
    "hll w4 = (hll ?w3)(view_key i := 0)" "col w4 = col ?w3"
    using D(3) by blast
  with D(1) [OF assms(2)] D(2) [OF assms(3)] D(5,6) show ?thesis
    by (auto simp: views_of_def fun_eq_iff)
qed

lemma count_frame:
  assumes "view_services s hll col" "redisPfcount (vs_redis s) k w = (r, w')"
  shows "views_of hll col w' = views_of hll col w"
  using view_servicesD(1) [OF assms] by (simp add: views_of_def fun_eq_iff)

lemma failed_exec_frame:
  assumes "view_services s hll col" "execErr (vs_db s) syncSQL [SInt n, SInt i] w = (Inl e, w')"
  shows "views_of hll col w' = views_of hll col w"
  using view_servicesD(2) [OF assms] by (simp add: views_of_def fun_eq_iff)

lemma sync_keys_conserves:
  assumes "view_services s hll col" "list_all (\<lambda>k. \<exists>i. is_int64 i \<and> k = view_key i) keys"
  shows "views_of hll col (snd (sync_keys J s keys e w)) = views_of hll col w"
  using assms(2)
proof (induction keys arbitrary: e w)
  case (Cons k keys)
  then obtain i where k: "is_int64 i" "k = view_key i" by auto
  have scan: "sscanf_int ''post:view:'' k = Inr i"
    using sscanf_int_show [OF k(1), of "''post:view:''"] k(2) by (simp add: view_key_def prefix_key_def)
  note IH = Cons.IH [OF Cons.prems [simplified, THEN conjunct2]]
  obtain r w1 where c: "redisPfcount (vs_redis s) k w = (r, w1)" by fastforce
  note c' = count_frame [OF assms(1) c]
  show ?case
  proof (cases r)
    case (Inl err)
    with scan c c' IH show ?thesis by simp
  next
    case (Inr n)
    obtain x w2 where x: "execErr (vs_db s) syncSQL [SInt n, SInt i] w1 = (x, w2)" by fastforce
    show ?thesis
    proof (cases x)
      case (Inl err)
      with scan c c' Inr x IH failed_exec_frame [OF assms(1), of n i w1] show ?thesis by simp
    next
      case (Inr u)
      with scan c c' \<open>r = Inr n\<close> x IH move_one [OF assms(1), of i w n w1 u w2 J] k(2)
      show ?thesis by simp
    qed
  qed
qed simp

lemma Sync_conserves:
  assumes "view_services s hll col"
  shows "views_of hll col (snd (Sync J s w)) = views_of hll col w"
proof -
  obtain y w1 where k: "redisKeys (vs_redis s) ViewCountKeyPattern w = (y, w1)" by fastforce
  from view_servicesD(4) [OF assms k]
  have "views_of hll col w1 = views_of hll col w"
    and "\<forall>ks. y = Inr ks \<longrightarrow> list_all (\<lambda>k. \<exists>i. is_int64 i \<and> k = view_key i) ks"
    by (simp_all add: views_of_def fun_eq_iff)
  with k sync_keys_conserves [OF assms] show ?thesis
    by (cases y) (simp_all add: Sync_def)
qed

lemma SyncSingle_conserves:
  assumes "view_services s hll col"
  shows "views_of hll col (snd (SyncSingle J s j w)) = views_of hll col w"
proof -
  obtain r w1 where c: "redisPfcount (vs_redis s) (view_key j) w = (r, w1)" by fastforce
  note c' = count_frame [OF assms c]
  show ?thesis
  proof (cases r)
    case (Inl e)
    with c c' show ?thesis by (simp add: SyncSingle_def)
  next
    case r: (Inr n)
    obtain x w2 where x: "execErr (vs_db s) syncSQL [SInt n, SInt j] w1 = (x, w2)" by fastforce
    show ?thesis
    proof (cases x)
      case (Inl e)
      with failed_exec_frame [OF assms, of n j w1] c c' r x show ?thesis by (simp add: SyncSingle_def)
    next
      case (Inr u)
      with move_one [OF assms c [unfolded r] x [unfolded Inr], of J] c c' r x show ?thesis
        by (auto simp: SyncSingle_def Let_def split: prod.splits sum.splits)
    qed
  qed
qed

lemma sync_run_loses_nothing:
  assumes "view_services s hll col"
    and "\<And>f. SyncTick f \<in> set evs \<Longrightarrow> \<forall>w i. views_of hll col w i \<le> views_of hll col (f w) i"
  shows "views_of hll col w i \<le> views_of hll col (snd (sync_run J s evs w)) i"
proof (rule view_loop.loop_inv [where P = "\<lambda>w'. views_of hll col w i \<le> views_of hll col w' i"])
  fix e v
  assume e: "e \<in> set evs" and v: "views_of hll col w i \<le> views_of hll col v i"
  show "views_of hll col w i \<le> views_of hll col (snd (sync_run J s [e] v)) i"
  proof (cases e)
    case (SyncTick f)
    from assms(2) [OF e [unfolded SyncTick]] have "views_of hll col v i \<le> views_of hll col (f v) i" by blast
    with v SyncTick show ?thesis by (simp add: Sync_conserves [OF assms(1)])
  qed (use v in simp)
qed simp

text \<open>
  The three steps of a sync are three commands, and requests go on counting views in between. Here
  \<open>arrive\<close> is what happens outside right after the count was taken.
\<close>

definition interrupted :: "('w \<Rightarrow> 'w) \<Rightarrow> 'w ViewCountSyncer \<Rightarrow> 'w ViewCountSyncer" where
  "interrupted arrive s = s\<lparr>vs_redis := (vs_redis s)\<lparr>redisPfcount :=
     (\<lambda>k w. case redisPfcount (vs_redis s) k w of (r, w1) \<Rightarrow> (r, arrive w1))\<rparr>\<rparr>"

lemma interrupted_simps [simp]:
  "redisPfcount (vs_redis (interrupted arrive s)) k w =
     (case redisPfcount (vs_redis s) k w of (r, w1) \<Rightarrow> (r, arrive w1))"
  "redisDel (vs_redis (interrupted arrive s)) = redisDel (vs_redis s)"
  "vs_db (interrupted arrive s) = vs_db s"
  "vs_localCache (interrupted arrive s) = vs_localCache s"
  by (simp_all add: interrupted_def)

definition counts_views ::
  "('w \<Rightarrow> string \<Rightarrow> int) \<Rightarrow> ('w \<Rightarrow> int \<Rightarrow> int) \<Rightarrow> int \<Rightarrow> int \<Rightarrow> ('w \<Rightarrow> 'w) \<Rightarrow> bool" where
  "counts_views hll col j d arrive \<longleftrightarrow> (\<forall>w.
     hll (arrive w) = (hll w)(view_key j := hll w (view_key j) + d) \<and> col (arrive w) = col w)"

lemma SyncSingle_window:
  assumes "view_services s hll col" "counts_views hll col j d arrive"
  shows "case SyncSingle J (interrupted arrive s) j w of (r, w') \<Rightarrow>
    views_of hll col w' j = views_of hll col w j
      + (if r = None \<and> hll w (view_key j) \<noteq> 0 then 0 else d)"
proof -
  note D = view_servicesD [OF assms(1)]
  note A = assms(2) [unfolded counts_views_def, rule_format]
  obtain r w1 where c: "redisPfcount (vs_redis s) (view_key j) w = (r, w1)" by fastforce
  note c' = D(1) [OF c]
  show ?thesis
  proof (cases r)
    case (Inl e)
    with c c' A [of w1] show ?thesis by (simp add: SyncSingle_def views_of_def)
  next
    case r: (Inr n)
    obtain x w2 where x: "execErr (vs_db s) syncSQL [SInt n, SInt j] (arrive w1) = (x, w2)" by fastforce
    let ?w3 = "LocalCache_UpdateViewCount J (vs_localCache s) j n w2"
    obtain m w4 where d: "redisDel (vs_redis s) [view_key j] ?w3 = (Inr m, w4)"
      "hll w4 = (hll ?w3)(view_key j := 0)" "col w4 = col ?w3"
      using D(3) by blast
    from c c' r A [of w1] x D(2) [OF x] d D(5,6) show ?thesis
      by (cases x; cases "n = 0") (simp_all add: SyncSingle_def views_of_def Let_def)
  qed
qed

text \<open>
  C26: Views are conserved, except in one window: whatever counting or database updates fail, a sync
  (of all posts or of one) that nothing interrupts leaves, for every post, the sum of its database
  count and its Redis count as it was, provided deleting a moved key does not fail; the goroutine of
  the syncer, over all its ticks until it is stopped and while new views come in between them, never
  lets that sum sink. Of the views that arrive while a post is synced, between the count and the
  deletion, all are lost when there was a count to move and the sync answers without an error, and
  none is lost otherwise.
\<close>

theorem sync_conserves_views:
  assumes "view_services s hll col"
    and "\<And>f. SyncTick f \<in> set evs \<Longrightarrow> \<forall>w i. views_of hll col w i \<le> views_of hll col (f w) i"
    and "counts_views hll col j d arrive"
  shows "\<forall>i. views_of hll col (snd (Sync J s w)) i = views_of hll col w i
    \<and> views_of hll col (snd (SyncSingle J s j w)) i = views_of hll col w i
    \<and> views_of hll col w i \<le> views_of hll col (snd (sync_run J s evs w)) i
    \<and> (case SyncSingle J (interrupted arrive s) j w of (r, w') \<Rightarrow>
         views_of hll col w' j = views_of hll col w j
           + (if r = None \<and> hll w (view_key j) \<noteq> 0 then 0 else d))"
  using Sync_conserves [OF assms(1)] SyncSingle_conserves [OF assms(1)] sync_run_loses_nothing [OF assms(1,2)]
    SyncSingle_window [OF assms(1,3)] by simp

text \<open>For examples: the world is the counters and the column.\<close>

definition views_redis :: "((string \<Rightarrow> int) \<times> (int \<Rightarrow> int)) redis" where
  "views_redis = down_redis\<lparr>redisPfcount := (\<lambda>k w. (Inr (fst w k), w)),
     redisDel := (\<lambda>ks w. (Inr 1, ((\<lambda>k. if k \<in> set ks then 0 else fst w k), snd w))),
     redisKeys := (\<lambda>p w. (Inr [view_key 7], w))\<rparr>"

definition views_db :: "((string \<Rightarrow> int) \<times> (int \<Rightarrow> int)) post_sqlconn" where
  "views_db = demo_db\<lparr>dbExec := (\<lambda>sql args w. case args of
       [SInt n, SInt i] \<Rightarrow> (Inr \<lparr>rowsAffected = Inr 1, lastInsertId = Inr 0\<rparr>, (fst w, (snd w)(i := snd w i + n)))
     | _ \<Rightarrow> (Inl (ErrLib ''args''), w))\<rparr>"

definition views_syncer :: "((string \<Rightarrow> int) \<times> (int \<Rightarrow> int)) ViewCountSyncer" where
  "views_syncer = NewViewCountSyncer views_redis views_db
     \<lparr>HotPostLocalCache.cache = empty_bigcache, threshold = 1000\<rparr>"

lemma views_syncer_services: "view_services views_syncer fst snd"
  by (auto simp: view_services_def views_syncer_def NewViewCountSyncer_def views_redis_def views_db_def
      bigcache_frame_def empty_bigcache_def is_int64_def intro: exI [of _ 7])

text \<open>Three viewers arrive while the five counted ones are moved: the post ends at 105, not 108.\<close>

definition three_more :: "((string \<Rightarrow> int) \<times> (int \<Rightarrow> int)) \<Rightarrow> ((string \<Rightarrow> int) \<times> (int \<Rightarrow> int))" where
  "three_more w = ((fst w)(view_key 7 := fst w (view_key 7) + 3), snd w)"

lemma three_more_counts: "counts_views fst snd 7 3 three_more"
  by (simp add: counts_views_def three_more_def)

theorem sync_conserves_views_witness:
  "views_of fst snd (snd (Sync demo_json views_syncer ((\<lambda>k. 5), (\<lambda>i. 100)))) 7 = 105
    \<and> 105 \<le> views_of fst snd (snd (sync_run demo_json views_syncer
        [SyncTick three_more, SyncStop] ((\<lambda>k. 5), (\<lambda>i. 100)))) 7
    \<and> (case SyncSingle demo_json (interrupted three_more views_syncer) 7 ((\<lambda>k. 5), (\<lambda>i. 100)) of (r, w') \<Rightarrow>
         views_of fst snd w' 7 = (if r = None then 105 else 108))"
  using sync_conserves_views [OF views_syncer_services _ three_more_counts,
      of "[SyncTick three_more, SyncStop]" demo_json "((\<lambda>k. 5), (\<lambda>i. 100))"]
  by (auto simp: views_of_def three_more_def)

end
