(* ===== verification/BloomFilter.thy ===== *)
theory BloomFilter
  imports Complex_Main PostModel
begin

text \<open>
  The filter of post identifiers (\<open>post/internal/repository/bloom_filter.go\<close>), a wrapper around
  the bits-and-blooms library that can be saved to Redis and loaded back.
\<close>

section \<open>The library\<close>

text \<open>
  The library's filter is a value of an arbitrary type \<open>'f\<close>; byte slices are strings.
  \<open>UnmarshalBinary\<close> may have changed the filter when it fails.
\<close>

record 'f bloom_lib =
  blAdd :: "string \<Rightarrow> 'f \<Rightarrow> 'f"
  blTest :: "string \<Rightarrow> 'f \<Rightarrow> bool"
  blMarshal :: "'f \<Rightarrow> string res"
  blUnmarshal :: "string \<Rightarrow> 'f \<Rightarrow> unit res \<times> 'f"
  blClear :: "'f \<Rightarrow> 'f"
  blSize :: "'f \<Rightarrow> int"
  blNew :: "int \<Rightarrow> real \<Rightarrow> 'f"

text \<open>
  The documented behaviour: what was added is found, additions never lose an element, and a saved
  filter loads back as one that answers alike.
\<close>

definition bloom_laws :: "'f bloom_lib \<Rightarrow> bool" where
  "bloom_laws L \<longleftrightarrow>
     (\<forall>x f. blTest L x (blAdd L x f)) \<and>
     (\<forall>x y f. blTest L x f \<longrightarrow> blTest L x (blAdd L y f)) \<and>
     (\<forall>f. \<exists>d. blMarshal L f = Inr d \<and> d \<noteq> [] \<and>
        (\<forall>f'. fst (blUnmarshal L d f') = Inr () \<and>
           (\<forall>x. blTest L x (snd (blUnmarshal L d f')) = blTest L x f)))"

section \<open>Operations\<close>

definition BloomFilterKey :: string where "BloomFilterKey = ''post:bloom:filter''"

record ('f, 'w) PostBloomFilter =
  pbf_filter :: 'f
  pbf_redis :: "'w redis"
  pbf_dirty :: bool

definition NewPostBloomFilter :: "'f bloom_lib \<Rightarrow> int \<Rightarrow> real \<Rightarrow> 'w redis \<Rightarrow> ('f, 'w) PostBloomFilter" where
  "NewPostBloomFilter L expectedItems falsePositiveRate rds =
     \<lparr>pbf_filter = blNew L expectedItems falsePositiveRate, pbf_redis = rds, pbf_dirty = False\<rparr>"

text \<open>\<open>binary.BigEndian.PutUint64(data, uint64(n))\<close>: eight bytes, the most significant first.\<close>

definition byte_at :: "int \<Rightarrow> nat \<Rightarrow> char" where
  "byte_at n i = char_of (nat (n div 256 ^ i mod 256))"

definition int64ToBytes :: "int \<Rightarrow> string" where
  "int64ToBytes n = map (byte_at (n mod 2 ^ 64)) [7, 6, 5, 4, 3, 2, 1, 0]"

definition Bloom_Add :: "'f bloom_lib \<Rightarrow> int \<Rightarrow> ('f, 'w) PostBloomFilter \<Rightarrow> ('f, 'w) PostBloomFilter" where
  "Bloom_Add L postID pbf =
     pbf\<lparr>pbf_filter := blAdd L (int64ToBytes postID) (pbf_filter pbf), pbf_dirty := True\<rparr>"

definition MightContain :: "'f bloom_lib \<Rightarrow> int \<Rightarrow> ('f, 'w) PostBloomFilter \<Rightarrow> bool" where
  "MightContain L postID pbf = blTest L (int64ToBytes postID) (pbf_filter pbf)"

definition AddMultiple :: "'f bloom_lib \<Rightarrow> int list \<Rightarrow> ('f, 'w) PostBloomFilter \<Rightarrow> ('f, 'w) PostBloomFilter" where
  "AddMultiple L postIDs pbf =
     pbf\<lparr>pbf_filter := fold (\<lambda>i. blAdd L (int64ToBytes i)) postIDs (pbf_filter pbf), pbf_dirty := True\<rparr>"

definition PersistToRedis ::
  "'f bloom_lib \<Rightarrow> ('f, 'w) PostBloomFilter \<Rightarrow> 'w \<Rightarrow> unit res \<times> ('f, 'w) PostBloomFilter \<times> 'w" where
  "PersistToRedis L pbf w =
     (if \<not> pbf_dirty pbf then (Inr (), pbf, w)
      else (case blMarshal L (pbf_filter pbf) of
              Inl err \<Rightarrow> (Inl (Wrap ''failed to marshal bloom filter'' err), pbf, w)
            | Inr data \<Rightarrow>
                (case redisSetex (pbf_redis pbf) BloomFilterKey data 0 w of
                   (Inl err, w') \<Rightarrow> (Inl (Wrap ''failed to persist bloom filter to redis'' err), pbf, w')
                 | (Inr _, w') \<Rightarrow> (Inr (), pbf\<lparr>pbf_dirty := False\<rparr>, w'))))"

definition LoadFromRedis ::
  "'f bloom_lib \<Rightarrow> ('f, 'w) PostBloomFilter \<Rightarrow> 'w \<Rightarrow> unit res \<times> ('f, 'w) PostBloomFilter \<times> 'w" where
  "LoadFromRedis L pbf w =
     (case redisGet (pbf_redis pbf) BloomFilterKey w of
        (Inl err, w') \<Rightarrow> (Inr (), pbf, w')
      | (Inr data, w') \<Rightarrow>
          (if data = [] then (Inr (), pbf, w')
           else (case blUnmarshal L data (pbf_filter pbf) of
                   (Inl err, f) \<Rightarrow>
                     (Inl (Wrap ''failed to unmarshal bloom filter'' err), pbf\<lparr>pbf_filter := f\<rparr>, w')
                 | (Inr _, f) \<Rightarrow> (Inr (), pbf\<lparr>pbf_filter := f\<rparr>, w'))))"

definition Bloom_Clear :: "'f bloom_lib \<Rightarrow> ('f, 'w) PostBloomFilter \<Rightarrow> ('f, 'w) PostBloomFilter" where
  "Bloom_Clear L pbf = pbf\<lparr>pbf_filter := blClear L (pbf_filter pbf), pbf_dirty := True\<rparr>"

definition Bloom_Size :: "'f bloom_lib \<Rightarrow> ('f, 'w) PostBloomFilter \<Rightarrow> int" where
  "Bloom_Size L pbf = blSize L (pbf_filter pbf)"

section \<open>Element encoding\<close>

text \<open>Distinct identifiers have distinct encodings, so only the hashing can confuse them.\<close>

definition bytes_value :: "string \<Rightarrow> int" where
  "bytes_value bs = foldl (\<lambda>acc c. acc * 256 + int (of_char c)) 0 bs"

lemma of_char_byte_at: "int (of_char (byte_at n i)) = n div 256 ^ i mod 256"
  by (simp add: byte_at_def of_char_of zmod_int)

lemma bytes_value_int64ToBytes: "bytes_value (int64ToBytes n) = n mod 2 ^ 64"
proof -
  define m where "m = n mod 2 ^ 64"
  define d where "d i = m div 256 ^ i" for i
  have b: "int (of_char (byte_at m i)) = d i mod 256" for i
    by (simp add: d_def of_char_byte_at)
  have s: "d j * 256 + d i mod 256 = d i" if "j = Suc i" for i j
  proof -
    have "d j = d i div 256"
      unfolding d_def that power_Suc2 by (rule zdiv_zmult2_eq) simp
    then show ?thesis by (simp only: div_mult_mod_eq)
  qed
  have steps: "d 7 * 256 + d 6 mod 256 = d 6" "d 6 * 256 + d 5 mod 256 = d 5"
    "d 5 * 256 + d 4 mod 256 = d 4" "d 4 * 256 + d 3 mod 256 = d 3"
    "d 3 * 256 + d 2 mod 256 = d 2" "d 2 * 256 + d 1 mod 256 = d 1" "d 1 * 256 + d 0 mod 256 = d 0"
    by (rule s; simp)+
  have "m < 2 ^ 64" "0 \<le> m" by (simp_all add: m_def)
  then have "0 \<le> d 7" "d 7 < 256" by (simp_all add: d_def pos_imp_zdiv_nonneg_iff)
  then have top: "d 7 mod 256 = d 7" by simp
  have "bytes_value (int64ToBytes n) = d 0"
    unfolding bytes_value_def int64ToBytes_def m_def [symmetric]
    by (simp only: list.map foldl.simps b top steps mult_zero_left add_0)
  then show ?thesis by (simp add: m_def d_def)
qed

lemma int64ToBytes_inj: "is_int64 m \<Longrightarrow> is_int64 n \<Longrightarrow> int64ToBytes m = int64ToBytes n \<longleftrightarrow> m = n"
proof
  assume i: "is_int64 m" "is_int64 n" and "int64ToBytes m = int64ToBytes n"
  then have "m mod 2 ^ 64 = n mod 2 ^ 64"
    using bytes_value_int64ToBytes by metis
  then have "(m + 2 ^ 63) mod 2 ^ 64 = (n + 2 ^ 63) mod 2 ^ 64"
    by (rule mod_add_cong) (rule refl)
  then have "i64 m = i64 n" by (simp only: i64_def wrap_signed_def) simp
  with i show "m = n" by simp
qed simp

section \<open>No false negatives\<close>

datatype bf_op = BAdd int | BAddMultiple "int list" | BPersist

fun bf_step where
  "bf_step L (BAdd i) (f, w) = (Bloom_Add L i f, w)"
| "bf_step L (BAddMultiple is) (f, w) = (AddMultiple L is f, w)"
| "bf_step L BPersist (f, w) = snd (PersistToRedis L f w)"

fun bf_added :: "bf_op \<Rightarrow> int list" where
  "bf_added (BAdd i) = [i]"
| "bf_added (BAddMultiple is) = is"
| "bf_added BPersist = []"

lemma test_fold_keep:
  "bloom_laws L \<Longrightarrow> blTest L x f \<Longrightarrow> blTest L x (fold (\<lambda>i. blAdd L (int64ToBytes i)) is f)"
  by (induction "is" arbitrary: f) (auto simp: bloom_laws_def)

lemma test_fold_add:
  "bloom_laws L \<Longrightarrow> i \<in> set is \<Longrightarrow> blTest L (int64ToBytes i) (fold (\<lambda>i. blAdd L (int64ToBytes i)) is f)"
proof (induction "is" arbitrary: f)
  case (Cons j js)
  show ?case
  proof (cases "i \<in> set js")
    case False
    with Cons have "blTest L (int64ToBytes i) (blAdd L (int64ToBytes j) f)"
      by (auto simp: bloom_laws_def)
    from test_fold_keep [OF Cons.prems(1) this] show ?thesis by simp
  qed (use Cons in simp)
qed simp

lemma Persist_filter: "pbf_filter (fst (snd (PersistToRedis L f w))) = pbf_filter f"
  "pbf_redis (fst (snd (PersistToRedis L f w))) = pbf_redis f"
  by (auto simp: PersistToRedis_def split: res_splits)

lemma bf_step_keeps:
  assumes "bloom_laws L" "MightContain L i (fst s)"
  shows "MightContain L i (fst (bf_step L x s))"
  using assms test_fold_keep [OF assms(1), of "int64ToBytes i" "pbf_filter (fst s)"]
  by (cases s; cases x)
    (auto simp: MightContain_def Bloom_Add_def AddMultiple_def Persist_filter bloom_laws_def)

lemma bf_step_adds:
  assumes "bloom_laws L" "i \<in> set (bf_added x)"
  shows "MightContain L i (fst (bf_step L x s))"
  using assms test_fold_add [OF assms(1), of i]
  by (cases s; cases x) (auto simp: MightContain_def Bloom_Add_def AddMultiple_def bloom_laws_def)

lemma bf_run_keeps: "bloom_laws L \<Longrightarrow> MightContain L i (fst s) \<Longrightarrow> MightContain L i (fst (fold (bf_step L) xs s))"
proof (induction xs arbitrary: s)
  case (Cons x xs)
  from Cons.IH [OF Cons.prems(1) bf_step_keeps [OF Cons.prems]] show ?case by simp
qed simp

lemma bf_run_adds: "bloom_laws L \<Longrightarrow> i \<in> set (concat (map bf_added xs)) \<Longrightarrow>
   MightContain L i (fst (fold (bf_step L) xs s))"
proof (induction xs arbitrary: s)
  case (Cons x xs)
  show ?case
  proof (cases "i \<in> set (bf_added x)")
    case True
    from bf_run_keeps [OF Cons.prems(1) bf_step_adds [OF Cons.prems(1) True]] show ?thesis by simp
  next
    case False
    with Cons show ?thesis by simp
  qed
qed simp

text \<open>
  The filter has no false negatives: after any sequence of additions and saves, failed saves
  included, every identifier that was ever added might be contained.
\<close>

theorem bloom_no_false_negatives:
  assumes "bloom_laws L" "i \<in> set (concat (map bf_added ops))"
  shows "MightContain L i (fst (fold (bf_step L) ops (f, w)))"
  by (rule bf_run_adds [OF assms])

text \<open>For examples: an exact set as the filter, saved as the concatenation of its elements.\<close>

definition encode_all :: "string list \<Rightarrow> string" where
  "encode_all xs = CHR ''!'' # concat (map (\<lambda>x. concat (map (\<lambda>c. [CHR ''a'', c]) x) @ [CHR ''b'']) xs)"

fun decode_all :: "string \<Rightarrow> string \<Rightarrow> string list" where
  "decode_all acc (a # r) = (if a = CHR ''b'' then rev acc # decode_all [] r
      else (case r of c # r' \<Rightarrow> decode_all (c # acc) r' | [] \<Rightarrow> []))"
| "decode_all acc [] = []"

lemma decode_chars:
  "decode_all acc (concat (map (\<lambda>c. [CHR ''a'', c]) x) @ CHR ''b'' # r) = (rev acc @ x) # decode_all [] r"
  by (induction x arbitrary: acc) simp_all

lemma decode_encode: "decode_all [] (tl (encode_all xs)) = xs"
proof -
  have "decode_all [] (concat (map (\<lambda>x. concat (map (\<lambda>c. [CHR ''a'', c]) x) @ [CHR ''b'']) xs)) = xs"
    by (induction xs) (simp_all add: decode_chars)
  then show ?thesis by (simp add: encode_all_def)
qed

definition list_bloom :: "string list bloom_lib" where
  "list_bloom = \<lparr>blAdd = (\<lambda>x f. x # f), blTest = (\<lambda>x f. List.member f x),
     blMarshal = (\<lambda>f. Inr (encode_all f)), blUnmarshal = (\<lambda>d f. (Inr (), decode_all [] (tl d))),
     blClear = (\<lambda>f. []), blSize = (\<lambda>f. int (length f)), blNew = (\<lambda>n p. [])\<rparr>"

lemma list_bloom_laws: "bloom_laws list_bloom"
  by (auto simp: bloom_laws_def list_bloom_def decode_encode) (simp add: encode_all_def)

theorem bloom_no_false_negatives_witness:
  "MightContain list_bloom 7
     (fst (fold (bf_step list_bloom) [BAdd 3, BAddMultiple [7, 8], BPersist]
        (NewPostBloomFilter list_bloom 100 0 down_redis, ())))"
  by (rule bloom_no_false_negatives [OF list_bloom_laws]) simp

section \<open>Saving and loading\<close>

text \<open>
  A changed filter that was saved to a working Redis loads back exactly: the loading process then
  might contain an identifier if and only if the saving one did; what the loading process had added
  itself is forgotten, loading replaces the filter.
\<close>

theorem bloom_persist_load:
  assumes "bloom_laws L" "redis_strings R kv"
    and "pbf_redis f = R" "pbf_dirty f" "pbf_redis g = R"
    and "PersistToRedis L f w = (r, f', w')"
    and "LoadFromRedis L g w' = (r', g', w'')"
  shows "r = Inr () \<and> r' = Inr () \<and> (\<forall>i. MightContain L i g' = MightContain L i f)"
proof -
  obtain d where d: "blMarshal L (pbf_filter f) = Inr d" "d \<noteq> []"
    "\<And>h. fst (blUnmarshal L d h) = Inr ()"
    "\<And>h x. blTest L x (snd (blUnmarshal L d h)) = blTest L x (pbf_filter f)"
    using assms(1) unfolding bloom_laws_def by blast
  obtain w1 where s: "redisSetex R BloomFilterKey d 0 w = (Inr (), w1)" "kv w1 = (kv w)(BloomFilterKey \<mapsto> d)"
    using assms(2) unfolding redis_strings_def by blast
  then have 1: "r = Inr ()" "w' = w1"
    using assms(3,4,6) d(1) by (simp_all add: PersistToRedis_def)
  have "redisGet R BloomFilterKey w1 = (Inr d, w1)"
    using assms(2) s(2) by (simp add: redis_strings_def)
  with 1 assms(5,7) d(2) d(3) [of "pbf_filter g"] have "r' = Inr ()" "pbf_filter g' = snd (blUnmarshal L d (pbf_filter g))"
    by (auto simp: LoadFromRedis_def split: prod.splits sum.splits)
  with 1 d(4) show ?thesis by (simp add: MightContain_def)
qed

theorem bloom_persist_load_witness:
  "let f = Bloom_Add list_bloom 7 (NewPostBloomFilter list_bloom 100 0 map_redis);
       g = Bloom_Add list_bloom 8 (NewPostBloomFilter list_bloom 100 0 map_redis);
       (r, f', w') = PersistToRedis list_bloom f \<lparr>dw_now = 0, dw_kv = Map.empty\<rparr>;
       (r', g', w'') = LoadFromRedis list_bloom g w'
   in MightContain list_bloom 7 g' \<and> MightContain list_bloom 8 g' = MightContain list_bloom 8 f"
proof -
  let ?f = "Bloom_Add list_bloom 7 (NewPostBloomFilter list_bloom 100 0 map_redis)"
  let ?g = "Bloom_Add list_bloom 8 (NewPostBloomFilter list_bloom 100 0 map_redis)"
  obtain r f' w' where p: "PersistToRedis list_bloom ?f \<lparr>dw_now = 0, dw_kv = Map.empty\<rparr> = (r, f', w')"
    using prod_cases3 by blast
  obtain r' g' w'' where l: "LoadFromRedis list_bloom ?g w' = (r', g', w'')"
    using prod_cases3 by blast
  from bloom_persist_load [OF list_bloom_laws map_redis_strings _ _ _ p l]
  have "MightContain list_bloom i g' = MightContain list_bloom i ?f" for i
    by (simp add: Bloom_Add_def NewPostBloomFilter_def)
  moreover have "MightContain list_bloom 7 ?f"
    by (simp add: MightContain_def Bloom_Add_def list_bloom_def)
  ultimately show ?thesis using p l by (simp add: Let_def)
qed

end
