(* ===== verification/Cron.thy ===== *)
theory Cron
  imports PostRepository
begin

text \<open>
  The hourly hot-post job (\<open>post/internal/cron/hot_post_calculator.go\<close>): score the posts of the last
  week, cache their details, clean the rankings. The scheduler itself is the cron library.
\<close>

section \<open>The job\<close>

text \<open>
  A loop over items that reports an error and goes on with the next; only a panic ends it. It
  returns the panic, if any, and the number of items done without error.
\<close>

fun each_ok ::
  "('s \<Rightarrow> 'a \<Rightarrow> 'w \<Rightarrow> unit res \<times> 's \<times> 'w) \<Rightarrow> 'a list \<Rightarrow> nat \<Rightarrow> 's \<Rightarrow> 'w \<Rightarrow> err option \<times> nat \<times> 's \<times> 'w" where
  "each_ok f [] n s w = (None, n, s, w)"
| "each_ok f (x # xs) n s w =
     (case f s x w of
        (Inl e, s', w') \<Rightarrow> (if is_panic e then (Some e, n, s', w') else each_ok f xs n s' w')
      | (Inr _, s', w') \<Rightarrow> each_ok f xs (Suc n) s' w')"

definition timeRanges :: "string list" where
  "timeRanges = [''hour'', ''day'', ''week'', ''month'']"

text \<open>
  \<open>Run\<close> prints its errors and returns nothing; the model returns the panic that ended it, if any,
  the counts of the two loops, the service and the world.
\<close>

definition Cron_Run ::
  "('w \<Rightarrow> int) \<Rightarrow> json \<Rightarrow> 'w postRepository \<Rightarrow> 'w HotPostService \<Rightarrow> 'w \<Rightarrow>
   err option \<times> nat \<times> nat \<times> 'w HotPostService \<times> 'w" where
  "Cron_Run clk J postRepo hotPostSvc w =
     (case GetRecentPosts postRepo 7 w of
        (Inl err, w1) \<Rightarrow> (None, 0, 0, hotPostSvc, w1)
      | (Inr posts, w1) \<Rightarrow>
          (case each_ok (UpdatePostScore clk) posts 0 hotPostSvc w1 of
             (Some e, n, s1, w2) \<Rightarrow> (Some e, n, 0, s1, w2)
           | (None, successCount, s1, w2) \<Rightarrow>
               (case each_ok (\<lambda>s post. CachePostDetail J s post 3600) posts 0 s1 w2 of
                  (Some e, m, s2, w3) \<Rightarrow> (Some e, successCount, m, s2, w3)
                | (None, cachedCount, s2, w3) \<Rightarrow>
                    (case each_ok (\<lambda>s timeRange w. case CleanupExpiredPosts clk s timeRange w of
                                     (r, w') \<Rightarrow> (r, s, w')) timeRanges 0 s2 w3 of
                       (e, _, s3, w4) \<Rightarrow> (e, successCount, cachedCount, s3, w4)))))"

section \<open>What the job leaves of the rankings\<close>

definition low_scores :: "(string \<Rightarrow> string \<rightharpoonup> int) \<Rightarrow> bool" where
  "low_scores sc \<longleftrightarrow> (\<forall>k m v. sc k m = Some v \<longrightarrow> 0 \<le> v \<and> v \<le> 1000000000)"

text \<open>
  The services of the job, over the view \<open>score\<close> of the rankings: only the sorted-set commands
  touch it, and it is later than 2001.
\<close>

definition ranking_services ::
  "('w \<Rightarrow> int) \<Rightarrow> 'w postRepository \<Rightarrow> 'w HotPostService \<Rightarrow> 'w redis \<Rightarrow> ('w \<Rightarrow> string \<Rightarrow> string \<rightharpoonup> int) \<Rightarrow> bool" where
  "ranking_services clk r s R score \<longleftrightarrow>
     hps_redis s = Some R \<and> evc_redis (hps_emptyValueCache s) = Some R \<and> redis_scores R score \<and>
     (\<forall>k v t w. \<exists>w'. redisSetex R k v t w = (Inr (), w') \<and> score w' = score w) \<and>
     (\<forall>ks w. score (snd (redisDel R ks w)) = score w) \<and>
     bigcache_frame (cache (hps_localCache s)) score \<and>
     (\<forall>k w. score (snd (redisPfcount (pr_redis r) k w)) = score w) \<and>
     (\<forall>sql args w. score (snd (dbQueryPosts (pr_db r) sql args w)) = score w) \<and>
     (\<forall>w. 1003000000 * second \<le> clk w)"

lemma zadd_all_low:
  assumes "redis_scores R score" "low_scores (score w)" "0 \<le> v" "v \<le> 1000000000"
  shows "\<exists>w'. zadd_all R keys v m w = (Inr (), w') \<and> low_scores (score w')"
  using assms(2)
proof (induction keys arbitrary: w)
  case (Cons k keys)
  obtain b w1 where z: "redisZadd R k v m w = (Inr b, w1)"
    "score w1 = (score w)(k := (score w k)(m \<mapsto> v))"
    using assms(1) unfolding redis_scores_def by blast
  with Cons.prems assms(3,4) have "low_scores (score w1)"
    by (auto simp: low_scores_def)
  with Cons.IH z(1) show ?case by simp
qed simp

definition job_inv where
  "job_inv clk r R score s w \<longleftrightarrow> ranking_services clk r s R score \<and> low_scores (score w)"

lemma UpdatePostScore_job:
  assumes "job_inv clk r R score s w" "mild (clk w) p"
  shows "\<exists>x s' w'. UpdatePostScore clk s p w = (x, s', w') \<and> job_inv clk r R score s' w' \<and>
    (case x of Inl e \<Rightarrow> \<not> is_panic e | Inr _ \<Rightarrow> True)"
proof -
  from assms(1) have R: "hps_redis s = Some R" "redis_scores R score" "low_scores (score w)"
    and S: "\<And>k v t w. \<exists>w'. redisSetex R k v t w = (Inr (), w') \<and> score w' = score w"
    by (auto simp: job_inv_def ranking_services_def)
  obtain w1 where z: "zadd_all R hot_keys (int64_of_float (CalculateScore (clk w) p * 1000)) (show_int (post_ID p)) w
      = (Inr (), w1)" "low_scores (score w1)"
    using zadd_all_low [OF R(2,3) mild_score [OF assms(2)]] by blast
  obtain w2 where x: "redisSetex R (prefix_key ''post:hot:score:'' (post_ID p))
      (sprintf_f2 (CalculateScore (clk w) p)) 3600 w1 = (Inr (), w2)" "score w2 = score w1"
    using S by blast
  obtain ok cb where al: "Allow (clk w) (hps_circuitBreaker s) = (ok, cb)" by fastforce
  from R(1) z(1) x(1) have "updatePostScoreInternal clk (s\<lparr>hps_circuitBreaker := cb\<rparr>) p w = (Inr (), w2)"
    by (simp add: updatePostScoreInternal_def Let_def)
  with al z(2) x(2) assms(1) show ?thesis
    by (cases ok) (auto simp: UpdatePostScore_def hps_Allow_def hps_Success_def job_inv_def ranking_services_def)
qed

lemma CachePostDetail_job:
  assumes "job_inv clk r R score s w" "\<forall>p. \<exists>d. marshalPost J p = Inr d"
  shows "\<exists>x s' w'. CachePostDetail J s p ttl w = (x, s', w') \<and> job_inv clk r R score s' w' \<and>
    (case x of Inl e \<Rightarrow> \<not> is_panic e | Inr _ \<Rightarrow> True)"
proof -
  from assms(1) have R: "hps_redis s = Some R" "evc_redis (hps_emptyValueCache s) = Some R"
    "bigcache_frame (cache (hps_localCache s)) score"
    and S: "\<And>k v t w. \<exists>w'. redisSetex R k v t w = (Inr (), w') \<and> score w' = score w"
    and D: "\<And>ks w. score (snd (redisDel R ks w)) = score w"
    by (auto simp: job_inv_def ranking_services_def)
  define w1 where "w1 = (if ShouldCache (hps_localCache s) (post_ViewCount p)
                then LocalCache_Set J (hps_localCache s) (Some p) w else w)"
  have w1: "score w1 = score w"
    using R(3) by (auto simp: w1_def LocalCache_Set_def bigcache_frame_def split: sum.splits)
  obtain y c' w2 where rm: "RemoveEmptyCache (post_ID p) (hps_emptyValueCache s) w1 = (y, c', w2)"
    using prod_cases3 by blast
  have c': "evc_redis c' = Some R" "score w2 = score w1"
    using rm R(2) D [of "[getEmptyKey (post_ID p)]" w1]
    by (auto simp: RemoveEmptyCache_def Let_def split: sum.splits prod.splits)
  obtain d w3 where d: "marshalPost J p = Inr d"
    and x: "redisSetex R (detail_key (post_ID p)) d ttl w2 = (Inr (), w3)" "score w3 = score w2"
    using assms(2) S by blast
  from R(1) rm d x(1) have "CachePostDetail J s p ttl w = (Inr (), s\<lparr>hps_emptyValueCache := c'\<rparr>, w3)"
    by (simp add: CachePostDetail_def w1_def [symmetric] Let_def)
  with assms(1) c' w1 x(2) show ?thesis by (simp add: job_inv_def ranking_services_def)
qed

lemma each_ok_inv:
  assumes "\<And>s x w. x \<in> set xs \<Longrightarrow> P s w \<Longrightarrow> \<exists>y s' w'. f s x w = (y, s', w') \<and> P s' w' \<and>
    (case y of Inl e \<Rightarrow> \<not> is_panic e | Inr _ \<Rightarrow> True)"
    and "P s w"
  shows "\<exists>n' s' w'. each_ok f xs n s w = (None, n', s', w') \<and> P s' w'"
  using assms
proof (induction xs arbitrary: n s w)
  case (Cons x xs)
  from Cons.prems(1) [of x s w] Cons.prems(2) obtain y s' w' where
    y: "f s x w = (y, s', w')" "P s' w'" "case y of Inl e \<Rightarrow> \<not> is_panic e | Inr _ \<Rightarrow> True"
    by auto
  have "\<exists>n' s'' w''. each_ok f xs k s' w' = (None, n', s'', w'') \<and> P s'' w''" for k
    by (rule Cons.IH [OF Cons.prems(1) y(2)]) simp_all
  with y show ?case by (cases y) simp_all
qed simp

lemma Cleanup_job:
  assumes "job_inv clk r R score s w"
  shows "\<exists>w'. CleanupExpiredPosts clk s tr w = (Inr (), w') \<and> job_inv clk r R score s w' \<and>
    score w' (getTimeRangeKey tr) = Map.empty \<and> (\<forall>k. score w k = Map.empty \<longrightarrow> score w' k = Map.empty)"
proof -
  let ?cut = "(clk w - retentionHours tr * 3600 * second) div second"
  from assms have R: "hps_redis s = Some R" "redis_scores R score" "low_scores (score w)"
    "1003000000 * second \<le> clk w"
    by (auto simp: job_inv_def ranking_services_def)
  have "retentionHours tr \<le> 720" by (simp add: retentionHours_def)
  from cutoff_large [OF R(4) this] have cut: "1000000000 \<le> ?cut" .
  have "\<exists>n w'. redisZremrangebyscore R (getTimeRangeKey tr) 0 ?cut w = (Inr n, w') \<and>
     score w' = (score w)(getTimeRangeKey tr := (\<lambda>m. case score w (getTimeRangeKey tr) m of
        None \<Rightarrow> None | Some v \<Rightarrow> if 0 \<le> v \<and> v \<le> ?cut then None else Some v))"
    using R(2) by (simp add: redis_scores_def)
  then obtain n w' where z: "redisZremrangebyscore R (getTimeRangeKey tr) 0 ?cut w = (Inr n, w')"
    "score w' = (score w)(getTimeRangeKey tr := (\<lambda>m. case score w (getTimeRangeKey tr) m of
        None \<Rightarrow> None | Some v \<Rightarrow> if 0 \<le> v \<and> v \<le> ?cut then None else Some v))"
    by blast
  have "(case score w (getTimeRangeKey tr) m of
        None \<Rightarrow> None | Some v \<Rightarrow> if 0 \<le> v \<and> v \<le> ?cut then None else Some v) = None" for m
    using R(3) cut by (auto simp: low_scores_def split: option.split dest: order_trans)
  with z(2) have sc: "score w' = (score w)(getTimeRangeKey tr := Map.empty)"
    by (simp only:)
  with R(3) have "low_scores (score w')" by (auto simp: low_scores_def)
  with assms sc have "job_inv clk r R score s w'" by (simp add: job_inv_def)
  with R(1) z(1) sc show ?thesis by (simp add: CleanupExpiredPosts_def Let_def)
qed


definition job_redis :: "(int \<times> (string \<Rightarrow> string \<rightharpoonup> int)) redis" where
  "job_redis = scored_redis\<lparr>redisSetex := (\<lambda>k v t w. (Inr (), w))\<rparr>"

definition job_cache :: "'w HotPostLocalCache" where
  "job_cache = \<lparr>HotPostLocalCache.cache = empty_bigcache, threshold = 1000\<rparr>"

definition job_service :: "(int \<times> (string \<Rightarrow> string \<rightharpoonup> int)) HotPostService" where
  "job_service = NewHotPostService (Some job_redis) job_cache"

definition job_repo :: "(int \<times> (string \<Rightarrow> string \<rightharpoonup> int)) postRepository" where
  "job_repo = NewPostRepository demo_db job_redis job_cache job_service"

definition job_clk :: "'w \<Rightarrow> int" where
  "job_clk w = 1700000000 * second"

lemma job_ranking_services: "ranking_services job_clk job_repo job_service job_redis snd"
proof -
  have "redis_scores job_redis snd"
    using scored_redis_scores by (simp add: job_redis_def redis_scores_def)
  then show ?thesis
    by (simp add: ranking_services_def job_service_def job_repo_def NewPostRepository_def NewHotPostService_def
        NewEmptyValueCache_def bigcache_frame_def job_cache_def empty_bigcache_def demo_db_def job_clk_def second_def)
      (simp add: job_redis_def scored_redis_def down_redis_def down_def)
qed


end
