(* ===== verification/PostLogic.thy ===== *)
theory PostLogic
  imports ViewCountSyncer BloomFilter Cron
begin

text \<open>
  The RPC handlers of the post service (\<open>post/internal/logic\<close>, \<open>post/internal/server\<close>) and their
  service context (\<open>post/internal/svc\<close>). Request and response messages are records with the fields
  the handlers use. A response returned beside an error is a pair.
\<close>

section \<open>Messages\<close>

record PostInfo =
  pi_Id :: int
  pi_UserId :: int
  pi_CommunityId :: int
  pi_Username :: string
  pi_Title :: string
  pi_Content :: string
  pi_Tags :: "string list"
  pi_LikeCount :: int
  pi_CommentCount :: int
  pi_ViewCount :: int
  pi_CreatedAt :: int
  pi_UpdatedAt :: int

record CommentInfo =
  ci_Id :: int
  ci_PostId :: int
  ci_UserId :: int
  ci_Username :: string
  ci_Content :: string
  ci_ParentId :: int
  ci_CreatedAt :: int
  ci_UpdatedAt :: int

record CreatePostRequest =
  cp_UserId :: int
  cp_CommunityId :: int
  cp_Title :: string
  cp_Content :: string
  cp_Tags :: "string list"

record UpdatePostRequest =
  up_PostId :: int
  up_UserId :: int
  up_Title :: string
  up_Content :: string
  up_Tags :: "string list"

record ListPostsRequest =
  lp_Page :: int
  lp_PageSize :: int
  lp_CommunityId :: int
  lp_Tag :: string

record CreateCommentRequest =
  cc_PostId :: int
  cc_UserId :: int
  cc_Content :: string
  cc_ParentId :: int

section \<open>The service context\<close>

text \<open>
  The context, the repository and the cron job share one hot-post service; it lives in the
  repository record here.
\<close>

record ('f, 'w) PostSvc =
  svc_PostRepo :: "'w postRepository"
  svc_CommentRepo :: "'w commentRepository"
  svc_BloomFilter :: "('f, 'w) PostBloomFilter"
  svc_ViewCountSync :: "'w ViewCountSyncer option"

definition svc_HotPostSvc :: "('f, 'w) PostSvc \<Rightarrow> 'w HotPostService" where
  "svc_HotPostSvc s = pr_hotPostSvc (svc_PostRepo s)"

record PostConfig =
  HotPostCacheTTL :: int
  HotPostMaxEntries :: int
  HotPostThreshold :: int
  ExpectedItems :: int
  FalsePositiveRate :: real

text \<open>The wiring, from an opened database and a connected Redis on.\<close>

definition NewServiceContext ::
  "'f bloom_lib \<Rightarrow> (int \<Rightarrow> 'w \<Rightarrow> 'w bigcache res \<times> 'w) \<Rightarrow> PostConfig \<Rightarrow> 'w post_sqlconn \<Rightarrow> 'w redis \<Rightarrow> 'w \<Rightarrow>
   ('f, 'w) PostSvc res \<times> 'w" where
  "NewServiceContext L newBigCache c sqlConn redisClient w =
     (case NewHotPostLocalCache newBigCache (HotPostMaxEntries c) (seconds (HotPostCacheTTL c)) (HotPostThreshold c) w of
        (Inl e, w') \<Rightarrow> (Inl e, w')
      | (Inr hotPostCache, w') \<Rightarrow>
          (let hotPostSvc = NewHotPostService (Some redisClient) hotPostCache;
               bloomFilter = NewPostBloomFilter L (ExpectedItems c) (FalsePositiveRate c) redisClient;
               postRepo = NewPostRepository sqlConn redisClient hotPostCache hotPostSvc;
               viewCountSyncer = NewViewCountSyncer redisClient sqlConn hotPostCache
           in (Inr \<lparr>svc_PostRepo = postRepo, svc_CommentRepo = NewCommentRepository sqlConn,
                    svc_BloomFilter = bloomFilter, svc_ViewCountSync = Some viewCountSyncer\<rparr>, w')))"

fun warm_posts :: "json \<Rightarrow> 'w HotPostService \<Rightarrow> Post list \<Rightarrow> 'w \<Rightarrow> 'w" where
  "warm_posts J s [] w = w"
| "warm_posts J s (post # posts) w =
     (if ShouldCachePost s (post_ViewCount post) then warm_posts J s posts (CachePost J s post w)
      else warm_posts J s posts w)"

definition WarmupCache :: "json \<Rightarrow> ('f, 'w) PostSvc \<Rightarrow> 'w \<Rightarrow> unit res \<times> 'w" where
  "WarmupCache J s w =
     (case GetRecentPosts (svc_PostRepo s) 7 w of
        (Inl err, w1) \<Rightarrow> (Inl err, w1)
      | (Inr posts, w1) \<Rightarrow> (Inr (), warm_posts J (svc_HotPostSvc s) posts w1))"

section \<open>Posts\<close>

definition postInfo :: "Post \<Rightarrow> string list \<Rightarrow> PostInfo" where
  "postInfo p tags =
     \<lparr>pi_Id = post_ID p, pi_UserId = post_UserID p, pi_CommunityId = post_CommunityID p,
      pi_Username = post_Username p, pi_Title = post_Title p, pi_Content = post_Content p,
      pi_Tags = tags, pi_LikeCount = post_LikeCount p, pi_CommentCount = post_CommentCount p,
      pi_ViewCount = post_ViewCount p, pi_CreatedAt = post_CreatedAt p, pi_UpdatedAt = post_UpdatedAt p\<rparr>"

definition commentInfo :: "Comment \<Rightarrow> CommentInfo" where
  "commentInfo c =
     \<lparr>ci_Id = comment_ID c, ci_PostId = comment_PostID c, ci_UserId = comment_UserID c,
      ci_Username = comment_Username c, ci_Content = comment_Content c, ci_ParentId = comment_ParentID c,
      ci_CreatedAt = comment_CreatedAt c, ci_UpdatedAt = comment_UpdatedAt c\<rparr>"

text \<open>\<open>time.Now().Unix()\<close>\<close>

definition unix_now :: "('w \<Rightarrow> int) \<Rightarrow> 'w \<Rightarrow> int" where
  "unix_now clk w = clk w div second"

text \<open>The response has no username: the code does not copy it, and the post has none.\<close>

definition CreatePost ::
  "('w \<Rightarrow> int) \<Rightarrow> json \<Rightarrow> 'f bloom_lib \<Rightarrow> ('w \<Rightarrow> int res \<times> 'w) \<Rightarrow> ('f, 'w) PostSvc \<Rightarrow> CreatePostRequest \<Rightarrow> 'w \<Rightarrow>
   PostInfo res \<times> ('f, 'w) PostSvc \<times> 'w" where
  "CreatePost clk J L nextID s req w =
     (case marshalStrings J (cp_Tags req) of
        Inl err \<Rightarrow> (Inl err, s, w)
      | Inr tagsJSON \<Rightarrow>
          (let now = unix_now clk w;
               post = \<lparr>post_ID = 0, post_UserID = cp_UserId req, post_CommunityID = cp_CommunityId req,
                       post_Username = [], post_Title = cp_Title req, post_Content = cp_Content req,
                       post_Tags = tagsJSON, post_LikeCount = 0, post_CommentCount = 0, post_ViewCount = 0,
                       post_Status = 2, post_CreatedAt = now, post_UpdatedAt = now\<rparr>
           in case Post_Create J nextID (svc_PostRepo s) post w of
                ((i, Some err, post'), w1) \<Rightarrow> (Inl err, s, w1)
              | ((i, None, post'), w1) \<Rightarrow>
                  (let post'' = post'\<lparr>post_ID := i\<rparr>;
                       s' = s\<lparr>svc_BloomFilter := Bloom_Add L i (svc_BloomFilter s)\<rparr>
                   in (Inr ((postInfo post'' (cp_Tags req))\<lparr>pi_Username := []\<rparr>), s', w1))))"

definition GetPost ::
  "('w \<Rightarrow> int) \<Rightarrow> json \<Rightarrow> 'f bloom_lib \<Rightarrow> (wait_event \<times> ('w \<Rightarrow> 'w)) list \<Rightarrow> ('f, 'w) PostSvc \<Rightarrow> int \<Rightarrow> int \<Rightarrow> 'w \<Rightarrow>
   ((PostInfo \<times> CommentInfo list) res \<times> 'w) option" where
  "GetPost clk J L evs s postId userId w =
     (if \<not> MightContain L postId (svc_BloomFilter s) then Some (Inl ErrLogicPostNotFound, w)
      else (case GetPostDetail clk J (svc_PostRepo s) evs userId postId w of
              None \<Rightarrow> None
            | Some (Inl err, w1) \<Rightarrow> Some (Inl err, w1)
            | Some (Inr None, w1) \<Rightarrow> Some (Inl ErrLogicPostNotFound, w1)
            | Some (Inr (Some post), w1) \<Rightarrow>
                (let tags = (case unmarshalStrings J (post_Tags post) of Inl _ \<Rightarrow> [] | Inr ts \<Rightarrow> ts)
                 in case ListByPostID (svc_CommentRepo s) postId w1 of
                      (r, w2) \<Rightarrow>
                        (let comments = (case r of Inl _ \<Rightarrow> [] | Inr cs \<Rightarrow> cs)
                         in Some (Inr (postInfo post tags, map commentInfo comments), w2)))))"

text \<open>The first post whose tags do not decode fails the whole list.\<close>

fun postInfos :: "json \<Rightarrow> Post list \<Rightarrow> PostInfo list res" where
  "postInfos J [] = Inr []"
| "postInfos J (post # posts) =
     (case unmarshalStrings J (post_Tags post) of
        Inl err \<Rightarrow> Inl err
      | Inr tags \<Rightarrow>
          (case postInfos J posts of Inl err \<Rightarrow> Inl err | Inr infos \<Rightarrow> Inr (postInfo post tags # infos)))"

definition ListPosts ::
  "json \<Rightarrow> ('f, 'w) PostSvc \<Rightarrow> ListPostsRequest \<Rightarrow> 'w \<Rightarrow> (PostInfo list \<times> int) res \<times> 'w" where
  "ListPosts J s req w =
     (case Post_List (svc_PostRepo s) (lp_Page req) (lp_PageSize req) (lp_CommunityId req) (lp_Tag req) w of
        (Inl err, w1) \<Rightarrow> (Inl err, w1)
      | (Inr (posts, tot), w1) \<Rightarrow>
          (case postInfos J posts of Inl err \<Rightarrow> (Inl err, w1) | Inr infos \<Rightarrow> (Inr (infos, tot), w1)))"

definition ListUserPosts ::
  "json \<Rightarrow> ('f, 'w) PostSvc \<Rightarrow> int \<Rightarrow> int \<Rightarrow> int \<Rightarrow> 'w \<Rightarrow> (PostInfo list \<times> int) res \<times> 'w" where
  "ListUserPosts J s userId page pageSize w =
     (case ListByUserID (svc_PostRepo s) userId page pageSize w of
        (Inl err, w1) \<Rightarrow> (Inl err, w1)
      | (Inr (posts, tot), w1) \<Rightarrow>
          (case postInfos J posts of Inl err \<Rightarrow> (Inl err, w1) | Inr infos \<Rightarrow> (Inr (infos, tot), w1)))"

text \<open>A missing post is a \<open>nil\<close> response without an error: \<open>Inr None\<close>.\<close>

definition UpdatePost ::
  "('w \<Rightarrow> int) \<Rightarrow> json \<Rightarrow> ('f, 'w) PostSvc \<Rightarrow> UpdatePostRequest \<Rightarrow> 'w \<Rightarrow>
   PostInfo option res \<times> ('f, 'w) PostSvc \<times> 'w" where
  "UpdatePost clk J s req w =
     (case Post_FindByID (svc_PostRepo s) (up_PostId req) w of
        (Inl err, w1) \<Rightarrow> (Inl err, s, w1)
      | (Inr None, w1) \<Rightarrow> (Inr None, s, w1)
      | (Inr (Some post), w1) \<Rightarrow>
          (case marshalStrings J (up_Tags req) of
             Inl err \<Rightarrow> (Inl err, s, w1)
           | Inr tagsJSON \<Rightarrow>
               (let post' = post\<lparr>post_Title := up_Title req, post_Content := up_Content req,
                                 post_Tags := tagsJSON, post_UpdatedAt := unix_now clk w1\<rparr>
                in case Post_Update J (svc_PostRepo s) post' w1 of
                     (Inl err, repo, w2) \<Rightarrow> (Inl err, s\<lparr>svc_PostRepo := repo\<rparr>, w2)
                   | (Inr _, repo, w2) \<Rightarrow>
                       (Inr (Some (postInfo post' (up_Tags req))), s\<lparr>svc_PostRepo := repo\<rparr>, w2))))"

definition DeletePost ::
  "('f, 'w) PostSvc \<Rightarrow> int \<Rightarrow> int \<Rightarrow> 'w \<Rightarrow> (bool \<times> err option) \<times> ('f, 'w) PostSvc \<times> 'w" where
  "DeletePost s postId userId w =
     (case Post_Delete (svc_PostRepo s) postId userId w of
        (Inl err, repo, w1) \<Rightarrow> ((False, Some err), s\<lparr>svc_PostRepo := repo\<rparr>, w1)
      | (Inr _, repo, w1) \<Rightarrow> ((True, None), s\<lparr>svc_PostRepo := repo\<rparr>, w1))"

definition IncrementViewCount :: "('f, 'w) PostSvc \<Rightarrow> int \<Rightarrow> 'w \<Rightarrow> (bool \<times> err option) \<times> 'w" where
  "IncrementViewCount s postId w =
     (case Post_IncrementViewCount (svc_PostRepo s) postId w of
        (Inl err, w1) \<Rightarrow> ((False, Some err), w1)
      | (Inr _, w1) \<Rightarrow> ((True, None), w1))"

section \<open>Comments\<close>

definition CreateComment ::
  "('w \<Rightarrow> int) \<Rightarrow> ('f, 'w) PostSvc \<Rightarrow> CreateCommentRequest \<Rightarrow> 'w \<Rightarrow> CommentInfo res \<times> 'w" where
  "CreateComment clk s req w =
     (let now = unix_now clk w;
          comment = \<lparr>comment_ID = 0, comment_PostID = cc_PostId req, comment_UserID = cc_UserId req,
                     comment_Username = [], comment_Content = cc_Content req,
                     comment_ParentID = cc_ParentId req, comment_Status = 0,
                     comment_CreatedAt = now, comment_UpdatedAt = now\<rparr>
      in case Comment_Create (svc_CommentRepo s) comment w of
           (Inl err, w1) \<Rightarrow> (Inl err, w1)
         | (Inr i, w1) \<Rightarrow>
             (case IncrementCommentCount (svc_PostRepo s) (cc_PostId req) w1 of
                (Inl err, w2) \<Rightarrow> (Inl err, w2)
              | (Inr _, w2) \<Rightarrow> (Inr (commentInfo (comment\<lparr>comment_ID := i\<rparr>)), w2)))"

definition DeleteComment ::
  "('f, 'w) PostSvc \<Rightarrow> int \<Rightarrow> int \<Rightarrow> 'w \<Rightarrow> (bool \<times> err option) \<times> 'w" where
  "DeleteComment s commentId userId w =
     (case Comment_FindByID (svc_CommentRepo s) commentId w of
        (Inl err, w1) \<Rightarrow> ((False, Some err), w1)
      | (Inr None, w1) \<Rightarrow> ((False, None), w1)
      | (Inr (Some comment), w1) \<Rightarrow>
          (case Comment_Delete (svc_CommentRepo s) commentId userId w1 of
             (Inl err, w2) \<Rightarrow> ((False, Some err), w2)
           | (Inr _, w2) \<Rightarrow>
               (case DecrementCommentCount (svc_PostRepo s) (comment_PostID comment) w2 of
                  (Inl err, w3) \<Rightarrow> ((False, Some err), w3)
                | (Inr _, w3) \<Rightarrow> ((True, None), w3))))"

section \<open>The server\<close>

datatype post_rpc =
    RpcCreatePost CreatePostRequest
  | RpcGetPost int int
  | RpcListPosts ListPostsRequest
  | RpcListUserPosts int int int
  | RpcUpdatePost UpdatePostRequest
  | RpcDeletePost int int
  | RpcCreateComment CreateCommentRequest
  | RpcDeleteComment int int
  | RpcIncrementViewCount int

datatype post_reply =
    RepPost "PostInfo option res"
  | RepDetail "(PostInfo \<times> CommentInfo list) res"
  | RepList "(PostInfo list \<times> int) res"
  | RepSuccess "bool \<times> err option"
  | RepComment "CommentInfo res"

text \<open>
  The methods of \<open>PostServer\<close>: each makes the logic object of its call and runs it. \<open>None\<close> is a
  call still waiting for the loader.
\<close>

fun PostServer ::
  "('w \<Rightarrow> int) \<Rightarrow> json \<Rightarrow> 'f bloom_lib \<Rightarrow> ('w \<Rightarrow> int res \<times> 'w) \<Rightarrow> (wait_event \<times> ('w \<Rightarrow> 'w)) list \<Rightarrow>
   post_rpc \<Rightarrow> ('f, 'w) PostSvc \<Rightarrow> 'w \<Rightarrow> (post_reply \<times> ('f, 'w) PostSvc \<times> 'w) option" where
  "PostServer clk J L nextID evs (RpcCreatePost req) s w =
     (case CreatePost clk J L nextID s req w of
        (r, s', w') \<Rightarrow> Some (RepPost (case r of Inl e \<Rightarrow> Inl e | Inr p \<Rightarrow> Inr (Some p)), s', w'))"
| "PostServer clk J L nextID evs (RpcGetPost i u) s w =
     (case GetPost clk J L evs s i u w of None \<Rightarrow> None | Some (r, w') \<Rightarrow> Some (RepDetail r, s, w'))"
| "PostServer clk J L nextID evs (RpcListPosts req) s w =
     (case ListPosts J s req w of (r, w') \<Rightarrow> Some (RepList r, s, w'))"
| "PostServer clk J L nextID evs (RpcListUserPosts u p n) s w =
     (case ListUserPosts J s u p n w of (r, w') \<Rightarrow> Some (RepList r, s, w'))"
| "PostServer clk J L nextID evs (RpcUpdatePost req) s w =
     (case UpdatePost clk J s req w of (r, s', w') \<Rightarrow> Some (RepPost r, s', w'))"
| "PostServer clk J L nextID evs (RpcDeletePost i u) s w =
     (case DeletePost s i u w of (r, s', w') \<Rightarrow> Some (RepSuccess r, s', w'))"
| "PostServer clk J L nextID evs (RpcCreateComment req) s w =
     (case CreateComment clk s req w of (r, w') \<Rightarrow> Some (RepComment r, s, w'))"
| "PostServer clk J L nextID evs (RpcDeleteComment i u) s w =
     (case DeleteComment s i u w of (r, w') \<Rightarrow> Some (RepSuccess r, s, w'))"
| "PostServer clk J L nextID evs (RpcIncrementViewCount i) s w =
     (case IncrementViewCount s i w of (r, w') \<Rightarrow> Some (RepSuccess r, s, w'))"

section \<open>The filter in front of the posts\<close>

lemma CreatePost_bloom:
  assumes "CreatePost clk J L nextID s req w = (Inr info, s', w')"
  shows "svc_BloomFilter s' = Bloom_Add L (pi_Id info) (svc_BloomFilter s)"
  using assms
  by (auto simp: CreatePost_def postInfo_def Let_def split: sum.splits prod.splits option.splits)


definition demo_cfg :: PostConfig where
  "demo_cfg = \<lparr>HotPostCacheTTL = 300, HotPostMaxEntries = 1000, HotPostThreshold = 1000,
     ExpectedItems = 100, FalsePositiveRate = 1 / 100\<rparr>"

definition ok_redis :: "'w redis" where
  "ok_redis = down_redis\<lparr>redisEval := (\<lambda>sc ks args w. (Inr (ReplyInt 1), w)), redisDel := (\<lambda>ks w. (Inr 0, w))\<rparr>"

definition demo_req :: CreatePostRequest where
  "demo_req = \<lparr>cp_UserId = 3, cp_CommunityId = 1, cp_Title = ''t'', cp_Content = ''c'', cp_Tags = []\<rparr>"

definition demo_ctx :: "'w post_sqlconn \<Rightarrow> (string list, 'w) PostSvc" where
  "demo_ctx db = (let lc = \<lparr>HotPostLocalCache.cache = empty_bigcache, threshold = 1000\<rparr> in
     \<lparr>svc_PostRepo = NewPostRepository db ok_redis lc (NewHotPostService (Some ok_redis) lc),
      svc_CommentRepo = NewCommentRepository db,
      svc_BloomFilter = NewPostBloomFilter list_bloom 100 (1 / 100) ok_redis,
      svc_ViewCountSync = Some (NewViewCountSyncer ok_redis db lc)\<rparr>)"

lemma demo_ctx_new:
  "NewServiceContext list_bloom (\<lambda>ttl w. (Inr empty_bigcache, w)) demo_cfg db ok_redis w = (Inr (demo_ctx db), w)"
  by (simp add: NewServiceContext_def NewHotPostLocalCache_def demo_cfg_def demo_ctx_def Let_def)

lemma demo_ctx_create:
  assumes "\<And>args w. dbExec db insertPostSQL args w = (Inr \<lparr>rowsAffected = Inr 1, lastInsertId = Inr 1\<rparr>, upd args w)"
  shows "CreatePost clk demo_json L (\<lambda>w. (Inr 99, w)) (demo_ctx db) demo_req w =
    (Inr (postInfo \<lparr>post_ID = 99, post_UserID = 3, post_CommunityID = 1, post_Username = [], post_Title = ''t'',
       post_Content = ''c'', post_Tags = ''[]'', post_LikeCount = 0, post_CommentCount = 0, post_ViewCount = 0,
       post_Status = 2, post_CreatedAt = unix_now clk w, post_UpdatedAt = unix_now clk w\<rparr> []),
     (demo_ctx db)\<lparr>svc_BloomFilter := Bloom_Add L 99 (svc_BloomFilter (demo_ctx db))\<rparr>,
     upd [SInt 99, SInt 3, SInt 1, SStr [], SStr ''t'', SStr ''c'', SStr (CHR 0x22 # ''[]'' @ [CHR 0x22]), SInt 2,
       STime (unix_now clk w), STime (unix_now clk w)] w)"
  by (simp add: CreatePost_def Post_Create_def demo_json_def demo_req_def demo_ctx_def NewPostRepository_def assms
      AddWhenCreate_def evalErr_def ok_redis_def postInfo_def Let_def)


section \<open>Who may write\<close>

text \<open>
  UpdatePost does not look at its caller: the response, the statement sent to the database and
  every cache operation are the same for every UserId in the request, and the statement is bound to
  the owner the post has, so any user edits any post.
\<close>

theorem update_ignores_caller:
  "UpdatePost clk J s (req\<lparr>up_UserId := u\<rparr>) w = UpdatePost clk J s req w
   \<and> (\<forall>post w1 d. Post_FindByID (svc_PostRepo s) (up_PostId req) w = (Inr (Some post), w1)
        \<longrightarrow> marshalStrings J (up_Tags req) = Inr d
        \<longrightarrow> snd (snd (UpdatePost clk J s req w)) =
            snd (snd (Post_Update J (svc_PostRepo s)
              (post\<lparr>post_Title := up_Title req, post_Content := up_Content req, post_Tags := d,
                 post_UpdatedAt := unix_now clk w1\<rparr>) w1)))"
  by (auto simp: UpdatePost_def Let_def split: sum.splits prod.splits option.splits)

theorem update_ignores_caller_witness:
  "UpdatePost (\<lambda>w. w) demo_json (demo_ctx demo_db)
     (\<lparr>up_PostId = 7, up_UserId = 3, up_Title = ''t'', up_Content = ''c'', up_Tags = []\<rparr>\<lparr>up_UserId := 8\<rparr>) (0 :: int) =
   UpdatePost (\<lambda>w. w) demo_json (demo_ctx demo_db)
     \<lparr>up_PostId = 7, up_UserId = 3, up_Title = ''t'', up_Content = ''c'', up_Tags = []\<rparr> 0"
  by (rule update_ignores_caller [THEN conjunct1])

text \<open>
  The tables as views of the world: \<open>comments\<close> and the column \<open>comment_count\<close>, with the
  statements the comment handlers send.
\<close>

definition comment_tables ::
  "'w post_sqlconn \<Rightarrow> ('w \<Rightarrow> int \<rightharpoonup> Comment) \<Rightarrow> ('w \<Rightarrow> int \<Rightarrow> int) \<Rightarrow> bool" where
  "comment_tables db comments counts \<longleftrightarrow>
     (\<forall>i w. dbQueryComment db selectCommentSQL [SInt i] w =
        (case comments w i of None \<Rightarrow> Inl ErrSqlNoRows | Some c \<Rightarrow> Inr c, w)) \<and>
     (\<forall>i u w. \<exists>r w'. dbExec db deleteCommentSQL [SInt i, SInt u] w = (Inr r, w') \<and> counts w' = counts w \<and>
        comments w' = (case comments w i of None \<Rightarrow> comments w
          | Some c \<Rightarrow> if comment_UserID c = u then (comments w)(i := None) else comments w)) \<and>
     (\<forall>p w. \<exists>r w'. dbExec db decrCommentSQL [SInt p] w = (Inr r, w') \<and> comments w' = comments w \<and>
        counts w' = (counts w)(p := max (counts w p - 1) 0))"

text \<open>
  Deleting a comment answers success and lowers the post's comment count for whoever asks: the
  row goes only if the caller wrote it, so a stranger's request leaves the comment in place and the
  count one too low.
\<close>

theorem foreign_delete_skews_count:
  assumes "comment_tables db comments counts" "cr_db (svc_CommentRepo s) = db" "pr_db (svc_PostRepo s) = db"
    and "comments w i = Some c"
  shows "\<exists>w'. DeleteComment s i u w = ((True, None), w')
    \<and> counts w' (comment_PostID c) = max (counts w (comment_PostID c) - 1) 0
    \<and> comments w' i = (if u = comment_UserID c then None else Some c)"
proof -
  have q: "dbQueryComment db selectCommentSQL [SInt i] w = (Inr c, w)"
    using assms(1,4) by (simp add: comment_tables_def)
  have "\<exists>r w'. dbExec db deleteCommentSQL [SInt i, SInt u] w = (Inr r, w') \<and> counts w' = counts w \<and>
        comments w' = (case comments w i of None \<Rightarrow> comments w
          | Some c \<Rightarrow> if comment_UserID c = u then (comments w)(i := None) else comments w)"
    using assms(1) by (simp add: comment_tables_def)
  then obtain r w1 where d: "dbExec db deleteCommentSQL [SInt i, SInt u] w = (Inr r, w1)" "counts w1 = counts w"
    "comments w1 = (if comment_UserID c = u then (comments w)(i := None) else comments w)"
    using assms(4) by auto
  have "\<exists>r w'. dbExec db decrCommentSQL [SInt (comment_PostID c)] w1 = (Inr r, w') \<and> comments w' = comments w1 \<and>
        counts w' = (counts w1)(comment_PostID c := max (counts w1 (comment_PostID c) - 1) 0)"
    using assms(1) by (simp add: comment_tables_def)
  then obtain r2 w2 where e: "dbExec db decrCommentSQL [SInt (comment_PostID c)] w1 = (Inr r2, w2)"
    "comments w2 = comments w1" "counts w2 = (counts w1)(comment_PostID c := max (counts w1 (comment_PostID c) - 1) 0)"
    by blast
  have "DeleteComment s i u w = ((True, None), w2)"
    using assms(2,3) q d(1) e(1)
    by (simp add: DeleteComment_def Comment_FindByID_def Comment_Delete_def DecrementCommentCount_def execErr_def)
  with d e assms(4) show ?thesis by auto
qed

definition comments_db :: "((int \<rightharpoonup> Comment) \<times> (int \<Rightarrow> int)) post_sqlconn" where
  "comments_db = demo_db\<lparr>
     dbQueryComment := (\<lambda>sql args w. case args of [SInt i] \<Rightarrow>
        (case fst w i of None \<Rightarrow> Inl ErrSqlNoRows | Some c \<Rightarrow> Inr c, w) | _ \<Rightarrow> (Inl (ErrLib ''args''), w)),
     dbExec := (\<lambda>sql args w. (Inr \<lparr>rowsAffected = Inr 1, lastInsertId = Inr 1\<rparr>, case args of
         [SInt i, SInt u] \<Rightarrow> (case fst w i of None \<Rightarrow> fst w
             | Some c \<Rightarrow> if comment_UserID c = u then (fst w)(i := None) else fst w, snd w)
       | [SInt p] \<Rightarrow> (fst w, (snd w)(p := max (snd w p - 1) 0))
       | _ \<Rightarrow> w))\<rparr>"

lemma comments_db_tables: "comment_tables comments_db fst snd"
  by (simp add: comment_tables_def comments_db_def)

theorem foreign_delete_skews_count_witness:
  "\<exists>w'. DeleteComment (demo_ctx comments_db) 5 8
      ([5 \<mapsto> \<lparr>comment_ID = 5, comment_PostID = 7, comment_UserID = 3, comment_Username = [], comment_Content = ''hi'',
        comment_ParentID = 0, comment_Status = 0, comment_CreatedAt = 0, comment_UpdatedAt = 0\<rparr>], \<lambda>p. 4) =
      ((True, None), w') \<and> snd w' 7 = 3 \<and> fst w' 5 \<noteq> None"
  using foreign_delete_skews_count [OF comments_db_tables, of "demo_ctx comments_db"
      "([5 \<mapsto> \<lparr>comment_ID = 5, comment_PostID = 7, comment_UserID = 3, comment_Username = [], comment_Content = ''hi'',
        comment_ParentID = 0, comment_Status = 0, comment_CreatedAt = 0, comment_UpdatedAt = 0\<rparr>], \<lambda>p. 4)" 5 _ 8]
  by (simp add: demo_ctx_def NewCommentRepository_def NewPostRepository_def Let_def) blast

lemma Post_Create_inserts:
  assumes "Post_Create J nextID r p w = ((i, None, p'), w')"
  shows "\<exists>tags w1 w2 x. dbExec (pr_db r) insertPostSQL
      [SInt i, SInt (post_UserID p), SInt (post_CommunityID p), SStr (post_Username p), SStr (post_Title p),
       SStr (post_Content p), SStr tags, SInt (post_Status p), STime (post_CreatedAt p), STime (post_UpdatedAt p)] w1 =
      (Inr x, w2)"
proof -
  from assms obtain tags w1 where 1: "marshalString J (post_Tags p) = Inr tags" "nextID w = (Inr i, w1)"
    by (auto simp: Post_Create_def Let_def split: sum.splits prod.splits if_splits)
  obtain x w2 where "dbExec (pr_db r) insertPostSQL
      [SInt i, SInt (post_UserID p), SInt (post_CommunityID p), SStr (post_Username p), SStr (post_Title p),
       SStr (post_Content p), SStr tags, SInt (post_Status p), STime (post_CreatedAt p), STime (post_UpdatedAt p)] w1 =
      (x, w2)" by fastforce
  with assms 1 show ?thesis by (cases x) (auto simp: Post_Create_def Let_def)
qed

lemma CreatePost_inserts:
  assumes "CreatePost clk J L nextID s req w = (Inr info, s', w')"
  shows "\<exists>tags t w1 w2 x. dbExec (pr_db (svc_PostRepo s)) insertPostSQL
      [SInt (pi_Id info), SInt (cp_UserId req), SInt (cp_CommunityId req), SStr [], SStr (cp_Title req),
       SStr (cp_Content req), SStr tags, SInt 2, STime t, STime t] w1 = (Inr x, w2)"
  using assms
  by (auto simp: CreatePost_def postInfo_def Let_def split: sum.splits prod.splits option.splits
      dest!: Post_Create_inserts) blast

section \<open>Tags\<close>

lemma postInfos_fails:
  "p \<in> set posts \<Longrightarrow> unmarshalStrings J (post_Tags p) = Inl e \<Longrightarrow> \<exists>e. postInfos J posts = Inl e"
  by (induction posts) (auto split: sum.splits)

lemma CreatePost_stores:
  assumes "CreatePost clk J L nextID s req w = (Inr info, s', w')"
    and "\<forall>i a b c d e tags f g h w r w'. dbExec (pr_db (svc_PostRepo s)) insertPostSQL
           [SInt i, a, b, c, d, e, SStr tags, f, g, h] w = (Inr r, w') \<longrightarrow> stored w' i = Some tags"
    and "\<forall>sc ks args w. stored (snd (redisEval (pr_redis (svc_PostRepo s)) sc ks args w)) = stored w"
  shows "\<exists>d t. marshalString J t = Inr d \<and> stored w' (pi_Id info) = Some d"
proof -
  have ev: "stored w2 = stored w1" if "AddWhenCreate (pr_redis (svc_PostRepo s)) i u w1 = (x, w2)" for i u w1 x w2
    using that assms(3)
    by (auto simp: AddWhenCreate_def evalErr_def Let_def split: sum.splits prod.splits) (metis snd_conv)+
  from assms(1,2) show ?thesis
    by (auto simp: CreatePost_def Post_Create_def postInfo_def Let_def
        split: sum.splits prod.splits option.splits if_splits dest!: ev)
qed

text \<open>
  Creating a post breaks the listings it appears in: CreatePost encodes the tags as a JSON array
  and the repository encodes that text again as a JSON string, so when the stored column comes back
  in a page, decoding it as a list of strings fails and ListPosts returns the error, no post at all.
\<close>

theorem created_post_breaks_listing:
  assumes "\<forall>t d. marshalString J t = Inr d \<longrightarrow> (\<exists>e. unmarshalStrings J d = Inl e)"
    and "\<forall>i a b c d e tags f g h w r w'. dbExec (pr_db (svc_PostRepo s)) insertPostSQL
           [SInt i, a, b, c, d, e, SStr tags, f, g, h] w = (Inr r, w') \<longrightarrow> stored w' i = Some tags"
    and "\<forall>sc ks args w. stored (snd (redisEval (pr_redis (svc_PostRepo s)) sc ks args w)) = stored w"
    and "CreatePost clk J L nextID s req w = (Inr info, s', w')"
    and "Post_List (svc_PostRepo s') (lp_Page lreq) (lp_PageSize lreq) (lp_CommunityId lreq) (lp_Tag lreq) w2 =
           (Inr (posts, tot), w3)"
    and "p \<in> set posts" "stored w' (pi_Id info) = Some (post_Tags p)"
  shows "\<exists>e. ListPosts J s' lreq w2 = (Inl e, w3)"
proof -
  from CreatePost_stores [OF assms(4,2,3)] assms(1,7)
  obtain e where "unmarshalStrings J (post_Tags p) = Inl e" by auto
  from postInfos_fails [OF assms(6) this] assms(5) show ?thesis
    by (auto simp: ListPosts_def)
qed

definition tags_db :: "(int \<rightharpoonup> string) post_sqlconn" where
  "tags_db = demo_db\<lparr>
     dbExec := (\<lambda>sql args w. (Inr \<lparr>rowsAffected = Inr 1, lastInsertId = Inr 1\<rparr>, case args of
         [SInt i, a, b, c, d, e, SStr tags, f, g, h] \<Rightarrow> w(i \<mapsto> tags) | _ \<Rightarrow> w)),
     dbQueryPosts := (\<lambda>sql args w. (case w 99 of None \<Rightarrow> Inr []
       | Some tags \<Rightarrow> Inr [demo_post\<lparr>post_ID := 99, post_Tags := tags\<rparr>], w))\<rparr>"

theorem created_post_breaks_listing_witness:
  "let (r, s', w') = CreatePost (\<lambda>w. 0) demo_json list_bloom (\<lambda>w. (Inr 99, w)) (demo_ctx tags_db) demo_req Map.empty
   in \<exists>e. ListPosts demo_json s' \<lparr>lp_Page = 1, lp_PageSize = 10, lp_CommunityId = 0, lp_Tag = []\<rparr> w' = (Inl e, w')"
proof -
  let ?lreq = "\<lparr>lp_Page = 1, lp_PageSize = 10, lp_CommunityId = 0, lp_Tag = []\<rparr>"
  let ?tags = "[CHR 0x22, CHR ''['', CHR '']'', CHR 0x22]"
  let ?s = "demo_ctx tags_db :: (string list, int \<rightharpoonup> string) PostSvc"
  let ?up = "\<lambda>args w. case args of [SInt i, a, b, c, d, e, SStr tags, f, g, h] \<Rightarrow> w(i \<mapsto> tags) | _ \<Rightarrow> w"
  have ex: "dbExec tags_db insertPostSQL args w = (Inr \<lparr>rowsAffected = Inr 1, lastInsertId = Inr 1\<rparr>, ?up args w)" for args w
    by (simp add: tags_db_def)
  obtain info s' where c: "CreatePost (\<lambda>w. 0) demo_json list_bloom (\<lambda>w. (Inr 99, w)) ?s demo_req Map.empty =
      (Inr info, s', [99 \<mapsto> ?tags])" "pi_Id info = 99" "svc_PostRepo s' = svc_PostRepo ?s"
    using demo_ctx_create [of tags_db ?up "\<lambda>w. 0" list_bloom Map.empty, OF ex] by (simp add: postInfo_def)
  have repo: "pr_db (svc_PostRepo ?s) = tags_db" "pr_redis (svc_PostRepo ?s) = ok_redis"
    by (simp_all add: demo_ctx_def NewPostRepository_def Let_def)
  have l1: "\<forall>t d. marshalString demo_json t = Inr d \<longrightarrow> (\<exists>e. unmarshalStrings demo_json d = Inl e)"
    by (simp add: demo_json_def)
  have l2: "\<forall>i a b c d e tags f g h w r w'. dbExec (pr_db (svc_PostRepo ?s)) insertPostSQL
           [SInt i, a, b, c, d, e, SStr tags, f, g, h] w = (Inr r, w') \<longrightarrow> w' i = Some tags"
    by (auto simp: repo ex)
  have l3: "\<forall>sc ks args w. snd (redisEval (pr_redis (svc_PostRepo ?s)) sc ks args w) = w"
    by (simp add: repo ok_redis_def)
  define p where "p = demo_post\<lparr>post_ID := 99, post_Tags := ?tags\<rparr>"
  have db: "dbQueryInt tags_db q a w = (Inr 1, w)" "dbQueryPosts tags_db q a [99 \<mapsto> ?tags] = (Inr [p], [99 \<mapsto> ?tags])"
    "redisPfcount ok_redis k w = (Inl (ErrLib ''connection refused''), w)" for q a w k
    by (simp_all add: tags_db_def demo_db_def p_def ok_redis_def down_redis_def down_def)
  have same: "p\<lparr>post_ViewCount := post_ViewCount p\<rparr> = p" by simp
  have l: "Post_List (svc_PostRepo s') (lp_Page ?lreq) (lp_PageSize ?lreq) (lp_CommunityId ?lreq) (lp_Tag ?lreq)
      [99 \<mapsto> ?tags] = (Inr ([p], 1), [99 \<mapsto> ?tags])"
    by (cases "listQueries 1 10 0 []")
      (auto simp: c(3) Post_List_def repo db getViewCountFromRedis_def GetRC_def same split: prod.split)
  from created_post_breaks_listing [OF l1 l2 l3 c(1) l, of p] c(1,2) show ?thesis
    by (simp add: p_def)
qed

end
