(* ===== verification/PostSystem.thy ===== *)
theory PostSystem
  imports PostLogic
begin

text \<open>
  The post service as a whole, from \<open>NewServiceContext\<close> on: the calls of its server, the view count
  syncer, the warm-up of the local cache and the hourly job (which \<open>post/cmd/server/main.go\<close> never
  starts), in any order, with the rest of the world moving in between.
\<close>

section \<open>Runs\<close>

datatype 'w post_event =
    PRpc post_rpc "(wait_event \<times> ('w \<Rightarrow> 'w)) list"
  | PSync
  | PWarmup
  | PCron
  | POutside "'w \<Rightarrow> 'w"

text \<open>The reply of an event, if it has one, and the state after it; \<open>None\<close> is a call still waiting.\<close>

fun post_step ::
  "('w \<Rightarrow> int) \<Rightarrow> json \<Rightarrow> 'f bloom_lib \<Rightarrow> ('w \<Rightarrow> int res \<times> 'w) \<Rightarrow> 'w post_event \<Rightarrow> ('f, 'w) PostSvc \<Rightarrow> 'w \<Rightarrow>
   (post_reply option \<times> ('f, 'w) PostSvc \<times> 'w) option" where
  "post_step clk J L nextID (PRpc rpc evs) s w =
     (case PostServer clk J L nextID evs rpc s w of
        None \<Rightarrow> None | Some (r, s', w') \<Rightarrow> Some (Some r, s', w'))"
| "post_step clk J L nextID PSync s w =
     (case svc_ViewCountSync s of
        None \<Rightarrow> Some (None, s, w)
      | Some v \<Rightarrow> Some (None, s, snd (Sync J v w)))"
| "post_step clk J L nextID PWarmup s w = Some (None, s, snd (WarmupCache J s w))"
| "post_step clk J L nextID PCron s w =
     (case Cron_Run clk J (svc_PostRepo s) (svc_HotPostSvc s) w of
        (_, _, _, h, w') \<Rightarrow> Some (None, s\<lparr>svc_PostRepo := (svc_PostRepo s)\<lparr>pr_hotPostSvc := h\<rparr>\<rparr>, w'))"
| "post_step clk J L nextID (POutside f) s w = Some (None, s, f w)"

fun post_run ::
  "('w \<Rightarrow> int) \<Rightarrow> json \<Rightarrow> 'f bloom_lib \<Rightarrow> ('w \<Rightarrow> int res \<times> 'w) \<Rightarrow> 'w post_event list \<Rightarrow> ('f, 'w) PostSvc \<Rightarrow> 'w \<Rightarrow>
   (post_reply option list \<times> ('f, 'w) PostSvc \<times> 'w) option" where
  "post_run clk J L nextID [] s w = Some ([], s, w)"
| "post_run clk J L nextID (e # es) s w =
     (case post_step clk J L nextID e s w of
        None \<Rightarrow> None
      | Some (r, s1, w1) \<Rightarrow>
          (case post_run clk J L nextID es s1 w1 of
             None \<Rightarrow> None | Some (rs, s2, w2) \<Rightarrow> Some (r # rs, s2, w2)))"

lemma post_run_ConsE:
  assumes "post_run clk J L nextID (e # es) s w = Some (rs, s', w')"
  obtains r rs' s1 w1 where "rs = r # rs'" "post_step clk J L nextID e s w = Some (r, s1, w1)"
    "post_run clk J L nextID es s1 w1 = Some (rs', s', w')"
  using assms by (auto split: option.splits prod.splits)

section \<open>Well-formed services\<close>

text \<open>
  The hot-post service keeps its handles, its breaker keeps the breaker's invariant, and its local
  negative cache stays empty.
\<close>

definition hps_ok :: "'w redis \<Rightarrow> 'w HotPostLocalCache \<Rightarrow> 'w HotPostService \<Rightarrow> bool" where
  "hps_ok R lc h \<longleftrightarrow>
     hps_redis h = Some R \<and> hps_localCache h = lc \<and> evc_redis (hps_emptyValueCache h) = Some R \<and>
     evc_defaultTTL (hps_emptyValueCache h) = 60 \<and> evc_localCache (hps_emptyValueCache h) = NewSyncMapCache \<and>
     cb_inv (hps_circuitBreaker h) \<and> config (hps_circuitBreaker h) = config (NewCircuitBreaker emptyConfig)"

text \<open>All parts of the service are wired to one Redis, one database and one local cache.\<close>

definition svc_ok ::
  "'w post_sqlconn \<Rightarrow> 'w redis \<Rightarrow> 'w HotPostLocalCache \<Rightarrow> ('f, 'w) PostSvc \<Rightarrow> bool" where
  "svc_ok db R lc s \<longleftrightarrow>
     (let r = svc_PostRepo s in
        pr_db r = db \<and> pr_redis r = R \<and> pr_localCache r = lc \<and> pr_cacheLoader r = NewCacheLoader R lc \<and>
        hps_ok R lc (pr_hotPostSvc r)) \<and>
     svc_CommentRepo s = NewCommentRepository db \<and> pbf_redis (svc_BloomFilter s) = R \<and>
     svc_ViewCountSync s = Some (NewViewCountSyncer R db lc)"

lemma NewServiceContext_ok:
  assumes "NewServiceContext L newBigCache c db R w = (Inr s, w')"
  shows "\<exists>lc. svc_ok db R lc s \<and> threshold lc = threshold (hps_localCache (svc_HotPostSvc s))"
    and "hps_circuitBreaker (svc_HotPostSvc s) = NewCircuitBreaker emptyConfig"
  using assms
  by (auto simp: NewServiceContext_def Let_def svc_ok_def hps_ok_def NewPostRepository_def NewHotPostService_def
      NewEmptyValueCache_def svc_HotPostSvc_def NewPostBloomFilter_def NewCircuitBreaker_inv
      split: sum.splits prod.splits)

lemma RemoveEmptyCache_ok:
  assumes "evc_localCache c = NewSyncMapCache" "RemoveEmptyCache i c w = (r, c', w')"
  shows "evc_redis c' = evc_redis c \<and> evc_defaultTTL c' = evc_defaultTTL c \<and> evc_localCache c' = NewSyncMapCache"
  using assms
  by (auto simp: RemoveEmptyCache_def Let_def smc_Delete_def NewSyncMapCache_def split: res_splits)

lemma DeletePostCache_ok:
  assumes "hps_ok R lc h" "DeletePostCache h i w = (r, h', w')"
  shows "hps_ok R lc h' \<and> hps_circuitBreaker h' = hps_circuitBreaker h"
proof -
  obtain x c w2 where c: "RemoveEmptyCache i (hps_emptyValueCache h) (LocalCache_Delete (hps_localCache h) i w) = (x, c, w2)"
    by (metis prod_cases3)
  with assms RemoveEmptyCache_ok [OF _ c] show ?thesis
    by (auto simp: hps_ok_def DeletePostCache_def Let_def split: res_splits)
qed

lemma CachePostDetail_ok:
  assumes "hps_ok R lc h" "CachePostDetail J h p ttl w = (r, h', w')"
  shows "hps_ok R lc h'"
proof -
  define w1 where "w1 = (if ShouldCache (hps_localCache h) (post_ViewCount p)
                then LocalCache_Set J (hps_localCache h) (Some p) w else w)"
  obtain x c w2 where c: "RemoveEmptyCache (post_ID p) (hps_emptyValueCache h) w1 = (x, c, w2)" by (metis prod_cases3)
  with assms RemoveEmptyCache_ok [OF _ c] show ?thesis
    unfolding CachePostDetail_def w1_def [symmetric]
    by (auto simp: hps_ok_def Let_def split: res_splits)
qed

lemma UpdatePostScore_ok:
  assumes "hps_ok R lc h" "UpdatePostScore clk h p w = (r, h', w')"
  shows "hps_ok R lc h'"
proof -
  note B = cb_step_inv [of "hps_circuitBreaker h" "OpAllow (clk w)"] cb_step_config [of "OpAllow (clk w)" "hps_circuitBreaker h"]
  obtain ok cb where al: "Allow (clk w) (hps_circuitBreaker h) = (ok, cb)" by fastforce
  have 1: "hps_ok R lc (h\<lparr>hps_circuitBreaker := cb\<rparr>)" using assms(1) B al by (simp add: hps_ok_def)
  have 2: "hps_ok R lc (hps_Failure clk g v)" "hps_ok R lc (hps_Success g)" if "hps_ok R lc g" for g v
    using that cb_step_inv [of "hps_circuitBreaker g" "OpFailure (clk v)"] cb_step_inv [of "hps_circuitBreaker g" OpSuccess]
      cb_step_config [of "OpFailure (clk v)" "hps_circuitBreaker g"] cb_step_config [of OpSuccess "hps_circuitBreaker g"]
    by (simp_all add: hps_ok_def hps_Failure_def hps_Success_def)
  show ?thesis
    using assms(2) 1 2 al by (auto simp: UpdatePostScore_def hps_Allow_def split: res_splits bool.splits)
qed

lemma each_ok_keeps:
  assumes "\<And>s x w r s' w'. P s \<Longrightarrow> f s x w = (r, s', w') \<Longrightarrow> P s'"
  shows "P s \<Longrightarrow> each_ok f xs n s w = (e, m, s', w') \<Longrightarrow> P s'"
proof (induction xs arbitrary: n s w)
  case (Cons x xs)
  obtain r s1 w1 where f: "f s x w = (r, s1, w1)" by (metis prod_cases3)
  from assms [OF Cons.prems(1) f] Cons f show ?case by (auto split: sum.splits if_splits)
qed simp

lemma Cron_Run_ok:
  assumes "hps_ok R lc h" "Cron_Run clk J r h w = (e, n, m, h', w')"
  shows "hps_ok R lc h'"
proof -
  have U: "hps_ok R lc h2" if "hps_ok R lc h1" "each_ok (UpdatePostScore clk) posts 0 h1 w1 = (e, n, h2, w2)"
    for h1 h2 posts w1 w2 e n
    using that by (rule each_ok_keeps [where P = "hps_ok R lc", rotated]) (erule (1) UpdatePostScore_ok)
  have D: "hps_ok R lc h2"
    if "hps_ok R lc h1" "each_ok (\<lambda>s post. CachePostDetail J s post 3600) posts 0 h1 w1 = (e, n, h2, w2)"
    for h1 h2 posts w1 w2 e n
    using that by (rule each_ok_keeps [where P = "hps_ok R lc", rotated]) (erule (1) CachePostDetail_ok)
  have C: "hps_ok R lc h2" if "hps_ok R lc h1" "each_ok (\<lambda>s timeRange w. case CleanupExpiredPosts clk s timeRange w of
      (r, w') \<Rightarrow> (r, s, w')) timeRanges 0 h1 w1 = (e, n, h2, w2)" for h1 h2 w1 w2 e n
    using that by (rule each_ok_keeps [where P = "hps_ok R lc", rotated]) (auto split: prod.splits)
  obtain x w1 where g: "GetRecentPosts r 7 w = (x, w1)" by fastforce
  show ?thesis
  proof (cases x)
    case (Inr posts)
    obtain e1 n1 s1 w2 where 1: "each_ok (UpdatePostScore clk) posts 0 h w1 = (e1, n1, s1, w2)" by (metis prod_cases4)
    obtain e2 n2 s2 w3 where 2: "each_ok (\<lambda>s post. CachePostDetail J s post 3600) posts 0 s1 w2 = (e2, n2, s2, w3)"
      by (metis prod_cases4)
    have s1: "hps_ok R lc s1" by (rule U [OF assms(1) 1])
    have s2: "hps_ok R lc s2" by (rule D [OF s1 2])
    from assms(2) g Inr 1 2 s1 s2 C [OF s2] show ?thesis
      by (auto simp: Cron_Run_def split: option.splits prod.splits)
  qed (use assms g in \<open>simp add: Cron_Run_def\<close>)
qed

text \<open>Only deleting from the caches and the job touch the service behind the repository.\<close>

lemma Post_writes_ok:
  assumes "hps_ok R lc (pr_hotPostSvc r)"
  shows "Post_Update J r p w = (x, r', w') \<Longrightarrow>
      \<exists>h. r' = r\<lparr>pr_hotPostSvc := h\<rparr> \<and> hps_ok R lc h \<and> hps_circuitBreaker h = hps_circuitBreaker (pr_hotPostSvc r)"
    and "Post_Delete r i u w = (x, r', w') \<Longrightarrow>
      \<exists>h. r' = r\<lparr>pr_hotPostSvc := h\<rparr> \<and> hps_ok R lc h \<and> hps_circuitBreaker h = hps_circuitBreaker (pr_hotPostSvc r)"
proof -
  have I: "\<exists>h. r' = r\<lparr>pr_hotPostSvc := h\<rparr> \<and> hps_ok R lc h \<and> hps_circuitBreaker h = hps_circuitBreaker (pr_hotPostSvc r)"
    if "invalidate r i w = (x, r', w')" for i w x w'
    using that DeletePostCache_ok [OF assms] by (auto simp: invalidate_def split: prod.splits)
  have Z: "\<exists>h. r = r\<lparr>pr_hotPostSvc := h\<rparr> \<and> hps_ok R lc h \<and> hps_circuitBreaker h = hps_circuitBreaker (pr_hotPostSvc r)"
    using assms by (intro exI [of _ "pr_hotPostSvc r"]) simp
  show "Post_Update J r p w = (x, r', w') \<Longrightarrow>
      \<exists>h. r' = r\<lparr>pr_hotPostSvc := h\<rparr> \<and> hps_ok R lc h \<and> hps_circuitBreaker h = hps_circuitBreaker (pr_hotPostSvc r)"
    using Z by (auto simp: Post_Update_def split: sum.splits prod.splits dest: I)
  show "Post_Delete r i u w = (x, r', w') \<Longrightarrow>
      \<exists>h. r' = r\<lparr>pr_hotPostSvc := h\<rparr> \<and> hps_ok R lc h \<and> hps_circuitBreaker h = hps_circuitBreaker (pr_hotPostSvc r)"
    using Z by (auto simp: Post_Delete_def split: sum.splits prod.splits dest: I)
qed

text \<open>What one event may change in the service: its filter, by ids added, and the hot-post service.\<close>

definition filter_grows :: "'f bloom_lib \<Rightarrow> ('f, 'w) PostBloomFilter \<Rightarrow> ('f, 'w) PostBloomFilter \<Rightarrow> bool" where
  "filter_grows L p q \<longleftrightarrow> pbf_redis q = pbf_redis p \<and> (\<forall>i. MightContain L i p \<longrightarrow> MightContain L i q)"

lemma filter_grows_trans: "filter_grows L p q \<Longrightarrow> filter_grows L q r \<Longrightarrow> filter_grows L p r"
  by (simp add: filter_grows_def)

lemma filter_grows_refl: "filter_grows L p p"
  by (simp add: filter_grows_def)

lemma filter_grows_Add: "bloom_laws L \<Longrightarrow> filter_grows L p (Bloom_Add L i p)"
  by (simp add: filter_grows_def MightContain_def Bloom_Add_def bloom_laws_def)

lemma CreatePost_state:
  assumes "CreatePost clk J L nextID s req w = (r, s', w')"
  shows "(\<exists>e. r = Inl e \<and> s' = s) \<or>
    (\<exists>info. r = Inr info \<and> s' = s\<lparr>svc_BloomFilter := Bloom_Add L (pi_Id info) (svc_BloomFilter s)\<rparr>)"
  using assms by (auto simp: CreatePost_def postInfo_def Let_def split: sum.splits prod.splits option.splits)

lemma UpdatePost_state:
  assumes "UpdatePost clk J s req w = (r, s', w')"
  shows "s' = s \<or> (\<exists>p w1 x w2. Post_Update J (svc_PostRepo s) p w1 = (x, svc_PostRepo s', w2) \<and>
    s' = s\<lparr>svc_PostRepo := svc_PostRepo s'\<rparr>)"
  using assms by (auto simp: UpdatePost_def Let_def split: sum.splits prod.splits option.splits) blast+

lemma DeletePost_state:
  assumes "DeletePost s i u w = (r, s', w')"
  shows "\<exists>x w2. Post_Delete (svc_PostRepo s) i u w = (x, svc_PostRepo s', w2) \<and> s' = s\<lparr>svc_PostRepo := svc_PostRepo s'\<rparr>"
  using assms by (auto simp: DeletePost_def split: sum.splits prod.splits)

fun is_cron :: "'w post_event \<Rightarrow> bool" where
  "is_cron PCron \<longleftrightarrow> True" | "is_cron _ \<longleftrightarrow> False"

definition breaker_of :: "('f, 'w) PostSvc \<Rightarrow> CircuitBreaker" where
  "breaker_of s = hps_circuitBreaker (svc_HotPostSvc s)"

lemma svc_ok_repo:
  assumes "svc_ok db R lc s" "hps_ok R lc h"
  shows "svc_ok db R lc (s\<lparr>svc_PostRepo := (svc_PostRepo s)\<lparr>pr_hotPostSvc := h\<rparr>\<rparr>)"
  using assms by (simp add: svc_ok_def Let_def)

lemma PostServer_ok:
  assumes "bloom_laws L" "svc_ok db R lc s" "PostServer clk J L nextID evs rpc s w = Some (r, s', w')"
  shows "svc_ok db R lc s' \<and> breaker_of s' = breaker_of s \<and> filter_grows L (svc_BloomFilter s) (svc_BloomFilter s')"
proof -
  have h: "hps_ok R lc (pr_hotPostSvc (svc_PostRepo s))" using assms(2) by (simp add: svc_ok_def Let_def)
  have same: ?thesis if "s' = s" using that assms(2) by (simp add: filter_grows_refl)
  have repo: ?thesis if "s' = s\<lparr>svc_PostRepo := (svc_PostRepo s)\<lparr>pr_hotPostSvc := g\<rparr>\<rparr>" "hps_ok R lc g"
      "hps_circuitBreaker g = hps_circuitBreaker (pr_hotPostSvc (svc_PostRepo s))" for g
    using that svc_ok_repo [OF assms(2) that(2)] by (simp add: breaker_of_def svc_HotPostSvc_def filter_grows_refl)
  show ?thesis
  proof (cases rpc)
    case (RpcCreatePost req)
    with assms(3) obtain x where "CreatePost clk J L nextID s req w = (x, s', w')" by (auto split: prod.splits)
    from CreatePost_state [OF this] show ?thesis
      using same assms(1,2) by (auto simp: svc_ok_def Bloom_Add_def breaker_of_def svc_HotPostSvc_def Let_def
          intro: filter_grows_Add [unfolded Bloom_Add_def])
  next
    case (RpcUpdatePost req)
    with assms(3) obtain x where "UpdatePost clk J s req w = (x, s', w')" by (auto split: prod.splits)
    from UpdatePost_state [OF this] Post_writes_ok(1) [OF h] same repo show ?thesis by metis
  next
    case (RpcDeletePost i u)
    with assms(3) obtain x where "DeletePost s i u w = (x, s', w')" by (auto split: prod.splits)
    from DeletePost_state [OF this] Post_writes_ok(2) [OF h] repo show ?thesis by metis
  qed (use assms(3) same in \<open>auto split: prod.splits option.splits\<close>)
qed

lemma post_step_ok:
  assumes "bloom_laws L" "svc_ok db R lc s" "post_step clk J L nextID e s w = Some (r, s', w')"
  shows "svc_ok db R lc s' \<and> (\<not> is_cron e \<longrightarrow> breaker_of s' = breaker_of s) \<and>
    filter_grows L (svc_BloomFilter s) (svc_BloomFilter s')"
proof (cases e)
  case (PRpc rpc evs)
  with assms(3) PostServer_ok [OF assms(1,2)] show ?thesis by (auto split: option.splits)
next
  case PCron
  have h: "hps_ok R lc (svc_HotPostSvc s)" using assms(2) by (simp add: svc_ok_def svc_HotPostSvc_def Let_def)
  obtain x n m g v where c: "Cron_Run clk J (svc_PostRepo s) (svc_HotPostSvc s) w = (x, n, m, g, v)" by (metis prod_cases5)
  with assms(3) PCron svc_ok_repo [OF assms(2) Cron_Run_ok [OF h c]] show ?thesis by (auto simp: filter_grows_refl)
qed (use assms(2,3) in \<open>auto simp: filter_grows_refl split: option.splits\<close>)

lemma post_run_ok:
  assumes "bloom_laws L"
  shows "svc_ok db R lc s \<Longrightarrow> post_run clk J L nextID es s w = Some (rs, s', w') \<Longrightarrow>
    svc_ok db R lc s' \<and> (list_all (\<lambda>e. \<not> is_cron e) es \<longrightarrow> breaker_of s' = breaker_of s) \<and>
    filter_grows L (svc_BloomFilter s) (svc_BloomFilter s')"
proof (induction es arbitrary: s w rs)
  case (Cons e es)
  from Cons.prems(2) obtain r rs' s1 w1 where run: "post_step clk J L nextID e s w = Some (r, s1, w1)"
    "post_run clk J L nextID es s1 w1 = Some (rs', s', w')" by (rule post_run_ConsE)
  from post_step_ok [OF assms Cons.prems(1) run(1)] Cons.IH [OF _ run(2)] show ?case
    by (auto intro: filter_grows_trans)
qed (simp add: filter_grows_refl)

text \<open>
  C3: The post service stays well-formed: from NewServiceContext on, whatever calls, jobs and outside
  events happen, in any order, every part keeps the one Redis, database and local cache it was wired
  with, the breaker keeps its configuration and its invariant, and the local negative cache is empty;
  and unless the hourly job runs, which main never starts, the breaker is still the new one, so no
  call of the server is ever protected by the breaker or by the negative cache.
\<close>

theorem post_service_wellformed:
  assumes "bloom_laws L" "NewServiceContext L newBigCache c db R w0 = (Inr s0, w1)"
    and "post_run clk J L nextID es s0 w = Some (rs, s, w')"
  shows "\<exists>lc. svc_ok db R lc s \<and> cb_inv (breaker_of s)
    \<and> evc_localCache (hps_emptyValueCache (svc_HotPostSvc s)) = NewSyncMapCache
    \<and> (list_all (\<lambda>e. \<not> is_cron e) es \<longrightarrow> breaker_of s = NewCircuitBreaker emptyConfig)"
proof -
  from NewServiceContext_ok [OF assms(2)] obtain lc where s0: "svc_ok db R lc s0"
    "breaker_of s0 = NewCircuitBreaker emptyConfig" by (auto simp: breaker_of_def)
  from post_run_ok [OF assms(1) s0(1) assms(3)] s0(2) show ?thesis
    by (intro exI [of _ lc]) (simp add: svc_ok_def hps_ok_def breaker_of_def svc_HotPostSvc_def Let_def)
qed

text \<open>
  C18: A post that was acknowledged stays visible to the filter: in every run of the service, whatever
  follows - other posts, updates, deletions, jobs - the id that CreatePost answered with is let
  through by the filter in front of GetPost, and so is every id that was let through before.
\<close>

theorem acknowledged_posts_pass_filter:
  assumes "bloom_laws L" "post_run clk J L nextID es s w = Some (rs, s', w')" "svc_ok db R lc s"
    and "k < length es" "es ! k = PRpc (RpcCreatePost req) evs" "rs ! k = Some (RepPost (Inr (Some info)))"
  shows "MightContain L (pi_Id info) (svc_BloomFilter s') \<and>
    (\<forall>i. MightContain L i (svc_BloomFilter s) \<longrightarrow> MightContain L i (svc_BloomFilter s'))"
  using assms(2-6)
proof (induction es arbitrary: k s w rs)
  case (Cons e es)
  from Cons.prems(1) obtain r rs' s1 w1 where run: "rs = r # rs'" "post_step clk J L nextID e s w = Some (r, s1, w1)"
    "post_run clk J L nextID es s1 w1 = Some (rs', s', w')" by (rule post_run_ConsE)
  note ok = post_step_ok [OF assms(1) Cons.prems(2) run(2)]
  note rest = post_run_ok [OF assms(1) conjunct1 [OF ok] run(3)]
  show ?case
  proof (cases k)
    case 0
    with Cons.prems(4,5) run(1,2) obtain x where x: "CreatePost clk J L nextID s req w = (x, s1, w1)"
      "x = Inr info" by (auto split: option.splits prod.splits sum.splits)
    with CreatePost_state [OF x(1)] assms(1) have "MightContain L (pi_Id info) (svc_BloomFilter s1)"
      by (auto simp: MightContain_def Bloom_Add_def bloom_laws_def)
    with ok rest show ?thesis by (auto simp: filter_grows_def)
  next
    case (Suc j)
    with Cons.IH [OF run(3) conjunct1 [OF ok], of j] Cons.prems run(1) ok show ?thesis
      by (auto simp: filter_grows_def)
  qed
qed simp

text \<open>For examples: the service of \<open>PostLogic\<close>'s examples creates a post; another is deleted, a job runs.\<close>

abbreviation (input) demo_events :: "int post_event list" where
  "demo_events \<equiv> [PRpc (RpcCreatePost demo_req) [], PSync, POutside (\<lambda>w. w + 5), PRpc (RpcDeletePost 7 3) []]"

lemma demo_ctx_ok: "svc_ok db ok_redis \<lparr>HotPostLocalCache.cache = empty_bigcache, threshold = 1000\<rparr> (demo_ctx db)"
  by (auto simp: demo_ctx_def svc_ok_def hps_ok_def NewPostRepository_def NewHotPostService_def Let_def
      NewEmptyValueCache_def NewPostBloomFilter_def NewCircuitBreaker_inv)

abbreviation (input) demo_run :: "(post_reply option list \<times> (string list, int) PostSvc \<times> int) option" where
  "demo_run \<equiv> post_run (\<lambda>w. w) demo_json list_bloom (\<lambda>w. (Inr 99, w)) demo_events (demo_ctx demo_db) 0"

lemma demo_runs: "\<exists>rs s w. demo_run = Some (rs, s, w) \<and> (\<exists>info. rs ! 0 = Some (RepPost (Inr (Some info))) \<and> pi_Id info = 99)"
proof -
  have ex: "dbExec demo_db q args (w :: int) = (Inr \<lparr>rowsAffected = Inr 1, lastInsertId = Inr 1\<rparr>, w)" for q args w
    by (simp add: demo_db_def)
  show ?thesis
    by (simp add: demo_ctx_create [of demo_db "\<lambda>_ w. w", OF ex] postInfo_def split: prod.splits option.splits)
qed

theorem post_service_wellformed_witness:
  "\<exists>rs s w. demo_run = Some (rs, s, w) \<and> breaker_of s = NewCircuitBreaker emptyConfig"
proof -
  obtain rs s w where r: "demo_run = Some (rs, s, w)" using demo_runs by blast
  from post_service_wellformed [OF list_bloom_laws demo_ctx_new [of demo_db] r] have "breaker_of s = NewCircuitBreaker emptyConfig"
    by auto
  with r show ?thesis by blast
qed

theorem acknowledged_posts_pass_filter_witness:
  "\<exists>rs s w. demo_run = Some (rs, s, w) \<and> MightContain list_bloom 99 (svc_BloomFilter s)"
proof -
  obtain rs s w info where r: "demo_run = Some (rs, s, w)" "rs ! 0 = Some (RepPost (Inr (Some info)))" "pi_Id info = 99"
    using demo_runs by blast
  from acknowledged_posts_pass_filter [OF list_bloom_laws r(1) demo_ctx_ok, of 0 demo_req "[]" info] r show ?thesis
    by simp
qed

end
