(* ===== verification/KeyTypes.thy ===== *)
theory KeyTypes
  imports PostSystem
begin

text \<open>
  A type discipline for the Redis keys of the post service: every key has one kind, every command is
  for one kind, and the service never sends a command to a key of another kind. It is stated with a
  Redis handle that refuses ill-typed commands: the service cannot tell it from the real one.
\<close>

section \<open>Kinds of keys and commands\<close>

datatype redis_kind = KString | KSet | KZSet | KHLL

definition has_prefix :: "string \<Rightarrow> string \<Rightarrow> bool" where
  "has_prefix p k \<longleftrightarrow> take (length p) k = p"

definition key_kind :: "string \<Rightarrow> redis_kind" where
  "key_kind k =
     (if has_prefix ''hot_posts:'' k then KZSet
      else if has_prefix ''post:view:'' k then KHLL
      else KString)"

text \<open>The scripts the service sends, by the commands in their texts.\<close>

definition script_kind :: "string \<Rightarrow> redis_kind" where
  "script_kind sc = (if sc = addWhenCreateScript \<or> sc = addReadWithExpireScript then KHLL else KString)"

definition guarded :: "bool \<Rightarrow> ('w \<Rightarrow> 'a res \<times> 'w) \<Rightarrow> 'w \<Rightarrow> 'a res \<times> 'w" where
  "guarded ok f w = (if ok then f w else (Inl (ErrLib ''WRONGTYPE''), w))"

text \<open>
  \<open>DEL\<close> and \<open>KEYS\<close> work on every kind. \<open>hot\<close> says whether commands on sorted sets, the rankings, are
  allowed at all.
\<close>

definition typed_redis :: "bool \<Rightarrow> 'w redis \<Rightarrow> 'w redis" where
  "typed_redis hot R = \<lparr>
     redisGet = (\<lambda>k. guarded (key_kind k = KString) (redisGet R k)),
     redisSet = (\<lambda>k v. guarded (key_kind k = KString) (redisSet R k v)),
     redisSetex = (\<lambda>k v t. guarded (key_kind k = KString) (redisSetex R k v t)),
     redisDel = redisDel R, redisKeys = redisKeys R,
     redisIncr = (\<lambda>k. guarded (key_kind k = KString) (redisIncr R k)),
     redisDecr = (\<lambda>k. guarded (key_kind k = KString) (redisDecr R k)),
     redisSadd = (\<lambda>k v. guarded (key_kind k = KSet) (redisSadd R k v)),
     redisSrem = (\<lambda>k v. guarded (key_kind k = KSet) (redisSrem R k v)),
     redisSismember = (\<lambda>k v. guarded (key_kind k = KSet) (redisSismember R k v)),
     redisScard = (\<lambda>k. guarded (key_kind k = KSet) (redisScard R k)),
     redisSmembers = (\<lambda>k. guarded (key_kind k = KSet) (redisSmembers R k)),
     redisZadd = (\<lambda>k sc v. guarded (hot \<and> key_kind k = KZSet) (redisZadd R k sc v)),
     redisZrem = (\<lambda>k v. guarded (hot \<and> key_kind k = KZSet) (redisZrem R k v)),
     redisZrevrange = (\<lambda>k a b. guarded (hot \<and> key_kind k = KZSet) (redisZrevrange R k a b)),
     redisZremrangebyscore = (\<lambda>k a b. guarded (hot \<and> key_kind k = KZSet) (redisZremrangebyscore R k a b)),
     redisPfadd = (\<lambda>k v. guarded (key_kind k = KHLL) (redisPfadd R k v)),
     redisPfcount = (\<lambda>k. guarded (key_kind k = KHLL) (redisPfcount R k)),
     redisEval = (\<lambda>sc ks args. guarded (list_all (\<lambda>k. key_kind k = script_kind sc) ks) (redisEval R sc ks args))\<rparr>"

lemma guarded_True [simp]: "guarded True f = f"
  by (simp add: guarded_def fun_eq_iff)

named_theorems kinds \<open>kinds of the keys the code builds\<close>

lemmas key_parts = prefix_key_def getEmptyKey_def EmptyValuePrefix_def detail_key_def PostDetailPrefix_def
  BloomFilterKey_def LockKeyPrefix_def CacheKeyPrefix_def view_key_def

lemma key_kinds [kinds]:
  "key_kind (getEmptyKey i) = KString" "key_kind (detail_key i) = KString"
  "key_kind (prefix_key ''post:hot:score:'' i) = KString" "key_kind BloomFilterKey = KString"
  "key_kind (prefix_key LockKeyPrefix i) = KString" "key_kind (prefix_key CacheKeyPrefix i) = KString"
  "key_kind (view_key i) = KHLL"
  by (simp_all add: key_kind_def has_prefix_def key_parts)

lemma hot_kinds [kinds]: "k \<in> set hot_keys \<Longrightarrow> key_kind k = KZSet" "key_kind (getTimeRangeKey t) = KZSet"
  by (auto simp: hot_keys_def getTimeRangeKey_def key_kind_def has_prefix_def HotPostsHour_def HotPostsDay_def
      HotPostsWeek_def HotPostsMonth_def)

lemma script_kinds [kinds]:
  "script_kind addWhenCreateScript = KHLL" "script_kind acquireScript = KString" "script_kind releaseScript = KString"
  by (simp_all add: script_kind_def addWhenCreateScript_def addReadWithExpireScript_def acquireScript_def releaseScript_def)

lemma typed_commands [kinds]:
  "key_kind k = KString \<Longrightarrow> redisGet (typed_redis hot R) k = redisGet R k"
  "key_kind k = KString \<Longrightarrow> redisSetex (typed_redis hot R) k v t = redisSetex R k v t"
  "redisDel (typed_redis hot R) = redisDel R" "redisKeys (typed_redis hot R) = redisKeys R"
  "hot \<Longrightarrow> key_kind k = KZSet \<Longrightarrow> redisZadd (typed_redis hot R) k n m = redisZadd R k n m"
  "hot \<Longrightarrow> key_kind k = KZSet \<Longrightarrow> redisZremrangebyscore (typed_redis hot R) k a b = redisZremrangebyscore R k a b"
  "key_kind k = KHLL \<Longrightarrow> redisPfadd (typed_redis hot R) k m = redisPfadd R k m"
  "key_kind k = KHLL \<Longrightarrow> redisPfcount (typed_redis hot R) k = redisPfcount R k"
  "key_kind k = script_kind sc \<Longrightarrow> redisEval (typed_redis hot R) sc [k] args = redisEval R sc [k] args"
  by (simp_all add: typed_redis_def)

section \<open>The service on a typed handle\<close>

definition typed_evc :: "bool \<Rightarrow> 'w EmptyValueCache \<Rightarrow> 'w EmptyValueCache" where
  "typed_evc hot c = c\<lparr>evc_redis := map_option (typed_redis hot) (evc_redis c)\<rparr>"

definition typed_hps :: "bool \<Rightarrow> 'w HotPostService \<Rightarrow> 'w HotPostService" where
  "typed_hps hot h = h\<lparr>hps_redis := map_option (typed_redis hot) (hps_redis h),
     hps_emptyValueCache := typed_evc hot (hps_emptyValueCache h)\<rparr>"

definition typed_loader :: "bool \<Rightarrow> 'w CacheLoader \<Rightarrow> 'w CacheLoader" where
  "typed_loader hot l = l\<lparr>cl_redis := typed_redis hot (cl_redis l)\<rparr>"

definition typed_repo :: "bool \<Rightarrow> 'w postRepository \<Rightarrow> 'w postRepository" where
  "typed_repo hot r = r\<lparr>pr_redis := typed_redis hot (pr_redis r), pr_hotPostSvc := typed_hps hot (pr_hotPostSvc r),
     pr_cacheLoader := typed_loader hot (pr_cacheLoader r)\<rparr>"

definition typed_syncer :: "bool \<Rightarrow> 'w ViewCountSyncer \<Rightarrow> 'w ViewCountSyncer" where
  "typed_syncer hot v = v\<lparr>vs_redis := typed_redis hot (vs_redis v)\<rparr>"

definition typed_svc :: "bool \<Rightarrow> ('f, 'w) PostSvc \<Rightarrow> ('f, 'w) PostSvc" where
  "typed_svc hot s = s\<lparr>svc_PostRepo := typed_repo hot (svc_PostRepo s),
     svc_BloomFilter := (svc_BloomFilter s)\<lparr>pbf_redis := typed_redis hot (pbf_redis (svc_BloomFilter s))\<rparr>,
     svc_ViewCountSync := map_option (typed_syncer hot) (svc_ViewCountSync s)\<rparr>"

lemmas typed_defs = typed_evc_def typed_hps_def typed_loader_def typed_repo_def typed_syncer_def typed_svc_def

section \<open>Reads\<close>

lemma views_typed:
  "AddRead (typed_redis hot R) i u w = AddRead R i u w"
  "GetRC (typed_redis hot R) i w = GetRC R i w"
  "AddWhenCreate (typed_redis hot R) i u w = AddWhenCreate R i u w"
  by (simp_all add: AddRead_def GetRC_def AddWhenCreate_def evalErr_def kinds Let_def)

lemma getViewCount_typed: "getViewCountFromRedis (typed_repo hot r) i n w = getViewCountFromRedis r i n w"
  by (simp add: getViewCountFromRedis_def typed_repo_def views_typed)

lemma overrideViews_typed: "overrideViews (typed_repo hot r) ps w = overrideViews r ps w"
  by (induction ps arbitrary: w) (simp_all add: getViewCount_typed)

lemma loader_typed:
  "cl_localCache (typed_loader hot l) = cl_localCache l"
  "getRedisCache J (typed_loader hot l) i w = getRedisCache J l i w"
  "setRedisCache J (typed_loader hot l) i p w = setRedisCache J l i p w"
  "acquireLock (typed_loader hot l) (prefix_key LockKeyPrefix i) v w = acquireLock l (prefix_key LockKeyPrefix i) v w"
  "releaseLock (typed_loader hot l) (prefix_key LockKeyPrefix i) v w = releaseLock l (prefix_key LockKeyPrefix i) v w"
  by (simp_all add: typed_loader_def getRedisCache_def setRedisCache_def acquireLock_def releaseLock_def kinds
      split: sum.split)

lemma lookups_typed: "lookupCaches J (typed_loader hot l) i w = lookupCaches J l i w"
  unfolding lookupCaches_def loader_typed ..

lemma waitForCache_typed: "waitForCache J (typed_loader hot l) i load evs w = waitForCache J l i load evs w"
  by (induction J l i load evs w rule: waitForCache.induct) (simp_all add: lookups_typed split: option.split prod.split)

lemma GetOrLoad_typed: "GetOrLoad clk J (typed_loader hot l) i load evs w = GetOrLoad clk J l i load evs w"
  unfolding GetOrLoad_def getWithLock_def loadUnderLock_def Let_def lookups_typed waitForCache_typed loader_typed ..

lemma reads_typed:
  "Post_FindByID (typed_repo hot r) i w = Post_FindByID r i w"
  "GetPostDetail clk J (typed_repo hot r) evs u i w = GetPostDetail clk J r evs u i w"
  "Post_List (typed_repo hot r) p n c t w = Post_List r p n c t w"
  "ListByUserID (typed_repo hot r) u p n w = ListByUserID r u p n w"
  "GetRecentPosts (typed_repo hot r) d w = GetRecentPosts r d w"
proof -
  have f: "findByIDFromDB (typed_repo hot r) = findByIDFromDB r" for r :: "'a postRepository"
    by (simp add: findByIDFromDB_def typed_repo_def fun_eq_iff)
  have l: "GetOrLoad clk J (pr_cacheLoader (typed_repo hot r)) i load evs w = GetOrLoad clk J (pr_cacheLoader r) i load evs w" for load w
    by (simp add: typed_repo_def GetOrLoad_typed)
  have a: "AddRead (pr_redis (typed_repo hot r)) i u w = AddRead (pr_redis r) i u w" for w
    by (simp add: typed_repo_def views_typed)
  have db: "pr_db (typed_repo hot r) = pr_db r" by (simp add: typed_repo_def)
  show "GetPostDetail clk J (typed_repo hot r) evs u i w = GetPostDetail clk J r evs u i w"
    unfolding GetPostDetail_def f l a getViewCount_typed ..
  show "Post_FindByID (typed_repo hot r) i w = Post_FindByID r i w" by (simp add: Post_FindByID_def db)
  show "Post_List (typed_repo hot r) p n c t w = Post_List r p n c t w"
    unfolding Post_List_def db overrideViews_typed ..
  show "ListByUserID (typed_repo hot r) u p n w = ListByUserID r u p n w"
    unfolding ListByUserID_def db overrideViews_typed ..
  show "GetRecentPosts (typed_repo hot r) d w = GetRecentPosts r d w"
    unfolding GetRecentPosts_def db overrideViews_typed ..
qed

section \<open>Writes\<close>

lemma RemoveEmptyCache_typed:
  "RemoveEmptyCache i (typed_evc hot c) w = (case RemoveEmptyCache i c w of (r, c', w') \<Rightarrow> (r, typed_evc hot c', w'))"
  by (cases "evc_redis c") (simp_all add: RemoveEmptyCache_def typed_evc_def kinds Let_def split: sum.split prod.split)

lemma DeletePostCache_typed:
  "DeletePostCache (typed_hps hot h) i w = (case DeletePostCache h i w of (r, h', w') \<Rightarrow> (r, typed_hps hot h', w'))"
proof -
  obtain x c w2 where c: "RemoveEmptyCache i (hps_emptyValueCache h) (LocalCache_Delete (hps_localCache h) i w) = (x, c, w2)"
    by (metis prod_cases3)
  then show ?thesis
    by (cases "hps_redis h")
      (simp_all add: DeletePostCache_def typed_hps_def RemoveEmptyCache_typed kinds Let_def split: sum.split prod.split)
qed

lemma invalidate_typed:
  "invalidate (typed_repo hot r) i w = (case invalidate r i w of (x, r', w') \<Rightarrow> (x, typed_repo hot r', w'))"
  by (simp add: invalidate_def typed_repo_def DeletePostCache_typed split: prod.split)

lemma Post_writes_typed:
  "Post_Update J (typed_repo hot r) p w = (case Post_Update J r p w of (x, r', w') \<Rightarrow> (x, typed_repo hot r', w'))"
  "Post_Delete (typed_repo hot r) i u w = (case Post_Delete r i u w of (x, r', w') \<Rightarrow> (x, typed_repo hot r', w'))"
  "Post_Create J nextID (typed_repo hot r) p w = Post_Create J nextID r p w"
proof -
  have db: "pr_db (typed_repo hot r) = pr_db r" "pr_redis (typed_repo hot r) = typed_redis hot (pr_redis r)"
    by (simp_all add: typed_repo_def)
  show "Post_Update J (typed_repo hot r) p w = (case Post_Update J r p w of (x, r', w') \<Rightarrow> (x, typed_repo hot r', w'))"
    by (simp add: Post_Update_def db(1) invalidate_typed split: sum.split prod.split)
  show "Post_Delete (typed_repo hot r) i u w = (case Post_Delete r i u w of (x, r', w') \<Rightarrow> (x, typed_repo hot r', w'))"
    by (simp add: Post_Delete_def db(1) invalidate_typed split: sum.split prod.split)
  show "Post_Create J nextID (typed_repo hot r) p w = Post_Create J nextID r p w"
    unfolding Post_Create_def db views_typed ..
qed

section \<open>The server\<close>

lemma svc_parts_typed:
  "svc_PostRepo (typed_svc hot s) = typed_repo hot (svc_PostRepo s)"
  "svc_CommentRepo (typed_svc hot s) = svc_CommentRepo s"
  "svc_HotPostSvc (typed_svc hot s) = typed_hps hot (svc_HotPostSvc s)"
  "svc_ViewCountSync (typed_svc hot s) = map_option (typed_syncer hot) (svc_ViewCountSync s)"
  "MightContain L i (svc_BloomFilter (typed_svc hot s)) = MightContain L i (svc_BloomFilter s)"
  "(typed_svc hot s)\<lparr>svc_PostRepo := typed_repo hot r\<rparr> = typed_svc hot (s\<lparr>svc_PostRepo := r\<rparr>)"
  "(typed_svc hot s)\<lparr>svc_BloomFilter := Bloom_Add L i (svc_BloomFilter (typed_svc hot s))\<rparr> =
     typed_svc hot (s\<lparr>svc_BloomFilter := Bloom_Add L i (svc_BloomFilter s)\<rparr>)"
  by (simp_all add: typed_svc_def svc_HotPostSvc_def MightContain_def Bloom_Add_def typed_repo_def)

lemma comment_counts_typed:
  "IncrementCommentCount (typed_repo hot r) i w = IncrementCommentCount r i w"
  "DecrementCommentCount (typed_repo hot r) i w = DecrementCommentCount r i w"
  "Post_IncrementViewCount (typed_repo hot r) i w = Post_IncrementViewCount r i w"
  by (simp_all add: IncrementCommentCount_def DecrementCommentCount_def Post_IncrementViewCount_def typed_repo_def)

lemma handlers_typed:
  "GetPost clk J L evs (typed_svc hot s) i u w = GetPost clk J L evs s i u w"
  "ListPosts J (typed_svc hot s) lreq w = ListPosts J s lreq w"
  "ListUserPosts J (typed_svc hot s) u p n w = ListUserPosts J s u p n w"
  "CreateComment clk (typed_svc hot s) creq w = CreateComment clk s creq w"
  "DeleteComment (typed_svc hot s) i u w = DeleteComment s i u w"
  "IncrementViewCount (typed_svc hot s) i w = IncrementViewCount s i w"
  unfolding GetPost_def ListPosts_def ListUserPosts_def CreateComment_def DeleteComment_def IncrementViewCount_def
    svc_parts_typed reads_typed comment_counts_typed
  by (rule refl)+

lemma writers_typed:
  "CreatePost clk J L nextID (typed_svc hot s) cpreq w =
     (case CreatePost clk J L nextID s cpreq w of (r, s', w') \<Rightarrow> (r, typed_svc hot s', w'))"
  "UpdatePost clk J (typed_svc hot s) upreq w = (case UpdatePost clk J s upreq w of (r, s', w') \<Rightarrow> (r, typed_svc hot s', w'))"
  "DeletePost (typed_svc hot s) i u w = (case DeletePost s i u w of (x, s', w') \<Rightarrow> (x, typed_svc hot s', w'))"
proof -
  show "CreatePost clk J L nextID (typed_svc hot s) cpreq w =
      (case CreatePost clk J L nextID s cpreq w of (r, s', w') \<Rightarrow> (r, typed_svc hot s', w'))"
    unfolding CreatePost_def svc_parts_typed Post_writes_typed
    by (auto simp: Let_def split: sum.split prod.split option.split)
  show "UpdatePost clk J (typed_svc hot s) upreq w = (case UpdatePost clk J s upreq w of (r, s', w') \<Rightarrow> (r, typed_svc hot s', w'))"
    unfolding UpdatePost_def svc_parts_typed Post_writes_typed reads_typed
    by (auto simp: Let_def svc_parts_typed split: sum.split prod.split option.split)
  show "DeletePost (typed_svc hot s) i u w = (case DeletePost s i u w of (x, s', w') \<Rightarrow> (x, typed_svc hot s', w'))"
    unfolding DeletePost_def svc_parts_typed Post_writes_typed
    by (auto simp: svc_parts_typed split: sum.split prod.split)
qed

lemma PostServer_typed:
  "PostServer clk J L nextID evs rpc (typed_svc hot s) w =
     map_option (\<lambda>(r, s', w'). (r, typed_svc hot s', w')) (PostServer clk J L nextID evs rpc s w)"
  by (cases rpc) (simp_all add: handlers_typed writers_typed split: prod.split option.split)

section \<open>The jobs\<close>

lemma hps_parts_typed:
  "hps_localCache (typed_hps hot h) = hps_localCache h"
  "hps_circuitBreaker (typed_hps hot h) = hps_circuitBreaker h"
  "hps_Allow clk (typed_hps hot h) w = (case hps_Allow clk h w of (ok, h') \<Rightarrow> (ok, typed_hps hot h'))"
  "hps_Failure clk (typed_hps hot h) w = typed_hps hot (hps_Failure clk h w)"
  "hps_Success (typed_hps hot h) = typed_hps hot (hps_Success h)"
  by (simp_all add: typed_hps_def hps_Allow_def hps_Failure_def hps_Success_def Let_def split: prod.split)

lemma zadd_all_typed: "set ks \<subseteq> set hot_keys \<Longrightarrow> zadd_all (typed_redis True R) ks n m w = zadd_all R ks n m w"
  by (induction ks arbitrary: w) (simp_all add: kinds split: sum.split prod.split)

lemma UpdatePostScore_typed:
  "UpdatePostScore clk (typed_hps True h) p w = (case UpdatePostScore clk h p w of (r, h', w') \<Rightarrow> (r, typed_hps True h', w'))"
proof -
  have i: "updatePostScoreInternal clk (typed_hps True h) p w = updatePostScoreInternal clk h p w" for h
    by (cases "hps_redis h") (simp_all add: updatePostScoreInternal_def typed_hps_def zadd_all_typed kinds Let_def
        split: sum.split prod.split)
  show ?thesis
    by (simp add: UpdatePostScore_def hps_parts_typed i split: prod.split sum.split bool.split)
qed

lemma CachePostDetail_typed:
  "CachePostDetail J (typed_hps hot h) p t w = (case CachePostDetail J h p t w of (r, h', w') \<Rightarrow> (r, typed_hps hot h', w'))"
proof -
  have e: "hps_emptyValueCache (typed_hps hot h) = typed_evc hot (hps_emptyValueCache h)" by (simp add: typed_hps_def)
  show ?thesis
    unfolding CachePostDetail_def hps_parts_typed e RemoveEmptyCache_typed
    by (cases "hps_redis h") (simp_all add: typed_hps_def kinds Let_def split: sum.split prod.split)
qed

lemma Cleanup_typed: "CleanupExpiredPosts clk (typed_hps True h) t w = CleanupExpiredPosts clk h t w"
  by (cases "hps_redis h") (simp_all add: CleanupExpiredPosts_def typed_hps_def kinds Let_def)

lemma each_ok_typed:
  assumes "\<And>s x w. f (g s) x w = (case f s x w of (r, s', w') \<Rightarrow> (r, g s', w'))"
  shows "each_ok f xs n (g s) w = (case each_ok f xs n s w of (e, m, s', w') \<Rightarrow> (e, m, g s', w'))"
  by (induction xs arbitrary: n s w) (simp_all add: assms split: prod.split sum.split)

lemma Cron_Run_typed:
  "Cron_Run clk J (typed_repo True r) (typed_hps True h) w =
     (case Cron_Run clk J r h w of (e, n, m, h', w') \<Rightarrow> (e, n, m, typed_hps True h', w'))"
proof -
  have U: "each_ok (UpdatePostScore clk) ps n (typed_hps True h) w =
      (case each_ok (UpdatePostScore clk) ps n h w of (e, m, h', w') \<Rightarrow> (e, m, typed_hps True h', w'))" for ps n h w
    by (rule each_ok_typed) (rule UpdatePostScore_typed)
  have D: "each_ok (\<lambda>s post. CachePostDetail J s post 3600) ps n (typed_hps True h) w =
      (case each_ok (\<lambda>s post. CachePostDetail J s post 3600) ps n h w of (e, m, h', w') \<Rightarrow> (e, m, typed_hps True h', w'))"
    for ps n h w
    by (rule each_ok_typed) (rule CachePostDetail_typed)
  let ?c = "\<lambda>s timeRange w. case CleanupExpiredPosts clk s timeRange w of (r, w') \<Rightarrow> (r, s, w')"
  have C: "each_ok ?c ts n (typed_hps True h) w =
      (case each_ok ?c ts n h w of (e, m, h', w') \<Rightarrow> (e, m, typed_hps True h', w'))" for ts n h w
    by (rule each_ok_typed) (simp add: Cleanup_typed split: prod.split)
  show ?thesis
    unfolding Cron_Run_def reads_typed by (simp add: U D C split: prod.split sum.split option.split)
qed

lemma view_key_kind: "sscanf_int ''post:view:'' key = Inr i \<Longrightarrow> key_kind key = KHLL"
proof -
  assume "sscanf_int ''post:view:'' key = Inr i"
  then have "take (length ''post:view:'') key = ''post:view:''"
    unfolding sscanf_int_def by (rule contrapos_pp) simp
  then have "key = ''post:view:'' @ drop (length ''post:view:'') key" by (metis append_take_drop_id)
  then obtain r where "key = ''post:view:'' @ r" by blast
  then show ?thesis by (simp add: key_kind_def has_prefix_def)
qed

lemma sync_keys_typed: "sync_keys J (typed_syncer hot v) ks err w = sync_keys J v ks err w"
proof (induction ks arbitrary: err w)
  case (Cons k ks)
  have v: "vs_db (typed_syncer hot v) = vs_db v" "vs_localCache (typed_syncer hot v) = vs_localCache v"
    "redisDel (vs_redis (typed_syncer hot v)) = redisDel (vs_redis v)"
    by (simp_all add: typed_syncer_def kinds)
  show ?case
  proof (cases "sscanf_int ''post:view:'' k")
    case (Inr i)
    with view_key_kind have p: "redisPfcount (vs_redis (typed_syncer hot v)) k = redisPfcount (vs_redis v) k"
      by (simp add: typed_syncer_def kinds)
    show ?thesis unfolding sync_keys.simps v Cons.IH p ..
  qed (simp add: Cons.IH)
qed simp

lemma Sync_typed: "Sync J (typed_syncer hot v) w = Sync J v w"
proof -
  have "redisKeys (vs_redis (typed_syncer hot v)) = redisKeys (vs_redis v)" by (simp add: typed_syncer_def kinds)
  then show ?thesis unfolding Sync_def sync_keys_typed by simp
qed

lemma WarmupCache_typed: "WarmupCache J (typed_svc hot s) w = WarmupCache J s w"
proof -
  have p: "warm_posts J (typed_hps hot h) ps w = warm_posts J h ps w" for h ps w
    by (induction ps arbitrary: w) (simp_all add: ShouldCachePost_def CachePost_def hps_parts_typed)
  show ?thesis unfolding WarmupCache_def svc_parts_typed reads_typed p ..
qed

lemma post_step_typed:
  assumes "is_cron e \<longrightarrow> hot"
  shows "post_step clk J L nextID e (typed_svc hot s) w =
    map_option (\<lambda>(r, s', w'). (r, typed_svc hot s', w')) (post_step clk J L nextID e s w)"
proof (cases e)
  case (PRpc rpc evs)
  then show ?thesis by (simp add: PostServer_typed split: option.split prod.split)
next
  case PSync
  then show ?thesis by (simp add: svc_parts_typed Sync_typed split: option.split)
next
  case PCron
  with assms have hot by simp
  have "(typed_svc True s)\<lparr>svc_PostRepo := (typed_repo True (svc_PostRepo s))\<lparr>pr_hotPostSvc := typed_hps True h\<rparr>\<rparr> =
      typed_svc True (s\<lparr>svc_PostRepo := (svc_PostRepo s)\<lparr>pr_hotPostSvc := h\<rparr>\<rparr>)" for h
    by (simp add: typed_svc_def typed_repo_def)
  with PCron \<open>hot\<close> show ?thesis by (simp add: svc_parts_typed Cron_Run_typed split: prod.split)
qed (simp_all add: WarmupCache_typed)

text \<open>
  C19: Every Redis key of the post service has one type: the server, the view count syncer, the warm-up and
  the hourly job send each command only to keys of the kind the command is for - rankings are sorted
  sets, view counters HyperLogLogs, everything else strings - so every run of the service on a Redis
  handle that refuses ill-typed commands is the same run, reply by reply, as on the real one. And in
  a run without the hourly job, which main never starts, even a handle that refuses all sorted-set
  commands makes no difference: the rankings are neither written nor read.
\<close>

theorem redis_keys_well_typed:
  assumes "list_all (\<lambda>e. is_cron e \<longrightarrow> hot) es"
  shows "post_run clk J L nextID es (typed_svc hot s) w =
    map_option (\<lambda>(rs, s', w'). (rs, typed_svc hot s', w')) (post_run clk J L nextID es s w)"
  using assms
proof (induction es arbitrary: s w)
  case (Cons e es)
  then have e: "is_cron e \<longrightarrow> hot" and IH: "\<And>s w. post_run clk J L nextID es (typed_svc hot s) w =
      map_option (\<lambda>(rs, s', w'). (rs, typed_svc hot s', w')) (post_run clk J L nextID es s w)" by simp_all
  show ?case
    unfolding post_run.simps post_step_typed [OF e] by (auto simp: IH split: option.split prod.split)
qed simp

text \<open>On a handle that refuses sorted sets, the example run of the service still answers.\<close>

theorem redis_keys_well_typed_witness:
  "\<exists>rs s w. post_run (\<lambda>w. w) demo_json list_bloom (\<lambda>w. (Inr 99, w)) demo_events (typed_svc False (demo_ctx demo_db)) 0 =
     Some (rs, s, w)"
proof -
  obtain rs s w where "demo_run = Some (rs, s, w)" using demo_runs by blast
  then show ?thesis
    using redis_keys_well_typed [where es = demo_events and hot = False and s = "demo_ctx demo_db" and w = 0]
    by simp
qed

end
