(* ===== verification/PostRoundtrip.thy ===== *)
theory PostRoundtrip
  imports PostSystem
begin

text \<open>
  From CreatePost to GetPost: what a client that creates a post reads back later, through the filter,
  the loader with its lock and its waiting loop, and the database.
\<close>

section \<open>The posts table\<close>

text \<open>
  The rows by id as a view of the world, for the statements that create and read a post. A deleted
  post has status 3 and is not selected.
\<close>

definition post_table :: "'w post_sqlconn \<Rightarrow> ('w \<Rightarrow> int \<rightharpoonup> Post) \<Rightarrow> bool" where
  "post_table db rows \<longleftrightarrow>
     (\<forall>i u c un t x tags st ct ut w r w'. dbExec db insertPostSQL
        [SInt i, SInt u, SInt c, SStr un, SStr t, SStr x, SStr tags, SInt st, STime ct, STime ut] w = (Inr r, w') \<longrightarrow>
        rows w' = (rows w)(i \<mapsto> \<lparr>post_ID = i, post_UserID = u, post_CommunityID = c, post_Username = un,
          post_Title = t, post_Content = x, post_Tags = tags, post_LikeCount = 0, post_CommentCount = 0,
          post_ViewCount = 0, post_Status = st, post_CreatedAt = ct, post_UpdatedAt = ut\<rparr>)) \<and>
     (\<forall>i w. dbQueryPost db selectPostSQL [SInt i] w =
        (case rows w i of None \<Rightarrow> Inl ErrSqlNoRows
         | Some p \<Rightarrow> if post_Status p = 3 then Inl ErrSqlNoRows else Inr p, w))"

text \<open>Redis and the local cache do not write to the table.\<close>

definition rows_frame :: "'w redis \<Rightarrow> 'w HotPostLocalCache \<Rightarrow> ('w \<Rightarrow> int \<rightharpoonup> Post) \<Rightarrow> bool" where
  "rows_frame R lc rows \<longleftrightarrow>
     (\<forall>k w. rows (snd (redisGet R k w)) = rows w) \<and> (\<forall>k v t w. rows (snd (redisSetex R k v t w)) = rows w) \<and>
     (\<forall>sc ks args w. rows (snd (redisEval R sc ks args w)) = rows w) \<and>
     bigcache_frame (cache lc) rows"

lemma rows_frameD:
  assumes "rows_frame R lc rows"
  shows "redisGet R k w = (x, w') \<Longrightarrow> rows w' = rows w"
    and "rows (snd (redisSetex R k v t w)) = rows w"
    and "redisEval R sc ks args w = (y, w') \<Longrightarrow> rows w' = rows w"
    and "LocalCache_Get J lc i w = (p, w') \<Longrightarrow> rows w' = rows w"
    and "rows (LocalCache_Set J lc q w) = rows w"
proof -
  note F = assms [unfolded rows_frame_def bigcache_frame_def]
  show "redisGet R k w = (x, w') \<Longrightarrow> rows w' = rows w" "redisEval R sc ks args w = (y, w') \<Longrightarrow> rows w' = rows w"
    using F by (metis snd_conv)+
  show "rows (snd (redisSetex R k v t w)) = rows w" using F by simp
  have G: "bcGet (cache lc) k w = (z, w1) \<Longrightarrow> rows w1 = rows w" for k z w1 using F by (metis snd_conv)
  show "LocalCache_Get J lc i w = (p, w') \<Longrightarrow> rows w' = rows w"
    using F by (auto simp: LocalCache_Get_def split: sum.splits prod.splits dest: G)
  show "rows (LocalCache_Set J lc q w) = rows w"
    using F by (auto simp: LocalCache_Set_def split: sum.splits option.splits)
qed

section \<open>Loading\<close>

definition copy_of :: "Post \<Rightarrow> Post \<Rightarrow> bool" where
  "copy_of p q \<longleftrightarrow> p\<lparr>post_ViewCount := 0\<rparr> = q\<lparr>post_ViewCount := 0\<rparr>"

lemma copy_ofD:
  assumes "copy_of p q"
  shows "post_Tags p = post_Tags q" "postInfo (p\<lparr>post_ViewCount := n\<rparr>) ts = (postInfo q ts)\<lparr>pi_ViewCount := n\<rparr>"
  using assms by (cases p; cases q; simp add: copy_of_def postInfo_def)+

lemma postInfo_tags: "postInfo p ts = (postInfo p us)\<lparr>pi_Tags := ts\<rparr>"
  by (simp add: postInfo_def)

text \<open>The loader around one id: no step leaves the worlds \<open>P\<close>, and every source gives copies of \<open>q\<close>.\<close>

lemma lookupCaches_rows:
  assumes "rows_frame R lc rows" "lookupCaches J (NewCacheLoader R lc) i w = (r, w')"
  shows "rows w' = rows w"
proof -
  have g: "getRedisCache J (NewCacheLoader R lc) i v = (x, v') \<Longrightarrow> rows v' = rows v" for v x v'
    by (auto simp: getRedisCache_def NewCacheLoader_def split: sum.splits prod.splits if_splits
        dest: rows_frameD(1) [OF assms(1)])
  have lc: "cl_localCache (NewCacheLoader R lc) = lc" by (simp add: NewCacheLoader_def)
  note k = rows_frameD(4) [OF assms(1)] g rows_frameD(5) [OF assms(1)]
  show ?thesis
    using assms(2) unfolding lookupCaches_def lc
    by (auto split: prod.splits option.splits if_splits) (metis k)+
qed

definition loads_copies :: "('w \<Rightarrow> bool) \<Rightarrow> Post \<Rightarrow> Post option res \<times> 'w \<Rightarrow> bool" where
  "loads_copies P q x \<longleftrightarrow> (\<exists>p w'. x = (Inr (Some p), w') \<and> copy_of p q \<and> P w')"

lemma GetOrLoad_copies:
  assumes F: "rows_frame R lc rows" and P: "\<And>v v'. rows v' = rows v \<Longrightarrow> P v \<Longrightarrow> P v'"
    and L: "\<And>v p. P v \<Longrightarrow> fst (lookupCaches J (NewCacheLoader R lc) i v) = Some p \<Longrightarrow> copy_of p q"
    and load: "\<And>v. P v \<Longrightarrow> loads_copies P q (load v)"
    and evs: "list_ex ends_wait evs" "\<forall>(e, f) \<in> set evs. (\<forall>v. P v \<longrightarrow> P (f v)) \<and> (\<forall>x. e \<noteq> EvDone x)"
    and w: "P w"
  shows "\<exists>x. GetOrLoad clk J (NewCacheLoader R lc) i load evs w = Some x \<and> loads_copies P q x"
proof -
  let ?l = "NewCacheLoader R lc"
  have look: "P v' \<and> (\<forall>p. r = Some p \<longrightarrow> copy_of p q)" if "lookupCaches J ?l i v = (r, v')" "P v" for v r v'
    using P [OF lookupCaches_rows [OF F that(1)] that(2)] L [OF that(2)] that(1) by auto
  have ev: "P v'" if "redisEval R sc ks args v = (y, v')" "P v" for sc ks args v y v'
    by (rule P [OF rows_frameD(3) [OF F that(1)] that(2)])
  have wait: "\<exists>x. waitForCache J ?l i load es v = Some x \<and> loads_copies P q x"
    if "list_ex ends_wait es" "\<forall>(e, f) \<in> set es. (\<forall>v. P v \<longrightarrow> P (f v)) \<and> (\<forall>x. e \<noteq> EvDone x)" "P v" for es v
    using that
  proof (induction es arbitrary: v)
    case (Cons e es)
    obtain k f where e: "e = (k, f)" by fastforce
    with Cons.prems have Pf: "P (f v)" by auto
    show ?case
    proof (cases k)
      case EvTick
      obtain r v' where r: "lookupCaches J ?l i (f v) = (r, v')" by fastforce
      from look [OF r Pf] show ?thesis
        using Cons e EvTick r by (cases r) (auto simp: loads_copies_def)
    qed (use load [OF Pf] Cons.prems e in auto)
  qed simp
  have set: "P (setRedisCache J ?l i p v)" "P (LocalCache_Set J lc (Some p) v)" if "P v" for p v
    using P [OF _ that] rows_frameD(2,5) [OF F] that by (auto simp: setRedisCache_def NewCacheLoader_def split: sum.split)
  have lc: "cl_localCache ?l = lc" "cl_redis ?l = R" by (simp_all add: NewCacheLoader_def)
  have under: "loads_copies P q (loadUnderLock J ?l i load v)" if "P v" for v
  proof -
    obtain r v1 where r: "lookupCaches J ?l i v = (r, v1)" by fastforce
    note r' = look [OF r that]
    obtain p v2 where p: "load v1 = (Inr (Some p), v2)" "copy_of p q" "P v2"
      using load [of v1] r' unfolding loads_copies_def by blast
    obtain r2 v3 where r2: "lookupCaches J ?l i v2 = (r2, v3)" by fastforce
    note r2' = look [OF r2 p(3)]
    show ?thesis
      using r r' p r2 r2' set by (cases r; cases r2) (auto simp: loadUnderLock_def loads_copies_def lc)
  qed
  obtain r w1 where r: "lookupCaches J ?l i w = (r, w1)" by fastforce
  note r' = look [OF r w]
  show ?thesis
  proof (cases r)
    case (Some p)
    with r r' show ?thesis by (auto simp: GetOrLoad_def loads_copies_def)
  next
    case None
    obtain b w2 where b: "acquireLock ?l (prefix_key LockKeyPrefix i) (pair_text (clk w1) i) w1 = (b, w2)" by fastforce
    then have w2: "P w2" using r' by (auto simp: acquireLock_def lc split: sum.splits prod.splits dest: ev)
    have rel: "P (releaseLock ?l k v u)" if "P u" for k v u
      using that ev by (simp add: releaseLock_def lc) (metis prod.collapse)
    obtain p w3 where u: "loadUnderLock J ?l i load w2 = (Inr (Some p), w3)" "copy_of p q" "P w3"
      using under [OF w2] by (auto simp: loads_copies_def)
    from None r b w2 load [OF w2] wait [OF evs w2] u rel [OF u(3)] show ?thesis
      by (cases b) (auto simp: GetOrLoad_def getWithLock_def Let_def loads_copies_def split: bool.split)
  qed
qed

section \<open>Creating and reading\<close>

text \<open>The row a successful CreatePost leaves, and what of it the answer shows.\<close>

lemma CreatePost_row:
  assumes T: "post_table db rows" and F: "rows_frame R lc rows" and S: "svc_ok db R lc s"
    and c: "CreatePost clk J L nextID s req w = (Inr info, s', w')"
  shows "\<exists>p t d. rows w' (pi_Id info) = Some p \<and> marshalString J t = Inr d \<and> post_Tags p = d \<and> post_Status p = 2 \<and>
    info = (postInfo p (cp_Tags req))"
proof -
  have repo: "pr_db (svc_PostRepo s) = db" "pr_redis (svc_PostRepo s) = R" using S by (simp_all add: svc_ok_def Let_def)
  have ev: "rows v' = rows v" if "AddWhenCreate R i u v = (x, v')" for i u v x v'
    using that by (auto simp: AddWhenCreate_def evalErr_def Let_def split: sum.splits prod.splits dest: rows_frameD(3) [OF F])
  have ins: "rows v' = (rows v)(i \<mapsto> \<lparr>post_ID = i, post_UserID = u, post_CommunityID = c, post_Username = un,
      post_Title = t, post_Content = x, post_Tags = tags, post_LikeCount = 0, post_CommentCount = 0,
      post_ViewCount = 0, post_Status = st, post_CreatedAt = ct, post_UpdatedAt = ut\<rparr>)"
    if "dbExec db insertPostSQL [SInt i, SInt u, SInt c, SStr un, SStr t, SStr x, SStr tags, SInt st, STime ct, STime ut] v =
      (Inr r, v')" for i u c un t x tags st ct ut v r v'
    using T that unfolding post_table_def by blast
  show ?thesis
    using c
    by (auto simp: CreatePost_def Post_Create_def postInfo_def Let_def
        split: sum.splits prod.splits option.splits if_splits dest!: ev [unfolded repo(2) [symmetric]] ins [unfolded repo(1) [symmetric]])
qed


text \<open>A database for examples: the world is the table.\<close>

definition rt_db :: "(int \<rightharpoonup> Post) post_sqlconn" where
  "rt_db = demo_db\<lparr>
     dbExec := (\<lambda>sql args w. (Inr \<lparr>rowsAffected = Inr 1, lastInsertId = Inr 1\<rparr>, case args of
         [SInt i, SInt u, SInt c, SStr un, SStr t, SStr x, SStr tags, SInt st, STime ct, STime ut] \<Rightarrow>
           w(i \<mapsto> \<lparr>post_ID = i, post_UserID = u, post_CommunityID = c, post_Username = un,
             post_Title = t, post_Content = x, post_Tags = tags, post_LikeCount = 0, post_CommentCount = 0,
             post_ViewCount = 0, post_Status = st, post_CreatedAt = ct, post_UpdatedAt = ut\<rparr>)
       | _ \<Rightarrow> w)),
     dbQueryPost := (\<lambda>sql args w. case args of
         [SInt i] \<Rightarrow> (case w i of None \<Rightarrow> Inl ErrSqlNoRows
            | Some p \<Rightarrow> if post_Status p = 3 then Inl ErrSqlNoRows else Inr p, w)
       | _ \<Rightarrow> (Inl (ErrLib ''args''), w))\<rparr>"

lemma rt_table: "post_table rt_db (\<lambda>w. w)"
  by (auto simp: post_table_def rt_db_def)

abbreviation (input) demo_cache :: "'w HotPostLocalCache" where
  "demo_cache \<equiv> \<lparr>HotPostLocalCache.cache = empty_bigcache, threshold = 1000\<rparr>"

lemma rt_frame: "rows_frame ok_redis demo_cache (\<lambda>w. w)"
  by (simp add: rows_frame_def ok_redis_def down_redis_def down_def bigcache_frame_def empty_bigcache_def)


end
