(* ===== verification/RowMapping.thy ===== *)
theory RowMapping
  imports PostLogic
begin

text \<open>
  Which rows the post service can read back: the columns its statements select
  (\<open>post/internal/repository\<close>) against the structs they are read into (\<open>post/internal/model\<close>), and
  what follows for the calls that read posts and comments.
\<close>

section \<open>Columns and fields\<close>

fun before :: "string \<Rightarrow> string \<Rightarrow> string" where
  "before sub [] = []"
| "before sub (x # xs) = (if take (length sub) (x # xs) = sub then [] else x # before sub xs)"

text \<open>The expressions between SELECT and FROM.\<close>

definition select_items :: "string \<Rightarrow> string list" where
  "select_items sql = map (dropWhile (\<lambda>c. c = CHR '' '')) (split_on CHR '','' (drop (length ''SELECT '') (before '' FROM '' sql)))"

text \<open>The fields of the structs in order, with those of type int64; no field has a column tag.\<close>

definition post_fields :: "(string \<times> bool) list" where
  "post_fields = [(''ID'', True), (''UserID'', True), (''CommunityID'', True), (''Username'', False), (''Title'', False),
     (''Content'', False), (''Tags'', False), (''LikeCount'', True), (''CommentCount'', True), (''ViewCount'', True),
     (''Status'', True), (''CreatedAt'', True), (''UpdatedAt'', True)]"

definition comment_fields :: "(string \<times> bool) list" where
  "comment_fields = [(''ID'', True), (''PostID'', True), (''UserID'', True), (''Username'', False), (''Content'', False),
     (''ParentID'', True), (''Status'', True), (''CreatedAt'', True), (''UpdatedAt'', True)]"

text \<open>The columns of type TIMESTAMP in the tables of the post service.\<close>

definition timestamp_columns :: "string set" where
  "timestamp_columns = {''created_at'', ''updated_at''}"

text \<open>
  Documented behaviour of the SQL library and the driver: a row is read into a struct without column
  tags field by field, only when it has a column for every field, and a TIMESTAMP comes as a time
  (the data source says \<open>parseTime=true\<close>), which does not convert to an int64.
\<close>

definition readable :: "(string \<times> bool) list \<Rightarrow> string \<Rightarrow> bool" where
  "readable fs sql \<longleftrightarrow> length fs \<le> length (select_items sql) \<and>
     list_all (\<lambda>((f, int), c). \<not> (int \<and> c \<in> timestamp_columns)) (zip fs (select_items sql))"

definition strict_rows :: "'w post_sqlconn \<Rightarrow> bool" where
  "strict_rows db \<longleftrightarrow>
     (\<forall>sql args w. \<not> readable post_fields sql \<longrightarrow>
        isl (fst (dbQueryPost db sql args w)) \<and> fst (dbQueryPosts db sql args w) \<in> {Inr []} \<union> range Inl) \<and>
     (\<forall>sql args w. \<not> readable comment_fields sql \<longrightarrow>
        isl (fst (dbQueryComment db sql args w)) \<and> fst (dbQueryComments db sql args w) \<in> {Inr []} \<union> range Inl)"

section \<open>What can be read\<close>

lemma readable_posts: "readable post_fields selectPostSQL" "readable post_fields recentPostsSQL"
  by code_simp+

lemma unreadable: "\<not> readable post_fields listByUserSQL" "\<not> readable comment_fields selectCommentSQL"
  "\<not> readable comment_fields listCommentsSQL"
  by code_simp+

lemma contains_length: "contains xs sub \<Longrightarrow> length sub \<le> length xs"
  by (induction xs) (auto dest: arg_cong [of "take _ _" _ length])

lemma before_append: "contains xs sub \<Longrightarrow> sub \<noteq> [] \<Longrightarrow> before sub (xs @ ys) = before sub xs"
proof (induction xs)
  case (Cons x xs)
  have "length sub \<le> length (x # xs)" using contains_length [OF Cons.prems(1)] .
  then have t: "take (length sub) ((x # xs) @ ys) = take (length sub) (x # xs)"
    by (simp only: take_append diff_is_0_eq' take0 append_Nil2)
  show ?case
  proof (cases "take (length sub) (x # xs) = sub")
    case False
    with Cons have "before sub (xs @ ys) = before sub xs" by simp
    with t False show ?thesis by simp
  qed (use t in simp)
qed simp

lemma unreadable_list: "\<not> readable post_fields (listSQL @ rest)"
proof -
  have "contains listSQL '' FROM ''" by code_simp
  then have "select_items (listSQL @ rest) = select_items listSQL" by (simp add: select_items_def before_append)
  moreover have "\<not> readable post_fields listSQL" by code_simp
  ultimately show ?thesis by (simp add: readable_def)
qed

lemma listQueries_list: "\<exists>rest args count. listQueries page pageSize communityID tag = (count, (listSQL @ rest, args))"
  by (auto simp: listQueries_def Let_def split: prod.split)

section \<open>What the service answers\<close>

lemma overrideViews_nil: "overrideViews r [] w = ([], w)"
  by simp

lemma Post_List_empty:
  assumes "strict_rows (pr_db r)" "Post_List r page pageSize communityID tag w = (Inr (posts, n), w')"
  shows "posts = []"
proof -
  obtain rest args cq cargs where q: "listQueries page pageSize communityID tag = ((cq, cargs), (listSQL @ rest, args))"
    using listQueries_list [of page pageSize communityID tag] by (metis surj_pair)
  obtain x w1 where c: "dbQueryInt (pr_db r) cq cargs w = (x, w1)" by fastforce
  obtain y w2 where d: "dbQueryPosts (pr_db r) (listSQL @ rest) args w1 = (y, w2)" by fastforce
  have "y \<in> {Inr []} \<union> range Inl"
    using assms(1) unreadable_list [of rest] d unfolding strict_rows_def by (metis fst_conv)
  with assms(2) q c d show ?thesis by (cases x) (auto simp: Post_List_def)
qed

lemma ListByUserID_empty:
  assumes "strict_rows (pr_db r)" "ListByUserID r u page pageSize w = (Inr (posts, n), w')"
  shows "posts = []"
proof -
  obtain x w1 where c: "dbQueryInt (pr_db r) countByUserSQL [SInt u] w = (x, w1)" by fastforce
  let ?args = "[SInt u, SInt pageSize, SInt (i64 (i64 (page - 1) * pageSize))]"
  obtain y w2 where d: "dbQueryPosts (pr_db r) listByUserSQL ?args w1 = (y, w2)" by fastforce
  have "y \<in> {Inr []} \<union> range Inl"
    using assms(1) unreadable(1) d unfolding strict_rows_def by (metis fst_conv)
  with assms(2) c d show ?thesis by (cases x) (auto simp: ListByUserID_def Let_def)
qed

lemma postInfos_nil: "postInfos J [] = Inr []"
  by simp

text \<open>
  C12: The listings and the comments cannot be read: with the SQL library reading rows strictly, ListPosts
  and ListUserPosts never show a post, because they select the raw TIMESTAMP columns for int64 fields;
  and a comment is never read, because its struct has a field more than the statements select columns:
  DeleteComment fails for every comment and deletes nothing, and GetPost shows a post
  without comments. Only the statements that read one post and the recent ones fit their struct.
\<close>

theorem listings_and_comments_unreadable:
  assumes "strict_rows (pr_db (svc_PostRepo s))" "strict_rows (cr_db (svc_CommentRepo s))"
  shows "(\<forall>req infos n w'. ListPosts J s req w = (Inr (infos, n), w') \<longrightarrow> infos = [])
    \<and> (\<forall>u page size infos n w'. ListUserPosts J s u page size w = (Inr (infos, n), w') \<longrightarrow> infos = [])
    \<and> (\<forall>i u. \<exists>e. DeleteComment s i u w = ((False, Some e), snd (dbQueryComment (cr_db (svc_CommentRepo s)) selectCommentSQL [SInt i] w)))
    \<and> (\<forall>evs i u p cs w'. GetPost clk J L evs s i u w = Some (Inr (p, cs), w') \<longrightarrow> cs = [])
    \<and> readable post_fields selectPostSQL \<and> readable post_fields recentPostsSQL"
proof (intro conjI allI impI readable_posts)
  show "infos = []" if "ListPosts J s req w = (Inr (infos, n), w')" for req infos n w'
  proof -
    obtain x w1 where p: "Post_List (svc_PostRepo s) (lp_Page req) (lp_PageSize req) (lp_CommunityId req) (lp_Tag req) w = (x, w1)"
      by fastforce
    with that Post_List_empty [OF assms(1), of "lp_Page req" "lp_PageSize req" "lp_CommunityId req" "lp_Tag req" w]
    show ?thesis by (cases x) (auto simp: ListPosts_def)
  qed
  show "infos = []" if "ListUserPosts J s u page size w = (Inr (infos, n), w')" for u page size infos n w'
  proof -
    obtain x w1 where p: "ListByUserID (svc_PostRepo s) u page size w = (x, w1)" by fastforce
    with that ListByUserID_empty [OF assms(1), of u page size w] show ?thesis
      by (cases x) (auto simp: ListUserPosts_def)
  qed
  show "\<exists>e. DeleteComment s i u w = ((False, Some e), snd (dbQueryComment (cr_db (svc_CommentRepo s)) selectCommentSQL [SInt i] w))" for i u
  proof -
    obtain x w1 where q: "dbQueryComment (cr_db (svc_CommentRepo s)) selectCommentSQL [SInt i] w = (x, w1)" by fastforce
    have "isl x" using assms(2) unreadable(2) q unfolding strict_rows_def by (metis fst_conv)
    with q show ?thesis by (cases x) (auto simp: DeleteComment_def Comment_FindByID_def)
  qed
  show "cs = []" if G: "GetPost clk J L evs s i u w = Some (Inr (p, cs), w')" for evs i u p cs w'
  proof -
    have c: "MightContain L i (svc_BloomFilter s)" using G by (auto simp: GetPost_def split: if_splits)
    obtain r w1 where g: "GetPostDetail clk J (svc_PostRepo s) evs u i w = Some (r, w1)"
      using G c by (cases "GetPostDetail clk J (svc_PostRepo s) evs u i w") (auto simp: GetPost_def)
    obtain x where r: "r = Inr (Some x)"
      using G c g by (cases r; cases "projr r") (auto simp: GetPost_def)
    obtain y w2 where l: "ListByPostID (svc_CommentRepo s) i w1 = (y, w2)" by fastforce
    then have "y \<in> {Inr []} \<union> range Inl"
      using assms(2) unreadable(3) unfolding strict_rows_def ListByPostID_def by (metis fst_conv)
    with G c g r l show ?thesis by (auto simp: GetPost_def Let_def)
  qed
qed

text \<open>For examples: a database of one post and one comment, read strictly.\<close>

definition strict_db :: "int post_sqlconn" where
  "strict_db = demo_db\<lparr>
     dbQueryInt := (\<lambda>sql args w. (Inr 1, w)),
     dbQueryPost := (\<lambda>sql args w. (if readable post_fields sql then Inr demo_post else Inl (ErrLib ''scan''), w)),
     dbQueryPosts := (\<lambda>sql args w. (if readable post_fields sql then Inr [demo_post] else Inl (ErrLib ''scan''), w)),
     dbQueryComment := (\<lambda>sql args w. (Inl (ErrLib ''not matching destination to scan''), w + 1)),
     dbQueryComments := (\<lambda>sql args w. (Inl (ErrLib ''not matching destination to scan''), w))\<rparr>"

lemma strict_db_queries:
  "dbQueryInt strict_db sql args w = (Inr 1, w)"
  "dbQueryPosts strict_db sql args w = (if readable post_fields sql then Inr [demo_post] else Inl (ErrLib ''scan''), w)"
  by (simp_all add: strict_db_def)

lemma strict_db_rows: "strict_rows strict_db"
  by (simp add: strict_rows_def strict_db_def)

theorem listings_and_comments_unreadable_witness:
  "(\<exists>e. DeleteComment (demo_ctx strict_db) 5 8 0 = ((False, Some e), 1))
   \<and> fst (ListUserPosts demo_json (demo_ctx strict_db) 3 1 10 0) = Inl (ErrLib ''scan'')"
proof -
  have db: "pr_db (svc_PostRepo (demo_ctx strict_db)) = strict_db" "cr_db (svc_CommentRepo (demo_ctx strict_db)) = strict_db"
    by (simp_all add: demo_ctx_def NewCommentRepository_def NewPostRepository_def Let_def)
  have q: "snd (dbQueryComment strict_db selectCommentSQL [SInt 5] 0) = 1" by (simp add: strict_db_def)
  have "\<exists>e. DeleteComment (demo_ctx strict_db) 5 8 0 = ((False, Some e), 1)"
    using listings_and_comments_unreadable [of "demo_ctx strict_db", unfolded db, OF strict_db_rows strict_db_rows,
        THEN conjunct2, THEN conjunct2, THEN conjunct1, rule_format, of 5 8 0] by (simp add: q)
  moreover have "fst (ListUserPosts demo_json (demo_ctx strict_db) 3 1 10 0) = Inl (ErrLib ''scan'')"
    using unreadable(1) by (simp add: ListUserPosts_def ListByUserID_def db strict_db_queries Let_def)
  ultimately show ?thesis ..
qed

end
