(* ===== verification/LikeRepository.thy ===== *)
theory LikeRepository
  imports External
begin

text \<open>
  The likes table (\<open>interaction/internal/model/like.go\<close>,
  \<open>interaction/internal/repository/like_repository_impl.go\<close>). The repository on the connection and
  the one inside a transaction run the same statements on a connection and on a session.
\<close>

section \<open>Rows and handles\<close>

text \<open>Times are nanoseconds; \<open>Unliketime\<close> is a pointer. Type and status are int8 columns.\<close>

record Like =
  like_Id :: int
  like_Type :: int
  like_TargetId :: int
  like_UserId :: int
  like_Status :: int
  like_Liketime :: int
  like_Unliketime :: "int option"

text \<open>
  Statement arguments of this table besides integers are times and nullable times. A connection
  and a session offer the same three calls; a connection also runs transactions.
\<close>

datatype likearg = LInt int | LTime int | LNullTime "int option"

record 'w like_session =
  lsExec :: "string \<Rightarrow> likearg list \<Rightarrow> 'w \<Rightarrow> sql_result res \<times> 'w"
  lsQueryLike :: "string \<Rightarrow> likearg list \<Rightarrow> 'w \<Rightarrow> Like res \<times> 'w"
  lsQueryStatuses :: "string \<Rightarrow> likearg list \<Rightarrow> 'w \<Rightarrow> (int \<times> int) list res \<times> 'w"

text \<open>
  \<open>TransactCtx\<close> runs a function on a session. The function may assign a variable of its caller,
  a boolean in the handlers: it is passed through as the first component.
\<close>

record 'w like_conn = "'w like_session" +
  lcTransact :: "('w like_session \<Rightarrow> 'w \<Rightarrow> (bool \<times> unit res) \<times> 'w) \<Rightarrow> 'w \<Rightarrow> (bool \<times> unit res) \<times> 'w"

definition insertLikeSQL :: string where
  "insertLikeSQL = ''INSERT INTO likes (id, type, target_id, user_id, status, liketime) VALUES (?, ?, ?, ?, ?, ?)''"

definition updateLikeSQL :: string where
  "updateLikeSQL = ''UPDATE likes SET status = ?, liketime = ?, unliketime = ?, updated_at = CURRENT_TIMESTAMP WHERE target_id = ? AND user_id = ?''"

definition findLikeSQL :: string where
  "findLikeSQL = ''SELECT id, type, target_id, user_id, status, liketime, unliketime, created_at, updated_at FROM likes WHERE target_id = ? AND user_id = ?''"

definition likeStatusSQL :: string where
  "likeStatusSQL = ''SELECT target_id, status FROM likes WHERE user_id = ? AND target_id IN (?)''"

definition one_row :: "sql_result \<Rightarrow> unit res" where
  "one_row result =
     (case rowsAffected result of
        Inl err \<Rightarrow> Inl (Wrap ''get rows affected failed'' err)
      | Inr rows \<Rightarrow> (if rows \<noteq> 1 then Inl (Errorf (''expected 1 row affected, got '' @ show_int rows)) else Inr ()))"

section \<open>Statements on a connection or session\<close>

definition insert_like :: "('w, 'x) like_session_scheme \<Rightarrow> Like \<Rightarrow> 'w \<Rightarrow> unit res \<times> 'w" where
  "insert_like s l w =
     (case lsExec s insertLikeSQL [LInt (like_Id l), LInt (like_Type l), LInt (like_TargetId l),
              LInt (like_UserId l), LInt (like_Status l), LTime (like_Liketime l)] w of
        (Inl err, w') \<Rightarrow> (Inl (Wrap ''insert like failed'' err), w')
      | (Inr result, w') \<Rightarrow> (one_row result, w'))"

definition update_like :: "('w, 'x) like_session_scheme \<Rightarrow> Like \<Rightarrow> 'w \<Rightarrow> unit res \<times> 'w" where
  "update_like s l w =
     (case lsExec s updateLikeSQL [LInt (like_Status l), LTime (like_Liketime l), LNullTime (like_Unliketime l),
              LInt (like_TargetId l), LInt (like_UserId l)] w of
        (Inl err, w') \<Rightarrow> (Inl (Wrap ''update like failed'' err), w')
      | (Inr result, w') \<Rightarrow> (one_row result, w'))"

definition find_like :: "('w, 'x) like_session_scheme \<Rightarrow> int \<Rightarrow> int \<Rightarrow> 'w \<Rightarrow> Like option res \<times> 'w" where
  "find_like s targetId userId w =
     (case lsQueryLike s findLikeSQL [LInt targetId, LInt userId] w of
        (Inl err, w') \<Rightarrow>
          (if err = ErrSqlNoRows then (Inr None, w') else (Inl (Wrap ''find like failed'' err), w'))
      | (Inr l, w') \<Rightarrow> (Inr (Some l), w'))"

text \<open>The statement has two placeholders; the arguments are the user and every target.\<close>

definition like_status :: "('w, 'x) like_session_scheme \<Rightarrow> int \<Rightarrow> int list \<Rightarrow> 'w \<Rightarrow> (int \<rightharpoonup> bool) res \<times> 'w" where
  "like_status s userId targetIds w =
     (if length targetIds = 0 then (Inr Map.empty, w)
      else (case lsQueryStatuses s likeStatusSQL (LInt userId # map LInt targetIds) w of
              (Inl err, w') \<Rightarrow> (Inl (Wrap ''query like status failed'' err), w')
            | (Inr results, w') \<Rightarrow>
                (Inr (foldl (\<lambda>m r. m(fst r \<mapsto> (snd r = 1))) Map.empty results), w')))"

section \<open>The repositories\<close>

definition LikeRepo_Create ::
  "('w \<Rightarrow> int res \<times> 'w) \<Rightarrow> 'w like_conn \<Rightarrow> Like \<Rightarrow> 'w \<Rightarrow> unit res \<times> Like \<times> 'w" where
  "LikeRepo_Create nextID db l w =
     (case nextID w of
        (Inl err, w1) \<Rightarrow> (Inl (Wrap ''generate snowflake id failed'' err), l, w1)
      | (Inr i, w1) \<Rightarrow>
          (let l' = l\<lparr>like_Id := i\<rparr> in case insert_like db l' w1 of (r, w2) \<Rightarrow> (r, l', w2)))"

definition LikeRepo_Update :: "'w like_conn \<Rightarrow> Like \<Rightarrow> 'w \<Rightarrow> unit res \<times> 'w" where
  "LikeRepo_Update db l w = update_like db l w"

definition LikeRepo_FindByTargetAndUser :: "'w like_conn \<Rightarrow> int \<Rightarrow> int \<Rightarrow> 'w \<Rightarrow> Like option res \<times> 'w" where
  "LikeRepo_FindByTargetAndUser db targetId userId w = find_like db targetId userId w"

definition LikeRepo_GetLikeStatus :: "'w like_conn \<Rightarrow> int \<Rightarrow> int list \<Rightarrow> 'w \<Rightarrow> (int \<rightharpoonup> bool) res \<times> 'w" where
  "LikeRepo_GetLikeStatus db userId targetIds w = like_status db userId targetIds w"

definition LikeRepo_Transact ::
  "'w like_conn \<Rightarrow> ('w like_session \<Rightarrow> 'w \<Rightarrow> (bool \<times> unit res) \<times> 'w) \<Rightarrow> 'w \<Rightarrow> (bool \<times> unit res) \<times> 'w" where
  "LikeRepo_Transact db fn w = lcTransact db (\<lambda>session. fn session) w"

definition LikeTx_Create ::
  "('w \<Rightarrow> int res \<times> 'w) \<Rightarrow> 'w like_session \<Rightarrow> Like \<Rightarrow> 'w \<Rightarrow> unit res \<times> Like \<times> 'w" where
  "LikeTx_Create nextID session l w =
     (case nextID w of
        (Inl err, w1) \<Rightarrow> (Inl (Wrap ''generate snowflake id failed'' err), l, w1)
      | (Inr i, w1) \<Rightarrow>
          (let l' = l\<lparr>like_Id := i\<rparr> in case insert_like session l' w1 of (r, w2) \<Rightarrow> (r, l', w2)))"

definition LikeTx_Update :: "'w like_session \<Rightarrow> Like \<Rightarrow> 'w \<Rightarrow> unit res \<times> 'w" where
  "LikeTx_Update session l w = update_like session l w"

definition LikeTx_FindByTargetAndUser :: "'w like_session \<Rightarrow> int \<Rightarrow> int \<Rightarrow> 'w \<Rightarrow> Like option res \<times> 'w" where
  "LikeTx_FindByTargetAndUser session targetId userId w = find_like session targetId userId w"

definition LikeTx_GetLikeStatus :: "'w like_session \<Rightarrow> int \<Rightarrow> int list \<Rightarrow> 'w \<Rightarrow> (int \<rightharpoonup> bool) res \<times> 'w" where
  "LikeTx_GetLikeStatus session userId targetIds w = like_status session userId targetIds w"

definition LikeTx_Transact :: "'w like_session \<Rightarrow> 'w \<Rightarrow> unit res \<times> 'w" where
  "LikeTx_Transact session w = (Inl (Errorf ''nested transaction not supported''), w)"

text \<open>The same statements once more, in the model package, on a session passed in.\<close>

definition LikeModel_Insert :: "'w like_session \<Rightarrow> Like \<Rightarrow> 'w \<Rightarrow> unit res \<times> 'w" where
  "LikeModel_Insert session data w = insert_like session data w"

definition LikeModel_Update :: "'w like_session \<Rightarrow> Like \<Rightarrow> 'w \<Rightarrow> unit res \<times> 'w" where
  "LikeModel_Update session data w = update_like session data w"

definition LikeModel_FindByTargetAndUser :: "'w like_session \<Rightarrow> int \<Rightarrow> int \<Rightarrow> 'w \<Rightarrow> Like option res \<times> 'w" where
  "LikeModel_FindByTargetAndUser session targetId userId w = find_like session targetId userId w"

definition LikeModel_GetLikeStatus :: "'w like_conn \<Rightarrow> int \<Rightarrow> int list \<Rightarrow> 'w \<Rightarrow> (int \<rightharpoonup> bool) res \<times> 'w" where
  "LikeModel_GetLikeStatus conn userId targetIds w = like_status conn userId targetIds w"

section \<open>A likes table\<close>

text \<open>
  The view of a correct database: the rows by target and user, which is the unique key the lookup
  uses. A transaction that ends without an error is committed, otherwise nothing of it remains.
\<close>

type_synonym likes = "int \<times> int \<rightharpoonup> Like"

definition session_on :: "'w like_session \<Rightarrow> ('w \<Rightarrow> likes) \<Rightarrow> bool" where
  "session_on s tb \<longleftrightarrow>
     (\<forall>t u w. lsQueryLike s findLikeSQL [LInt t, LInt u] w =
        (case tb w (t, u) of None \<Rightarrow> Inl ErrSqlNoRows | Some l \<Rightarrow> Inr l, w)) \<and>
     (\<forall>i ty t u st tm w. tb w (t, u) = None \<longrightarrow>
        (\<exists>r w'. lsExec s insertLikeSQL [LInt i, LInt ty, LInt t, LInt u, LInt st, LTime tm] w = (Inr r, w') \<and>
           rowsAffected r = Inr 1 \<and> tb w' = (tb w)((t, u) \<mapsto>
             \<lparr>like_Id = i, like_Type = ty, like_TargetId = t, like_UserId = u, like_Status = st,
              like_Liketime = tm, like_Unliketime = None\<rparr>))) \<and>
     (\<forall>st tm un t u l w. tb w (t, u) = Some l \<longrightarrow>
        (\<exists>r w'. lsExec s updateLikeSQL [LInt st, LTime tm, LNullTime un, LInt t, LInt u] w = (Inr r, w') \<and>
           rowsAffected r = Inr 1 \<and> tb w' = (tb w)((t, u) \<mapsto>
             l\<lparr>like_Status := st, like_Liketime := tm, like_Unliketime := un\<rparr>)))"

end
