(* ===== verification/RedisStore.thy ===== *)
theory RedisStore
  imports External
begin

text \<open>
  A reference for the Redis commands the like service uses: a store of typed values with one
  function per command. A handle \<open>implements\<close> it over a view of the world if every command
  answers and changes the view as the function says. Times to live are not part of the view.
\<close>

section \<open>Commands\<close>

datatype rval = RStr string | RSet "string list"

type_synonym store = "string \<rightharpoonup> rval"

definition WRONGTYPE :: err where
  "WRONGTYPE = ErrLib ''WRONGTYPE Operation against a key holding the wrong kind of value''"

definition st_members :: "store \<Rightarrow> string \<Rightarrow> string list res" where
  "st_members s k = (case s k of None \<Rightarrow> Inr [] | Some (RSet xs) \<Rightarrow> Inr xs | Some (RStr _) \<Rightarrow> Inl WRONGTYPE)"

text \<open>go-zero's \<open>Get\<close>: the empty string and no error for a missing key.\<close>

definition st_get :: "string \<Rightarrow> store \<Rightarrow> string res \<times> store" where
  "st_get k s = (case s k of None \<Rightarrow> Inr [] | Some (RStr v) \<Rightarrow> Inr v | Some (RSet _) \<Rightarrow> Inl WRONGTYPE, s)"

definition st_setex :: "string \<Rightarrow> string \<Rightarrow> store \<Rightarrow> unit res \<times> store" where
  "st_setex k v s = (Inr (), s(k \<mapsto> RStr v))"

definition st_add :: "string \<Rightarrow> int \<Rightarrow> store \<Rightarrow> int res \<times> store" where
  "st_add k d s =
     (case s k of
        Some (RSet _) \<Rightarrow> (Inl WRONGTYPE, s)
      | v \<Rightarrow>
          (case (case v of Some (RStr t) \<Rightarrow> ParseInt t | _ \<Rightarrow> Inr 0) of
             Inl e \<Rightarrow> (Inl (ErrLib ''ERR value is not an integer or out of range''), s)
           | Inr n \<Rightarrow>
               (if is_int64 (n + d) then (Inr (n + d), s(k \<mapsto> RStr (show_int (n + d))))
                else (Inl (ErrLib ''ERR increment or decrement would overflow''), s))))"

definition st_sadd :: "string \<Rightarrow> string \<Rightarrow> store \<Rightarrow> int res \<times> store" where
  "st_sadd k m s =
     (case st_members s k of
        Inl e \<Rightarrow> (Inl e, s)
      | Inr xs \<Rightarrow> (Inr (if m \<in> set xs then 0 else 1), s(k \<mapsto> RSet (List.insert m xs))))"

definition st_srem :: "string \<Rightarrow> string \<Rightarrow> store \<Rightarrow> int res \<times> store" where
  "st_srem k m s =
     (case st_members s k of
        Inl e \<Rightarrow> (Inl e, s)
      | Inr xs \<Rightarrow> (Inr (if m \<in> set xs then 1 else 0),
                   s(k := (case remove1 m xs of [] \<Rightarrow> None | ys \<Rightarrow> Some (RSet ys)))))"

definition st_sismember :: "string \<Rightarrow> string \<Rightarrow> store \<Rightarrow> bool res \<times> store" where
  "st_sismember k m s = (case st_members s k of Inl e \<Rightarrow> Inl e | Inr xs \<Rightarrow> Inr (m \<in> set xs), s)"

definition st_scard :: "string \<Rightarrow> store \<Rightarrow> int res \<times> store" where
  "st_scard k s = (case st_members s k of Inl e \<Rightarrow> Inl e | Inr xs \<Rightarrow> Inr (int (length xs)), s)"

definition st_smembers :: "string \<Rightarrow> store \<Rightarrow> string list res \<times> store" where
  "st_smembers k s = (st_members s k, s)"

section \<open>Handles that implement the store\<close>

definition agrees :: "('w \<Rightarrow> store) \<Rightarrow> 'a res \<times> 'w \<Rightarrow> 'a res \<times> store \<Rightarrow> bool" where
  "agrees st x y \<longleftrightarrow> fst x = fst y \<and> st (snd x) = snd y"

definition implements :: "'w redis \<Rightarrow> ('w \<Rightarrow> store) \<Rightarrow> bool" where
  "implements R st \<longleftrightarrow>
     (\<forall>k w. agrees st (redisGet R k w) (st_get k (st w))) \<and>
     (\<forall>k v t w. agrees st (redisSetex R k v t w) (st_setex k v (st w))) \<and>
     (\<forall>k w. agrees st (redisIncr R k w) (st_add k 1 (st w))) \<and>
     (\<forall>k w. agrees st (redisDecr R k w) (st_add k (- 1) (st w))) \<and>
     (\<forall>k m w. agrees st (redisSadd R k m w) (st_sadd k m (st w))) \<and>
     (\<forall>k m w. agrees st (redisSrem R k m w) (st_srem k m (st w))) \<and>
     (\<forall>k m w. agrees st (redisSismember R k m w) (st_sismember k m (st w))) \<and>
     (\<forall>k w. agrees st (redisScard R k w) (st_scard k (st w))) \<and>
     (\<forall>k w. agrees st (redisSmembers R k w) (st_smembers k (st w)))"

lemma agrees_pair: "agrees st (r, w) y \<longleftrightarrow> r = fst y \<and> st w = snd y"
  by (simp add: agrees_def)

lemma implementsD:
  assumes "implements R st"
  shows "redisGet R k w = (r1, w') \<Longrightarrow> r1 = fst (st_get k (st w)) \<and> st w' = st w"
    and "redisSetex R k v t w = (r2, w') \<Longrightarrow> r2 = Inr () \<and> st w' = (st w)(k \<mapsto> RStr v)"
    and "redisIncr R k w = (r3, w') \<Longrightarrow> r3 = fst (st_add k 1 (st w)) \<and> st w' = snd (st_add k 1 (st w))"
    and "redisDecr R k w = (r3, w') \<Longrightarrow> r3 = fst (st_add k (- 1) (st w)) \<and> st w' = snd (st_add k (- 1) (st w))"
    and "redisSadd R k m w = (r3, w') \<Longrightarrow> r3 = fst (st_sadd k m (st w)) \<and> st w' = snd (st_sadd k m (st w))"
    and "redisSrem R k m w = (r3, w') \<Longrightarrow> r3 = fst (st_srem k m (st w)) \<and> st w' = snd (st_srem k m (st w))"
    and "redisSismember R k m w = (r4, w') \<Longrightarrow> r4 = fst (st_sismember k m (st w)) \<and> st w' = st w"
    and "redisScard R k w = (r3, w') \<Longrightarrow> r3 = fst (st_scard k (st w)) \<and> st w' = st w"
    and "redisSmembers R k w = (r5, w') \<Longrightarrow> r5 = st_members (st w) k \<and> st w' = st w"
  using assms unfolding implements_def
  by (metis agrees_def fst_conv snd_conv st_get_def st_setex_def st_sismember_def st_scard_def st_smembers_def)+

lemma implements_setex:
  "implements R st \<Longrightarrow> st (snd (redisSetex R k v t w)) = (st w)(k \<mapsto> RStr v)"
  using implementsD(2) [of R st k v t w] by (metis prod.collapse)

text \<open>The store as a handle.\<close>

definition store_redis :: "store redis" where
  "store_redis = down_redis\<lparr>redisGet := st_get, redisSetex := (\<lambda>k v t. st_setex k v),
     redisIncr := (\<lambda>k. st_add k 1), redisDecr := (\<lambda>k. st_add k (- 1)), redisSadd := st_sadd,
     redisSrem := st_srem, redisSismember := st_sismember, redisScard := st_scard, redisSmembers := st_smembers\<rparr>"

lemma store_redis_implements: "implements store_redis (\<lambda>s. s)"
  by (simp add: implements_def store_redis_def agrees_def)

end
