(* ===== verification/LikeCache.thy ===== *)
theory LikeCache
  imports RedisStore
begin

text \<open>
  The Redis side of likes (\<open>interaction/internal/cache/like_cache.go\<close>): per target a counter and the
  set of users, per user the set of targets, and the set of targets to be synchronised.
\<close>

section \<open>Keys\<close>

definition LikeCountPrefix :: string where "LikeCountPrefix = ''like:count:''"
definition LikeRelationPrefix :: string where "LikeRelationPrefix = ''like:relation:''"
definition LikeUserPrefix :: string where "LikeUserPrefix = ''like:user:''"
definition LikePendingSync :: string where "LikePendingSync = ''like:pending:sync''"

record 'w LikeCache =
  lc_redis :: "'w redis"

definition NewLikeCache :: "'w redis \<Rightarrow> 'w LikeCache" where
  "NewLikeCache r = \<lparr>lc_redis = r\<rparr>"

definition buildCountKey :: "int \<Rightarrow> int \<Rightarrow> string" where
  "buildCountKey targetType targetId = prefix_pair_key LikeCountPrefix (targetType, targetId)"

definition buildRelationKey :: "int \<Rightarrow> int \<Rightarrow> string" where
  "buildRelationKey targetType targetId = prefix_pair_key LikeRelationPrefix (targetType, targetId)"

definition buildUserKey :: "int \<Rightarrow> string" where
  "buildUserKey userId = prefix_key LikeUserPrefix userId"

section \<open>Counters\<close>

definition GetLikeCount :: "'w LikeCache \<Rightarrow> int \<Rightarrow> int \<Rightarrow> 'w \<Rightarrow> int res \<times> 'w" where
  "GetLikeCount c targetType targetId w =
     (let key = buildCountKey targetType targetId
      in case redisGet (lc_redis c) key w of
           (Inl err, w') \<Rightarrow> (if err = ErrRedisNotFound then (Inr 0, w') else (Inl err, w'))
         | (Inr val, w') \<Rightarrow> (ParseInt val, w'))"

text \<open>The results of the calls that only renew the time to live are not looked at.\<close>

definition IncrLikeCount :: "'w LikeCache \<Rightarrow> int \<Rightarrow> int \<Rightarrow> 'w \<Rightarrow> int res \<times> 'w" where
  "IncrLikeCount c targetType targetId w =
     (let key = buildCountKey targetType targetId
      in case redisIncr (lc_redis c) key w of
           (Inl err, w') \<Rightarrow> (Inl err, w')
         | (Inr count, w') \<Rightarrow> (Inr count, snd (redisSetex (lc_redis c) key (show_int count) 86400 w')))"

definition DecrLikeCount :: "'w LikeCache \<Rightarrow> int \<Rightarrow> int \<Rightarrow> 'w \<Rightarrow> int res \<times> 'w" where
  "DecrLikeCount c targetType targetId w =
     (let key = buildCountKey targetType targetId
      in case redisDecr (lc_redis c) key w of
           (Inl err, w') \<Rightarrow> (Inl err, w')
         | (Inr count, w') \<Rightarrow>
             (if count < 0 then (Inr 0, snd (redisSetex (lc_redis c) key ''0'' 86400 w'))
              else (Inr count, w')))"

definition SetLikeCount :: "'w LikeCache \<Rightarrow> int \<Rightarrow> int \<Rightarrow> int \<Rightarrow> 'w \<Rightarrow> unit res \<times> 'w" where
  "SetLikeCount c targetType targetId count w =
     redisSetex (lc_redis c) (buildCountKey targetType targetId) (show_int count) 86400 w"

section \<open>Relations\<close>

definition IsLiked :: "'w LikeCache \<Rightarrow> int \<Rightarrow> int \<Rightarrow> int \<Rightarrow> 'w \<Rightarrow> bool res \<times> 'w" where
  "IsLiked c targetType targetId userId w =
     redisSismember (lc_redis c) (buildRelationKey targetType targetId) (show_int userId) w"

text \<open>
  The last two calls of the source are \<open>c.redis.Setex(relationKey, c.redis.Get(key), 86400)\<close> and the
  same for \<open>userKey\<close>: \<open>key\<close> is not declared and \<open>Get\<close> returns two values, so the argument does
  not compile. The keys and the command do: the values, whatever they are meant to be, are the
  arguments \<open>v1\<close> and \<open>v2\<close>.
\<close>

definition AddLikeRelation ::
  "string \<Rightarrow> string \<Rightarrow> 'w LikeCache \<Rightarrow> int \<Rightarrow> int \<Rightarrow> int \<Rightarrow> 'w \<Rightarrow> unit res \<times> 'w" where
  "AddLikeRelation v1 v2 c targetType targetId userId w =
     (let relationKey = buildRelationKey targetType targetId
      in case redisSadd (lc_redis c) relationKey (show_int userId) w of
           (Inl err, w1) \<Rightarrow> (Inl err, w1)
         | (Inr _, w1) \<Rightarrow>
             (let userKey = buildUserKey userId
              in case redisSadd (lc_redis c) userKey (pair_text targetType targetId) w1 of
                   (Inl err, w2) \<Rightarrow> (Inl err, w2)
                 | (Inr _, w2) \<Rightarrow>
                     (let w3 = snd (redisSetex (lc_redis c) relationKey v1 86400 w2);
                          w4 = snd (redisSetex (lc_redis c) userKey v2 86400 w3)
                      in (Inr (), w4))))"

definition RemoveLikeRelation :: "'w LikeCache \<Rightarrow> int \<Rightarrow> int \<Rightarrow> int \<Rightarrow> 'w \<Rightarrow> unit res \<times> 'w" where
  "RemoveLikeRelation c targetType targetId userId w =
     (case redisSrem (lc_redis c) (buildRelationKey targetType targetId) (show_int userId) w of
        (Inl err, w1) \<Rightarrow> (Inl err, w1)
      | (Inr _, w1) \<Rightarrow>
          (case redisSrem (lc_redis c) (buildUserKey userId) (pair_text targetType targetId) w1 of
             (Inl err, w2) \<Rightarrow> (Inl err, w2)
           | (Inr _, w2) \<Rightarrow> (Inr (), w2)))"

definition GetLikeRelationCount :: "'w LikeCache \<Rightarrow> int \<Rightarrow> int \<Rightarrow> 'w \<Rightarrow> int res \<times> 'w" where
  "GetLikeRelationCount c targetType targetId w =
     redisScard (lc_redis c) (buildRelationKey targetType targetId) w"

section \<open>Targets to synchronise\<close>

definition MarkPendingSync :: "'w LikeCache \<Rightarrow> int \<Rightarrow> int \<Rightarrow> 'w \<Rightarrow> unit res \<times> 'w" where
  "MarkPendingSync c targetType targetId w =
     (case redisSadd (lc_redis c) LikePendingSync (pair_text targetType targetId) w of
        (Inl err, w') \<Rightarrow> (Inl err, w') | (Inr _, w') \<Rightarrow> (Inr (), w'))"

text \<open>\<open>members[:limit]\<close> with a negative limit is a run-time panic.\<close>

definition GetPendingSyncTargets :: "'w LikeCache \<Rightarrow> int \<Rightarrow> 'w \<Rightarrow> string list res \<times> 'w" where
  "GetPendingSyncTargets c limit w =
     (case redisSmembers (lc_redis c) LikePendingSync w of
        (Inl err, w') \<Rightarrow> (Inl err, w')
      | (Inr members, w') \<Rightarrow>
          (if int (length members) > limit
           then (if limit < 0 then (Inl (Panic ''slice bounds out of range''), w')
                 else (Inr (take (nat limit) members), w'))
           else (Inr members, w')))"

definition RemovePendingSync :: "'w LikeCache \<Rightarrow> int \<Rightarrow> int \<Rightarrow> 'w \<Rightarrow> unit res \<times> 'w" where
  "RemovePendingSync c targetType targetId w =
     (case redisSrem (lc_redis c) LikePendingSync (pair_text targetType targetId) w of
        (Inl err, w') \<Rightarrow> (Inl err, w') | (Inr _, w') \<Rightarrow> (Inr (), w'))"

text \<open>A target whose lookup fails is left out of the map. The function never returns an error.\<close>

fun likeStatuses :: "'w LikeCache \<Rightarrow> int \<Rightarrow> int \<Rightarrow> int list \<Rightarrow> (int \<rightharpoonup> bool) \<Rightarrow> 'w \<Rightarrow> (int \<rightharpoonup> bool) \<times> 'w" where
  "likeStatuses c targetType userId [] result w = (result, w)"
| "likeStatuses c targetType userId (targetId # ids) result w =
     (case redisSismember (lc_redis c) (buildRelationKey targetType targetId) (show_int userId) w of
        (Inl err, w') \<Rightarrow> likeStatuses c targetType userId ids result w'
      | (Inr isMember, w') \<Rightarrow> likeStatuses c targetType userId ids (result(targetId \<mapsto> isMember)) w')"

definition BatchGetLikeStatus ::
  "'w LikeCache \<Rightarrow> int \<Rightarrow> int \<Rightarrow> int list \<Rightarrow> 'w \<Rightarrow> (int \<rightharpoonup> bool) res \<times> 'w" where
  "BatchGetLikeStatus c targetType userId targetIds w =
     (case likeStatuses c targetType userId targetIds Map.empty w of (result, w') \<Rightarrow> (Inr result, w'))"

section \<open>Key families\<close>

interpretation count_key: key_scheme "\<lambda>(t, i). buildCountKey t i"
  by unfold_locales (auto simp: buildCountKey_def prefixed_pair.key_eq_iff)

interpretation relation_key: key_scheme "\<lambda>(t, i). buildRelationKey t i"
  by unfold_locales (auto simp: buildRelationKey_def prefixed_pair.key_eq_iff)

interpretation user_key: key_scheme buildUserKey
  by unfold_locales (simp add: buildUserKey_def prefixed.key_eq_iff)

lemma count_key_eq [simp]: "buildCountKey t i = buildCountKey t' i' \<longleftrightarrow> t = t' \<and> i = i'"
  using count_key.key_eq_iff [of "(t, i)" "(t', i')"] by simp

lemma relation_key_eq [simp]: "buildRelationKey t i = buildRelationKey t' i' \<longleftrightarrow> t = t' \<and> i = i'"
  using relation_key.key_eq_iff [of "(t, i)" "(t', i')"] by simp

lemma key_families [simp]:
  "buildCountKey t i \<noteq> buildRelationKey t' i'" "buildRelationKey t' i' \<noteq> buildCountKey t i"
  "buildCountKey t i \<noteq> buildUserKey u" "buildUserKey u \<noteq> buildCountKey t i"
  "buildRelationKey t i \<noteq> buildUserKey u" "buildUserKey u \<noteq> buildRelationKey t i"
  "buildCountKey t i \<noteq> LikePendingSync" "LikePendingSync \<noteq> buildCountKey t i"
  "buildRelationKey t i \<noteq> LikePendingSync" "LikePendingSync \<noteq> buildRelationKey t i"
  "buildUserKey u \<noteq> LikePendingSync" "LikePendingSync \<noteq> buildUserKey u"
  by (simp_all add: buildCountKey_def buildRelationKey_def buildUserKey_def LikePendingSync_def
      prefix_pair_key_def prefix_key_def LikeCountPrefix_def LikeRelationPrefix_def LikeUserPrefix_def)

section \<open>Counters refine a counter map\<close>

datatype lk_op =
    LkIncr int int
  | LkDecr int int
  | LkSet int int int
  | LkAdd string string int int int
  | LkRemove int int int
  | LkMark int int
  | LkUnmark int int

fun lk_step :: "'w LikeCache \<Rightarrow> lk_op \<Rightarrow> 'w \<Rightarrow> 'w" where
  "lk_step c (LkIncr t i) w = snd (IncrLikeCount c t i w)"
| "lk_step c (LkDecr t i) w = snd (DecrLikeCount c t i w)"
| "lk_step c (LkSet t i n) w = snd (SetLikeCount c t i n w)"
| "lk_step c (LkAdd v1 v2 t i u) w = snd (AddLikeRelation v1 v2 c t i u w)"
| "lk_step c (LkRemove t i u) w = snd (RemoveLikeRelation c t i u w)"
| "lk_step c (LkMark t i) w = snd (MarkPendingSync c t i w)"
| "lk_step c (LkUnmark t i) w = snd (RemovePendingSync c t i w)"

text \<open>
  What the counters promise: a map from targets to counts that do not go below zero and stop at the
  largest int64.
\<close>

type_synonym counts = "int \<times> int \<rightharpoonup> int"

definition count_of :: "counts \<Rightarrow> int \<times> int \<Rightarrow> int" where
  "count_of m t = (case m t of None \<Rightarrow> 0 | Some n \<Rightarrow> n)"

fun spec_step :: "lk_op \<Rightarrow> counts \<Rightarrow> counts" where
  "spec_step (LkIncr t i) m =
     (if is_int64 (count_of m (t, i) + 1) then m((t, i) \<mapsto> count_of m (t, i) + 1) else m)"
| "spec_step (LkDecr t i) m = m((t, i) \<mapsto> max 0 (count_of m (t, i) - 1))"
| "spec_step (LkSet t i n) m = m((t, i) \<mapsto> n)"
| "spec_step _ m = m"

fun lk_ok :: "lk_op \<Rightarrow> bool" where
  "lk_ok (LkSet t i n) \<longleftrightarrow> 0 \<le> n \<and> is_int64 n"
| "lk_ok _ \<longleftrightarrow> True"

definition represents :: "store \<Rightarrow> counts \<Rightarrow> bool" where
  "represents s m \<longleftrightarrow> (\<forall>t i. s (buildCountKey t i) = map_option (\<lambda>n. RStr (show_int n)) (m (t, i)) \<and>
     (\<forall>n. m (t, i) = Some n \<longrightarrow> 0 \<le> n \<and> is_int64 n))"

lemma representsD:
  assumes "represents s m"
  shows "s (buildCountKey t i) = map_option (\<lambda>n. RStr (show_int n)) (m (t, i))"
    and "0 \<le> count_of m (t, i)" "is_int64 (count_of m (t, i))"
  using assms by (auto simp: represents_def count_of_def is_int64_def split: option.split)

lemma represents_upd:
  "represents s m \<Longrightarrow> 0 \<le> n \<Longrightarrow> is_int64 n \<Longrightarrow>
   represents (s(buildCountKey t i \<mapsto> RStr (show_int n))) (m((t, i) \<mapsto> n))"
  by (auto simp: represents_def)

lemma represents_other:
  "represents s m \<Longrightarrow> (\<And>t i. s' (buildCountKey t i) = s (buildCountKey t i)) \<Longrightarrow> represents s' m"
  by (simp add: represents_def)

lemma st_add_count:
  assumes "represents s m"
  shows "st_add (buildCountKey t i) d s =
    (if is_int64 (count_of m (t, i) + d)
     then (Inr (count_of m (t, i) + d), s(buildCountKey t i \<mapsto> RStr (show_int (count_of m (t, i) + d))))
     else (Inl (ErrLib ''ERR increment or decrement would overflow''), s))"
  using representsD [OF assms, of t i]
  by (cases "m (t, i)") (auto simp: st_add_def count_of_def ParseInt_show_int)

lemma Incr_refines:
  assumes "implements (lc_redis c) st" "represents (st w) m"
  shows "represents (st (snd (IncrLikeCount c t i w))) (spec_step (LkIncr t i) m)"
proof -
  obtain r w1 where 1: "redisIncr (lc_redis c) (buildCountKey t i) w = (r, w1)" by fastforce
  note D = implementsD(3) [OF assms(1) 1]
  show ?thesis
  proof (cases "is_int64 (count_of m (t, i) + 1)")
    case False
    with 1 D assms(2) show ?thesis
      by (simp add: st_add_count IncrLikeCount_def)
  next
    case True
    let ?n = "count_of m (t, i) + 1"
    obtain x w2 where 2: "redisSetex (lc_redis c) (buildCountKey t i) (show_int ?n) 86400 w1 = (x, w2)"
      by fastforce
    from implementsD(2) [OF assms(1) 2] D True
    have "st w2 = (st w)(buildCountKey t i \<mapsto> RStr (show_int ?n))"
      by (simp add: st_add_count [OF assms(2)])
    with 1 2 D True representsD(2) [OF assms(2), of t i] represents_upd [OF assms(2), of ?n t i] show ?thesis
      by (simp add: st_add_count [OF assms(2)] IncrLikeCount_def)
  qed
qed

lemma Decr_refines:
  assumes "implements (lc_redis c) st" "represents (st w) m"
  shows "represents (st (snd (DecrLikeCount c t i w))) (spec_step (LkDecr t i) m)"
proof -
  let ?n = "count_of m (t, i) - 1"
  note n = representsD(2,3) [OF assms(2), of t i]
  then have i64: "is_int64 ?n" by (simp add: is_int64_def)
  obtain r w1 where 1: "redisDecr (lc_redis c) (buildCountKey t i) w = (r, w1)" by fastforce
  from implementsD(4) [OF assms(1) 1] i64
  have D: "r = Inr ?n" "st w1 = (st w)(buildCountKey t i \<mapsto> RStr (show_int ?n))"
    by (simp_all add: st_add_count [OF assms(2)])
  show ?thesis
  proof (cases "?n < 0")
    case True
    obtain x w2 where 2: "redisSetex (lc_redis c) (buildCountKey t i) ''0'' 86400 w1 = (x, w2)"
      by fastforce
    have z: "show_int 0 = ''0''" by code_simp
    from implementsD(2) [OF assms(1) 2] D
    have "st w2 = (st w)(buildCountKey t i \<mapsto> RStr (show_int 0))" by (simp add: z)
    with 1 2 D True represents_upd [OF assms(2), of 0 t i] show ?thesis
      by (simp add: DecrLikeCount_def is_int64_def)
  next
    case False
    with 1 D i64 represents_upd [OF assms(2), of ?n t i] show ?thesis
      by (simp add: DecrLikeCount_def)
  qed
qed

lemma step_refines:
  assumes "implements (lc_redis c) st" "represents (st w) m" "lk_ok x"
  shows "represents (st (lk_step c x w)) (spec_step x m)"
proof (cases x)
  case (LkIncr t i)
  with Incr_refines [OF assms(1,2)] show ?thesis by simp
next
  case (LkDecr t i)
  with Decr_refines [OF assms(1,2)] show ?thesis by simp
next
  case (LkSet t i n)
  obtain y w2 where s: "redisSetex (lc_redis c) (buildCountKey t i) (show_int n) 86400 w = (y, w2)" by fastforce
  from implementsD(2) [OF assms(1) s] LkSet s assms(3) represents_upd [OF assms(2), of n t i] show ?thesis
    by (simp add: SetLikeCount_def)
next
  case (LkAdd v1 v2 t i u)
  then show ?thesis
    using assms(2)
    by (auto simp: AddLikeRelation_def st_sadd_def Let_def implements_setex [OF assms(1)]
        elim!: represents_other split: sum.splits prod.splits dest!: implementsD(5) [OF assms(1)])
next
  case (LkRemove t i u)
  then show ?thesis
    using assms(2)
    by (auto simp: RemoveLikeRelation_def st_srem_def Let_def elim!: represents_other
        split: sum.splits prod.splits dest!: implementsD(6) [OF assms(1)])
next
  case (LkMark t i)
  then show ?thesis
    using assms(2)
    by (auto simp: MarkPendingSync_def st_sadd_def elim!: represents_other
        split: sum.splits prod.splits dest!: implementsD(5) [OF assms(1)])
next
  case (LkUnmark t i)
  then show ?thesis
    using assms(2)
    by (auto simp: RemovePendingSync_def st_srem_def elim!: represents_other
        split: sum.splits prod.splits dest!: implementsD(6) [OF assms(1)])
qed

lemma run_refines:
  assumes "implements (lc_redis c) st" "list_all lk_ok xs" "represents (st w) m"
  shows "represents (st (fold (lk_step c) xs w)) (fold spec_step xs m)"
  using assms(2,3)
  by (induction xs arbitrary: w m) (auto simp: step_refines [OF assms(1)])

lemma GetLikeCount_represents:
  assumes "implements (lc_redis c) st" "represents (st w) m"
  shows "fst (GetLikeCount c t i w) = (case m (t, i) of None \<Rightarrow> Inl ErrStrconv | Some n \<Rightarrow> Inr n)"
    and "st (snd (GetLikeCount c t i w)) = st w"
proof -
  obtain r w1 where 1: "redisGet (lc_redis c) (buildCountKey t i) w = (r, w1)" by fastforce
  from implementsD(1) [OF assms(1) 1] 1 representsD [OF assms(2), of t i]
  show "fst (GetLikeCount c t i w) = (case m (t, i) of None \<Rightarrow> Inl ErrStrconv | Some n \<Rightarrow> Inr n)"
    "st (snd (GetLikeCount c t i w)) = st w"
    by (auto simp: GetLikeCount_def st_get_def count_of_def ParseInt_show_int split: option.split sum.split)
qed



section \<open>The relation set does not survive its renewal\<close>

text \<open>
  Recording a like destroys the record: the calls meant to renew the time to live use SETEX, which
  replaces the set just extended by a string, so for every value they write, after a successful
  AddLikeRelation asking whether any user likes the target, counting its likes and removing the like
  all fail with WRONGTYPE.
\<close>

theorem add_relation_destroys_set:
  assumes "implements (lc_redis c) st" "AddLikeRelation v1 v2 c t i u w = (Inr (), w')"
  shows "fst (IsLiked c t i u' w') = Inl WRONGTYPE
    \<and> fst (GetLikeRelationCount c t i w') = Inl WRONGTYPE
    \<and> fst (RemoveLikeRelation c t i u w') = Inl WRONGTYPE"
proof -
  have "st w' (buildRelationKey t i) = Some (RStr v1)"
    using assms(2)
    by (auto simp: AddLikeRelation_def Let_def implements_setex [OF assms(1)] split: sum.splits prod.splits)
  then have m: "st_members (st w') (buildRelationKey t i) = Inl WRONGTYPE"
    by (simp add: st_members_def)
  obtain r1 w1 where 1: "redisSismember (lc_redis c) (buildRelationKey t i) (show_int u') w' = (r1, w1)" by fastforce
  obtain r2 w2 where 2: "redisScard (lc_redis c) (buildRelationKey t i) w' = (r2, w2)" by fastforce
  obtain r3 w3 where 3: "redisSrem (lc_redis c) (buildRelationKey t i) (show_int u) w' = (r3, w3)" by fastforce
  from implementsD(7) [OF assms(1) 1] implementsD(8) [OF assms(1) 2] implementsD(6) [OF assms(1) 3] m
  show ?thesis
    by (simp add: IsLiked_def GetLikeRelationCount_def RemoveLikeRelation_def 1 2 3
        st_sismember_def st_scard_def st_srem_def)
qed

theorem add_relation_destroys_set_witness:
  "fst (IsLiked (NewLikeCache store_redis) 1 7 3
     (snd (AddLikeRelation ''x'' ''y'' (NewLikeCache store_redis) 1 7 3 Map.empty))) = Inl WRONGTYPE"
proof -
  let ?a = "AddLikeRelation ''x'' ''y'' (NewLikeCache store_redis) 1 7 3 Map.empty"
  have "?a = (Inr (), snd ?a)"
    by (simp add: AddLikeRelation_def NewLikeCache_def store_redis_def st_sadd_def st_members_def Let_def)
  from add_relation_destroys_set [of "NewLikeCache store_redis" "\<lambda>s. s", OF _ this] show ?thesis
    by (simp add: NewLikeCache_def store_redis_implements)
qed

end
