(* ===== verification/Kafka.thy ===== *)
theory Kafka
  imports GoLib
begin

text \<open>
  Like messages, their producer and the consumer loops (\<open>interaction/internal/kafka\<close>). The Kafka
  client is a record of functions; messages as fetched are of an arbitrary type \<open>'raw\<close>.
\<close>

section \<open>Messages\<close>

definition ActionLike :: string where "ActionLike = ''like''"
definition ActionUnlike :: string where "ActionUnlike = ''unlike''"

record LikeMessage =
  lm_Id :: string
  lm_TargetType :: int
  lm_TargetId :: int
  lm_UserId :: int
  lm_Action :: string
  lm_Timestamp :: int

text \<open>The codec of \<open>encoding/json\<close> at this type is an argument.\<close>

record like_codec =
  encodeLike :: "LikeMessage \<Rightarrow> string res"
  decodeLike :: "string \<Rightarrow> LikeMessage res"

definition Encode :: "like_codec \<Rightarrow> LikeMessage \<Rightarrow> string res" where
  "Encode C m = encodeLike C m"

definition DecodeLikeMessage :: "like_codec \<Rightarrow> string \<Rightarrow> LikeMessage res" where
  "DecodeLikeMessage C data = (case decodeLike C data of Inl err \<Rightarrow> Inl err | Inr msg \<Rightarrow> Inr msg)"

section \<open>Producer\<close>

text \<open>\<open>WriteMessages\<close> of one message: key, value and time.\<close>

record 'w Producer =
  prod_write :: "string \<Rightarrow> string \<Rightarrow> int \<Rightarrow> 'w \<Rightarrow> unit res \<times> 'w"
  prod_topic :: string

record ProducerConfig =
  pcf_Brokers :: "string list"
  pcf_Topic :: string
  pcf_BatchSize :: int
  pcf_BatchTimeout :: int

text \<open>The client library makes a writer of these settings; \<open>RequireOne\<close> is 1.\<close>

record WriterConfig =
  wr_Addr :: "string list"
  wr_Topic :: string
  wr_BatchSize :: int
  wr_BatchTimeout :: int
  wr_Async :: bool
  wr_RequiredAcks :: int

definition NewProducer ::
  "(WriterConfig \<Rightarrow> string \<Rightarrow> string \<Rightarrow> int \<Rightarrow> 'w \<Rightarrow> unit res \<times> 'w) \<Rightarrow> ProducerConfig \<Rightarrow> 'w Producer" where
  "NewProducer newWriter config =
     (let writer = newWriter \<lparr>wr_Addr = pcf_Brokers config, wr_Topic = pcf_Topic config, wr_BatchSize = pcf_BatchSize config,
        wr_BatchTimeout = pcf_BatchTimeout config, wr_Async = True, wr_RequiredAcks = 1\<rparr>
      in \<lparr>prod_write = writer, prod_topic = pcf_Topic config\<rparr>)"

definition SendMessage ::
  "('w \<Rightarrow> int) \<Rightarrow> like_codec \<Rightarrow> 'w Producer \<Rightarrow> LikeMessage \<Rightarrow> 'w \<Rightarrow> unit res \<times> 'w" where
  "SendMessage clk C p msg w =
     (case Encode C msg of
        Inl err \<Rightarrow> (Inl (Wrap ''encode message failed'' err), w)
      | Inr data \<Rightarrow>
          (case prod_write p (pair_text (lm_TargetType msg) (lm_TargetId msg)) data (clk w) w of
             (Inl err, w') \<Rightarrow> (Inl (Wrap ''write message to kafka failed'' err), w')
           | (Inr _, w') \<Rightarrow> (Inr (), w')))"

section \<open>Consumers\<close>

text \<open>
  What a consumer loop meets at the top of an iteration: the context's end, a tick of the batch
  timer, or neither, in which case it fetches, with the result of the fetch. \<open>value_of\<close> is the
  payload of a fetched message and \<open>commit\<close> the commit of its offset.
\<close>

datatype 'raw consumer_event = CtxDone | Tick | Fetch "'raw res"

record ('raw, 'w) Consumer =
  con_value :: "'raw \<Rightarrow> string"
  con_commit :: "'raw \<Rightarrow> 'w \<Rightarrow> unit res \<times> 'w"

record ConsumerConfig =
  ccf_Brokers :: "string list"
  ccf_Topic :: string
  ccf_GroupId :: string
  ccf_BatchSize :: int
  ccf_MaxWait :: int

record ReaderConfig =
  rd_Brokers :: "string list"
  rd_Topic :: string
  rd_GroupID :: string
  rd_MinBytes :: int
  rd_MaxBytes :: int

text \<open>The client library makes a reader; the topic, group, size and wait of the consumer are only logged.\<close>

definition NewConsumer :: "(ReaderConfig \<Rightarrow> ('raw, 'w) Consumer) \<Rightarrow> ConsumerConfig \<Rightarrow> ('raw, 'w) Consumer" where
  "NewConsumer newReader config =
     newReader \<lparr>rd_Brokers = ccf_Brokers config, rd_Topic = ccf_Topic config, rd_GroupID = ccf_GroupId config,
       rd_MinBytes = 10000, rd_MaxBytes = 10000000\<rparr>"

text \<open>The loop of \<open>Start\<close>; the result is whether it has returned, and the world.\<close>

fun consume ::
  "like_codec \<Rightarrow> ('raw, 'w) Consumer \<Rightarrow> (LikeMessage \<Rightarrow> 'w \<Rightarrow> unit res \<times> 'w) \<Rightarrow>
   'raw consumer_event list \<Rightarrow> 'w \<Rightarrow> bool \<times> 'w" where
  "consume C c handler [] w = (False, w)"
| "consume C c handler (CtxDone # evs) w = (True, w)"
| "consume C c handler (Tick # evs) w = consume C c handler evs w"
| "consume C c handler (Fetch (Inl err) # evs) w = consume C c handler evs w"
| "consume C c handler (Fetch (Inr raw) # evs) w =
     (case DecodeLikeMessage C (con_value c raw) of
        Inl err \<Rightarrow> consume C c handler evs (snd (con_commit c raw w))
      | Inr msg \<Rightarrow>
          (case handler msg w of
             (Inl err, w') \<Rightarrow> consume C c handler evs w'
           | (Inr _, w') \<Rightarrow> consume C c handler evs (snd (con_commit c raw w'))))"

text \<open>A failed batch is only logged.\<close>

definition processBatch ::
  "(LikeMessage list \<Rightarrow> 'w \<Rightarrow> unit res \<times> 'w) \<Rightarrow> LikeMessage list \<Rightarrow> 'w \<Rightarrow> 'w" where
  "processBatch handler messages w = (case handler messages w of (Inl err, w') \<Rightarrow> w' | (Inr _, w') \<Rightarrow> w')"

text \<open>
  The loop of \<open>StartBatchConsumer\<close> with the batch collected so far; the result is whether it has
  returned, the batch it holds, and the world.
\<close>

fun consumeBatches ::
  "like_codec \<Rightarrow> ('raw, 'w) Consumer \<Rightarrow> int \<Rightarrow> (LikeMessage list \<Rightarrow> 'w \<Rightarrow> unit res \<times> 'w) \<Rightarrow>
   LikeMessage list \<Rightarrow> 'raw consumer_event list \<Rightarrow> 'w \<Rightarrow> bool \<times> LikeMessage list \<times> 'w" where
  "consumeBatches C c batchSize handler batch [] w = (False, batch, w)"
| "consumeBatches C c batchSize handler batch (CtxDone # evs) w =
     (if length batch > 0 then (True, [], processBatch handler batch w) else (True, [], w))"
| "consumeBatches C c batchSize handler batch (Tick # evs) w =
     (if length batch > 0 then consumeBatches C c batchSize handler [] evs (processBatch handler batch w)
      else consumeBatches C c batchSize handler batch evs w)"
| "consumeBatches C c batchSize handler batch (Fetch (Inl err) # evs) w =
     consumeBatches C c batchSize handler batch evs w"
| "consumeBatches C c batchSize handler batch (Fetch (Inr raw) # evs) w =
     (case DecodeLikeMessage C (con_value c raw) of
        Inl err \<Rightarrow> consumeBatches C c batchSize handler batch evs (snd (con_commit c raw w))
      | Inr msg \<Rightarrow>
          (let batch' = batch @ [msg]
           in if int (length batch') \<ge> batchSize
              then consumeBatches C c batchSize handler [] evs (processBatch handler batch' w)
              else consumeBatches C c batchSize handler batch' evs w))"

interpretation single_loop: event_loop "consume C c handler" for C c handler
proof
  show "consume C c handler (xs @ ys) s =
      (case consume C c handler xs s of (True, s') \<Rightarrow> (True, s') | (False, s') \<Rightarrow> consume C c handler ys s')" for xs ys s
  proof (induction C c handler xs s rule: consume.induct)
    case (5 C c handler raw evs w)
    then show ?case by (cases "DecodeLikeMessage C (con_value c raw)") (auto split: sum.split prod.split)
  qed simp_all
qed simp

interpretation batch_loop: event_loop "\<lambda>evs (batch, w). consumeBatches C c n handler batch evs w" for C c n handler
proof
  show "(\<lambda>(batch, w). consumeBatches C c n handler batch (xs @ ys) w) s =
      (case (\<lambda>(batch, w). consumeBatches C c n handler batch xs w) s of
         (True, s') \<Rightarrow> (True, s') | (False, s') \<Rightarrow> (\<lambda>(batch, w). consumeBatches C c n handler batch ys w) s')"
    for xs ys s
  proof (cases s)
    case (Pair b w)
    show ?thesis
      unfolding Pair prod.case
      by (induction C c n handler b xs w rule: consumeBatches.induct) (auto simp: Let_def split: sum.split)
  qed
qed auto

section \<open>Every message once, in order\<close>

text \<open>The messages a loop has taken in: those fetched and decoded before the context ended.\<close>

fun taken :: "like_codec \<Rightarrow> ('raw, 'w) Consumer \<Rightarrow> 'raw consumer_event list \<Rightarrow> LikeMessage list" where
  "taken C c [] = []"
| "taken C c (CtxDone # evs) = []"
| "taken C c (Fetch (Inr raw) # evs) =
     (case DecodeLikeMessage C (con_value c raw) of Inl _ \<Rightarrow> taken C c evs | Inr m \<Rightarrow> m # taken C c evs)"
| "taken C c (_ # evs) = taken C c evs"

text \<open>The raw messages that do not decode.\<close>

fun undecodable :: "like_codec \<Rightarrow> ('raw, 'w) Consumer \<Rightarrow> 'raw consumer_event list \<Rightarrow> 'raw list" where
  "undecodable C c [] = []"
| "undecodable C c (CtxDone # evs) = []"
| "undecodable C c (Fetch (Inr raw) # evs) =
     (case DecodeLikeMessage C (con_value c raw) of Inl _ \<Rightarrow> raw # undecodable C c evs | Inr m \<Rightarrow> undecodable C c evs)"
| "undecodable C c (_ # evs) = undecodable C c evs"

text \<open>
  A handler and a client that keep a record: the world is the batches handed over and the messages
  whose offsets were committed. The handler may fail on any batch.
\<close>

definition logging :: "(LikeMessage list \<Rightarrow> bool) \<Rightarrow> LikeMessage list \<Rightarrow>
    LikeMessage list list \<times> 'raw list \<Rightarrow> unit res \<times> LikeMessage list list \<times> 'raw list" where
  "logging fails ms w = (if fails ms then Inl (Errorf ''handler'') else Inr (), fst w @ [ms], snd w)"

definition recorder :: "('raw \<Rightarrow> string) \<Rightarrow> ('raw, LikeMessage list list \<times> 'raw list) Consumer" where
  "recorder val = \<lparr>con_value = val, con_commit = (\<lambda>raw w. (Inr (), (fst w, snd w @ [raw])))\<rparr>"

lemma processBatch_logging: "processBatch (logging fails) ms w = (fst w @ [ms], snd w)"
  by (simp add: processBatch_def logging_def)

definition good_batch :: "int \<Rightarrow> LikeMessage list \<Rightarrow> bool" where
  "good_batch n ms \<longleftrightarrow> ms \<noteq> [] \<and> int (length ms) \<le> n"

lemma consumeBatches_run:
  assumes "1 \<le> n" "int (length batch) < n" "list_all (good_batch n) (fst w)"
    and "consumeBatches C (recorder val) n (logging fails) batch evs w = (ended, rest, w')"
  shows "concat (fst w') @ rest = concat (fst w) @ batch @ taken C (recorder val :: ('raw, _) Consumer) evs
    \<and> snd w' = snd w @ undecodable C (recorder val :: ('raw, _) Consumer) evs
    \<and> list_all (good_batch n) (fst w') \<and> int (length rest) < n \<and> (ended \<longrightarrow> rest = [])"
  using assms(2-4)
proof (induction C "recorder val :: ('raw, _) Consumer" n "logging fails :: _ \<Rightarrow> LikeMessage list list \<times> 'raw list \<Rightarrow> _" batch evs w rule: consumeBatches.induct)
  case (1 C n batch w)
  then show ?case by auto
next
  case (2 C n batch evs w)
  with assms(1) show ?case
    by (auto simp: processBatch_logging good_batch_def split: if_splits)
next
  case (3 C n batch evs w)
  with assms(1) show ?case
    by (cases "length batch > 0") (auto simp: processBatch_logging good_batch_def)
next
  case (4 C n batch err evs w)
  then show ?case by auto
next
  case (5 C n batch raw evs w)
  show ?case
  proof (cases "DecodeLikeMessage C (val raw)")
    case (Inl e)
    with 5 show ?thesis by (auto simp: recorder_def)
  next
    case (Inr msg)
    with 5 assms(1) show ?thesis
      by (cases "n \<le> int (length (batch @ [msg]))")
        (auto simp: processBatch_logging good_batch_def recorder_def Let_def)
  qed
qed

text \<open>
  C24: The batch consumer hands every message it takes in to the handler exactly once and in order:
  the batches handed over, followed by the messages still held, are the decoded messages in fetch
  order; every batch is non-empty and at most batchSize long; when the context ends nothing is held.
  Offsets are committed only for undecodable messages, never for handled ones, and a batch whose
  handler fails is not handed over again.
\<close>

theorem batch_consumer_exactly_once:
  assumes "1 \<le> n"
    and "consumeBatches C (recorder val) n (logging fails) [] evs ([], []) = (ended, rest, batches, commits)"
  shows "concat batches @ rest = taken C (recorder val) evs
    \<and> commits = undecodable C (recorder val) evs
    \<and> list_all (good_batch n) batches \<and> int (length rest) < n \<and> (ended \<longrightarrow> rest = [])"
  using consumeBatches_run [OF assms(1) _ _ assms(2)] assms(1) by simp

text \<open>For examples: a message per text, "x" does not decode.\<close>

definition demo_codec :: like_codec where
  "demo_codec = \<lparr>encodeLike = (\<lambda>m. Inr (lm_Id m)),
     decodeLike = (\<lambda>d. if d = ''x'' then Inl (ErrLib ''json'') else
       Inr \<lparr>lm_Id = d, lm_TargetType = 1, lm_TargetId = 7, lm_UserId = 3, lm_Action = ActionLike, lm_Timestamp = 0\<rparr>)\<rparr>"

theorem batch_consumer_exactly_once_witness:
  "case consumeBatches demo_codec (recorder (\<lambda>r. r)) 2 (logging (\<lambda>_. True)) []
      [Fetch (Inr ''a''), Fetch (Inr ''x''), Fetch (Inr ''b''), Fetch (Inr ''c''), Tick, Fetch (Inr ''d''), CtxDone] ([], [])
   of (ended, rest, batches, commits) \<Rightarrow>
      map lm_Id (concat batches) = [''a'', ''b'', ''c'', ''d''] \<and> commits = [''x''] \<and> length batches = 3"
proof -
  let ?evs = "[Fetch (Inr ''a''), Fetch (Inr ''x''), Fetch (Inr ''b''), Fetch (Inr ''c''), Tick, Fetch (Inr ''d''), CtxDone]"
  obtain ended rest batches commits where r: "consumeBatches demo_codec (recorder (\<lambda>r. r)) 2 (logging (\<lambda>_. True)) []
      ?evs ([], []) = (ended, rest, batches, commits)"
    using prod_cases4 by blast
  have run: "rest = []" "length batches = 3"
    using r by (auto simp: demo_codec_def recorder_def logging_def processBatch_def DecodeLikeMessage_def Let_def)
  from batch_consumer_exactly_once [OF _ r] run r show ?thesis
    by (simp add: demo_codec_def recorder_def DecodeLikeMessage_def)
qed

text \<open>The messages whose offset the single-message loop commits, for a handler that fails on \<open>bad\<close>.\<close>

fun settled :: "(LikeMessage \<Rightarrow> bool) \<Rightarrow> like_codec \<Rightarrow> ('raw, 'w) Consumer \<Rightarrow> 'raw consumer_event list \<Rightarrow> 'raw list" where
  "settled bad C c [] = []"
| "settled bad C c (CtxDone # evs) = []"
| "settled bad C c (Fetch (Inr raw) # evs) =
     (case DecodeLikeMessage C (con_value c raw) of
        Inl _ \<Rightarrow> raw # settled bad C c evs
      | Inr m \<Rightarrow> (if bad m then settled bad C c evs else raw # settled bad C c evs))"
| "settled bad C c (_ # evs) = settled bad C c evs"

definition logging1 :: "(LikeMessage \<Rightarrow> bool) \<Rightarrow> LikeMessage \<Rightarrow>
    LikeMessage list list \<times> 'raw list \<Rightarrow> unit res \<times> LikeMessage list list \<times> 'raw list" where
  "logging1 bad m w = (if bad m then Inl (Errorf ''handler'') else Inr (), fst w @ [[m]], snd w)"

lemma consume_run:
  "snd (consume C (recorder val) (logging1 bad) evs w) =
   (fst w @ map (\<lambda>m. [m]) (taken C (recorder val :: ('raw, _) Consumer) evs),
    snd w @ settled bad C (recorder val :: ('raw, _) Consumer) evs)"
  by (induction C "recorder val :: ('raw, _) Consumer"
      "logging1 bad :: _ \<Rightarrow> LikeMessage list list \<times> 'raw list \<Rightarrow> _" evs w rule: consume.induct)
    (auto simp: recorder_def logging1_def split: sum.split)

text \<open>
  The single-message consumer calls the handler once per decoded message, in order, and commits
  the offset of a message exactly when it did not decode or its handler succeeded, in order.
\<close>

theorem consumer_commits_after_success:
  "snd (consume C (recorder val) (logging1 bad) evs ([], [])) =
   (map (\<lambda>m. [m]) (taken C (recorder val) evs), settled bad C (recorder val) evs)"
  by (simp add: consume_run)

end
