(* ===== verification/LikeSync.thy ===== *)
theory LikeSync
  imports LikeCache Kafka
begin

text \<open>
  The jobs that reconcile like counts between Redis and MySQL (\<open>interaction/internal/sync\<close>): the
  syncer fed by Kafka batches, the older syncer fed by the pending set, the two consistency
  checkers.
\<close>

section \<open>Shared steps\<close>

definition tableName :: "int \<Rightarrow> string res" where
  "tableName targetType =
     (if targetType = 1 then Inr ''posts''
      else if targetType = 2 then Inr ''comments''
      else Inl (Errorf (''unknown target type: '' @ show_int targetType)))"

definition updateCountSQL :: "string \<Rightarrow> string" where
  "updateCountSQL tbl = ''UPDATE '' @ tbl @ '' SET like_count = ? WHERE id = ?''"

text \<open>
  \<open>syncSingleTarget\<close> of both syncers: the relation count wins over the counter; the database
  column is set. \<open>db\<close> only executes statements and counts here.
\<close>

definition syncSingleTarget :: "'w sqlconn \<Rightarrow> 'w LikeCache \<Rightarrow> int \<Rightarrow> int \<Rightarrow> 'w \<Rightarrow> unit res \<times> 'w" where
  "syncSingleTarget db c targetType targetId w =
     andThen (wrapErr ''failed to get redis count'' (GetLikeCount c targetType targetId w)) (\<lambda>redisCount w1.
     andThen (wrapErr ''failed to get relation count'' (GetLikeRelationCount c targetType targetId w1)) (\<lambda>relationCount w2.
       let redisCount = (if redisCount \<noteq> relationCount then relationCount else redisCount)
       in case tableName targetType of
            Inl err \<Rightarrow> (Inl err, w2)
          | Inr tbl \<Rightarrow>
              wrapErr ''failed to update mysql''
                (execErr db (updateCountSQL tbl) [SInt redisCount, SInt targetId] w2)))"

text \<open>
  A target text \<open>type:id\<close>, parsed as the syncers do; \<open>int32(targetType)\<close> truncates. \<open>None\<close> is a
  text that is skipped.
\<close>

definition parseTarget :: "string \<Rightarrow> (int \<times> int) option" where
  "parseTarget target =
     (case split_on CHR '':'' target of
        [a, b] \<Rightarrow>
          (case Atoi a of
             Inl _ \<Rightarrow> None
           | Inr targetType \<Rightarrow>
               (case ParseInt b of Inl _ \<Rightarrow> None | Inr targetId \<Rightarrow> Some (i32 targetType, targetId)))
      | _ \<Rightarrow> None)"

section \<open>The Kafka syncer\<close>

record 'w KafkaLikeCountSyncer =
  ks_db :: "'w sqlconn"
  ks_likeCache :: "'w LikeCache"
  ks_batchSize :: int

definition NewKafkaLikeCountSyncer :: "'w sqlconn \<Rightarrow> 'w LikeCache \<Rightarrow> int \<Rightarrow> 'w KafkaLikeCountSyncer" where
  "NewKafkaLikeCountSyncer db c n = \<lparr>ks_db = db, ks_likeCache = c, ks_batchSize = n\<rparr>"

text \<open>The distinct target keys of a batch, in the order of their first message.\<close>

fun uniqueTargets :: "LikeMessage list \<Rightarrow> (string \<Rightarrow> bool) \<Rightarrow> string list \<Rightarrow> string list" where
  "uniqueTargets [] targetSet targets = targets"
| "uniqueTargets (msg # msgs) targetSet targets =
     (let key = pair_text (lm_TargetType msg) (lm_TargetId msg)
      in if \<not> targetSet key then uniqueTargets msgs (targetSet(key := True)) (targets @ [key])
         else uniqueTargets msgs targetSet targets)"

text \<open>Failures of single targets are logged; the loop goes on.\<close>

fun syncTargets :: "'w sqlconn \<Rightarrow> 'w LikeCache \<Rightarrow> string list \<Rightarrow> 'w \<Rightarrow> 'w" where
  "syncTargets db c [] w = w"
| "syncTargets db c (target # targets) w =
     (case parseTarget target of
        None \<Rightarrow> syncTargets db c targets w
      | Some (targetType, targetId) \<Rightarrow>
          syncTargets db c targets (snd (syncSingleTarget db c targetType targetId w)))"

definition ProcessBatch :: "'w KafkaLikeCountSyncer \<Rightarrow> LikeMessage list \<Rightarrow> 'w \<Rightarrow> unit res \<times> 'w" where
  "ProcessBatch s messages w =
     (let targets = uniqueTargets messages (\<lambda>_. False) []
      in (Inr (), syncTargets (ks_db s) (ks_likeCache s) targets w))"

section \<open>The pending-set syncer\<close>

fun syncPending :: "'w sqlconn \<Rightarrow> 'w LikeCache \<Rightarrow> string list \<Rightarrow> 'w \<Rightarrow> 'w" where
  "syncPending db c [] w = w"
| "syncPending db c (target # targets) w =
     (case parseTarget target of
        None \<Rightarrow> syncPending db c targets w
      | Some (targetType, targetId) \<Rightarrow>
          (case syncSingleTarget db c targetType targetId w of
             (Inl _, w1) \<Rightarrow> syncPending db c targets w1
           | (Inr _, w1) \<Rightarrow> syncPending db c targets (snd (RemovePendingSync c targetType targetId w1))))"

definition syncToMySQL :: "'w sqlconn \<Rightarrow> 'w LikeCache \<Rightarrow> 'w \<Rightarrow> 'w" where
  "syncToMySQL db c w =
     (case GetPendingSyncTargets c 1000 w of
        (Inl err, w1) \<Rightarrow> w1
      | (Inr targets, w1) \<Rightarrow> (if length targets = 0 then w1 else syncPending db c targets w1))"

record 'w LikeCountSyncer =
  lcs_db :: "'w sqlconn"
  lcs_likeCache :: "'w LikeCache"
  lcs_interval :: int

definition NewLikeCountSyncer :: "'w sqlconn \<Rightarrow> 'w LikeCache \<Rightarrow> int \<Rightarrow> 'w LikeCountSyncer" where
  "NewLikeCountSyncer db c intervalSeconds =
     \<lparr>lcs_db = db, lcs_likeCache = c, lcs_interval = i64 (intervalSeconds * 1000000000)\<rparr>"

text \<open>The goroutine of \<open>Start\<close> on the events it receives; the result is whether it has returned.\<close>

datatype lcs_event = LcsTick | LcsStop

fun lcs_run :: "'w LikeCountSyncer \<Rightarrow> lcs_event list \<Rightarrow> 'w \<Rightarrow> bool \<times> 'w" where
  "lcs_run s [] w = (False, w)"
| "lcs_run s (LcsTick # evs) w = lcs_run s evs (syncToMySQL (lcs_db s) (lcs_likeCache s) w)"
| "lcs_run s (LcsStop # evs) w = (True, w)"

interpretation pending_loop: event_loop "lcs_run s" for s
proof
  show "lcs_run s (xs @ ys) w = (case lcs_run s xs w of (True, w') \<Rightarrow> (True, w') | (False, w') \<Rightarrow> lcs_run s ys w')" for xs ys w
    by (induction s xs w rule: lcs_run.induct) simp_all
qed simp

definition ForceSync :: "'w sqlconn \<Rightarrow> 'w LikeCache \<Rightarrow> int \<Rightarrow> int \<Rightarrow> 'w \<Rightarrow> unit res \<times> 'w" where
  "ForceSync db c targetType targetId w =
     andThen (wrapErr ''failed to get redis count'' (GetLikeCount c targetType targetId w)) (\<lambda>redisCount w1.
       case tableName targetType of
         Inl err \<Rightarrow> (Inl err, w1)
       | Inr tbl \<Rightarrow>
           wrapErr ''failed to update mysql''
             (execErr db (updateCountSQL tbl) [SInt redisCount, SInt targetId] w1))"

section \<open>CheckAndFix\<close>

definition likesCountSQL :: string where
  "likesCountSQL = ''SELECT COUNT(*) FROM likes WHERE target_id = ? AND type = ? AND status = 1''"

text \<open>
  \<open>LikeDataConsistencyChecker.CheckAndFix\<close>. \<open>countSQL\<close> is the text of the counting statement: the
  two copies of the function differ in it, because the copy in \<open>like_count_syncer.go\<close> passes an
  unused argument to \<open>Sprintf\<close>, which appends a note to the text.
\<close>

definition CheckAndFix ::
  "(string \<Rightarrow> string) \<Rightarrow> 'w sqlconn \<Rightarrow> 'w LikeCache \<Rightarrow> int \<Rightarrow> int \<Rightarrow> 'w \<Rightarrow> unit res \<times> 'w" where
  "CheckAndFix countSQL db c targetType targetId w =
     andThen (wrapErr ''failed to get redis count'' (GetLikeCount c targetType targetId w)) (\<lambda>redisCount w1.
     andThen (wrapErr ''failed to get relation count'' (GetLikeRelationCount c targetType targetId w1)) (\<lambda>relationCount w2.
     andThen (if redisCount \<noteq> relationCount
              then wrapErr ''failed to fix redis count'' (SetLikeCount c targetType targetId relationCount w2)
              else (Inr (), w2)) (\<lambda>_ w3.
       case tableName targetType of
         Inl err \<Rightarrow> (Inl err, w3)
       | Inr tbl \<Rightarrow>
           (case dbQueryInt db (countSQL tbl) [SInt targetId, SInt targetType] w3 of
              (r, w4) \<Rightarrow>
                (case (case r of Inl err \<Rightarrow> if err \<noteq> ErrSqlNoRows then Inl err else Inr 0 | Inr n \<Rightarrow> Inr n) of
                   Inl err \<Rightarrow> (Inl (Wrap ''failed to query mysql count'' err), w4)
                 | Inr mysqlCount \<Rightarrow>
                     (if mysqlCount \<noteq> relationCount
                      then wrapErr ''failed to update mysql count''
                             (execErr db (updateCountSQL tbl) [SInt relationCount, SInt targetId] w4)
                      else (Inr (), w4)))))))"

definition kafkaCountSQL :: "string \<Rightarrow> string" where
  "kafkaCountSQL tbl = likesCountSQL"

definition pendingCountSQL :: "string \<Rightarrow> string" where
  "pendingCountSQL tbl = likesCountSQL @ ''%!(EXTRA string='' @ tbl @ '')''"

record 'w LikeDataConsistencyChecker =
  ldc_db :: "'w sqlconn"
  ldc_likeCache :: "'w LikeCache"

definition NewLikeDataConsistencyChecker :: "'w sqlconn \<Rightarrow> 'w LikeCache \<Rightarrow> 'w LikeDataConsistencyChecker" where
  "NewLikeDataConsistencyChecker db c = \<lparr>ldc_db = db, ldc_likeCache = c\<rparr>"

text \<open>The method as it stands in \<open>kafka_syncer.go\<close> and in \<open>like_count_syncer.go\<close>.\<close>

definition kafka_CheckAndFix :: "'w LikeDataConsistencyChecker \<Rightarrow> int \<Rightarrow> int \<Rightarrow> 'w \<Rightarrow> unit res \<times> 'w" where
  "kafka_CheckAndFix c = CheckAndFix kafkaCountSQL (ldc_db c) (ldc_likeCache c)"

definition pending_CheckAndFix :: "'w LikeDataConsistencyChecker \<Rightarrow> int \<Rightarrow> int \<Rightarrow> 'w \<Rightarrow> unit res \<times> 'w" where
  "pending_CheckAndFix c = CheckAndFix pendingCountSQL (ldc_db c) (ldc_likeCache c)"

section \<open>A batch synchronises each target once\<close>

text \<open>The first occurrences of a list's elements.\<close>

fun firsts :: "'a list \<Rightarrow> 'a list \<Rightarrow> 'a list" where
  "firsts seen [] = []"
| "firsts seen (x # xs) = (if x \<in> set seen then firsts seen xs else x # firsts (x # seen) xs)"

lemma distinct_firsts: "distinct (firsts seen xs) \<and> set (firsts seen xs) = set xs - set seen"
  by (induction xs arbitrary: seen) auto

definition target_of :: "LikeMessage \<Rightarrow> int \<times> int" where
  "target_of m = (lm_TargetType m, lm_TargetId m)"

definition target_text :: "int \<times> int \<Rightarrow> string" where
  "target_text t = pair_text (fst t) (snd t)"

interpretation target_key: key_scheme target_text
  by unfold_locales (simp add: target_text_def prod_eq_iff)

definition in_range :: "int \<times> int \<Rightarrow> bool" where
  "in_range t \<longleftrightarrow> is_int32 (fst t) \<and> is_int64 (snd t)"

lemma parse_target_text: "in_range t \<Longrightarrow> parseTarget (target_text t) = Some t"
  by (auto simp: parseTarget_def target_text_def in_range_def split_pair_text ParseInt_show_int is_int32_def is_int64_def)

lemma uniqueTargets_firsts:
  assumes "\<And>t. seen (target_text t) \<longleftrightarrow> t \<in> set old"
  shows "uniqueTargets msgs seen acc = acc @ map target_text (firsts old (map target_of msgs))"
  using assms
proof (induction msgs arbitrary: seen acc old)
  case (Cons m ms)
  have key: "pair_text (lm_TargetType m) (lm_TargetId m) = target_text (target_of m)"
    by (simp add: target_text_def target_of_def)
  show ?case
  proof (cases "target_of m \<in> set old")
    case True
    with Cons show ?thesis by (simp add: key)
  next
    case False
    have "\<And>t. (seen(target_text (target_of m) := True)) (target_text t) \<longleftrightarrow> t \<in> set (target_of m # old)"
      using Cons.prems by (auto simp: target_key.key_eq_iff)
    note IH = Cons.IH [OF this]
    have "\<not> seen (target_text (target_of m))" using False Cons.prems by blast
    with False show ?thesis unfolding uniqueTargets.simps key Let_def by (simp only: IH) simp
  qed
qed simp

lemma syncTargets_texts:
  "list_all in_range ts \<Longrightarrow> syncTargets db c (map target_text ts) w =
   fold (\<lambda>t w. snd (syncSingleTarget db c (fst t) (snd t) w)) ts w"
  by (induction ts arbitrary: w) (auto simp: parse_target_text)

text \<open>
  C25: A batch synchronises every distinct target of its messages exactly once, in the order of first
  appearance, whatever the number of likes and unlikes per target and however single targets fail:
  turning the targets into texts, collecting them in a set and parsing them back loses and merges
  nothing.
\<close>

theorem batch_syncs_each_target_once:
  assumes "list_all (\<lambda>m. in_range (target_of m)) messages"
  shows "\<exists>ts. distinct ts \<and> set ts = set (map target_of messages) \<and> ts = firsts [] (map target_of messages) \<and>
    ProcessBatch s messages w =
      (Inr (), fold (\<lambda>t w. snd (syncSingleTarget (ks_db s) (ks_likeCache s) (fst t) (snd t) w)) ts w)"
proof -
  let ?ts = "firsts [] (map target_of messages)"
  have d: "distinct ?ts \<and> set ?ts = set (map target_of messages)"
    using distinct_firsts [of "[]" "map target_of messages"] by simp
  then have "list_all in_range ?ts"
    using assms by (auto simp: list_all_iff)
  from syncTargets_texts [OF this] d show ?thesis
    by (simp add: ProcessBatch_def uniqueTargets_firsts [of "\<lambda>_. False" "[]"])
qed

definition demo_message :: "int \<Rightarrow> int \<Rightarrow> LikeMessage" where
  "demo_message t i = \<lparr>lm_Id = [], lm_TargetType = t, lm_TargetId = i, lm_UserId = 3, lm_Action = ActionLike,
     lm_Timestamp = 0\<rparr>"

theorem batch_syncs_each_target_once_witness:
  "\<forall>s w. \<exists>ts. ts = [(1, 7), (2, 7)] \<and>
    ProcessBatch s [demo_message 1 7, demo_message 2 7, demo_message 1 7] w =
      (Inr (), fold (\<lambda>t w. snd (syncSingleTarget (ks_db s) (ks_likeCache s) (fst t) (snd t) w)) ts w)"
proof (intro allI)
  fix s :: "'a KafkaLikeCountSyncer" and w
  show "\<exists>ts. ts = [(1, 7), (2, 7)] \<and>
    ProcessBatch s [demo_message 1 7, demo_message 2 7, demo_message 1 7] w =
      (Inr (), fold (\<lambda>t w. snd (syncSingleTarget (ks_db s) (ks_likeCache s) (fst t) (snd t) w)) ts w)"
    using batch_syncs_each_target_once [of "[demo_message 1 7, demo_message 2 7, demo_message 1 7]" s w]
    by (simp add: demo_message_def target_of_def in_range_def is_int32_def is_int64_def)
qed

end
