(* ===== verification/ConsistencyChecker.thy ===== *)
theory ConsistencyChecker
  imports LikeSync
begin

text \<open>
  The periodic and queued comparison of the three places a like count lives in
  (\<open>interaction/internal/sync/consistency_checker.go\<close>).
\<close>

section \<open>The checker\<close>

record ConsistencyCheckerConfig =
  ccc_CheckInterval :: int
  ccc_BatchSize :: int
  ccc_AutoFix :: bool
  ccc_EnableAlarm :: bool
  ccc_AlarmThreshold :: int

record CheckTask =
  task_TargetType :: int
  task_TargetId :: int
  task_Priority :: int

text \<open>A connection that also returns sampled targets.\<close>

record 'w check_conn = "'w sqlconn" +
  dbQueryTargets :: "((int \<times> int) list, 'w) query"

text \<open>
  The queue is a channel with room for 1000 tasks; \<open>alarm\<close> is the alarm function, if one was set,
  called with the number of inconsistent targets, the threshold and the time.
\<close>

record 'w LikeConsistencyChecker =
  chk_db :: "'w check_conn"
  chk_likeCache :: "'w LikeCache"
  chk_config :: ConsistencyCheckerConfig
  chk_queue :: "CheckTask list"
  chk_alarm :: "(int \<Rightarrow> int \<Rightarrow> int \<Rightarrow> 'w \<Rightarrow> 'w) option"

definition NewLikeConsistencyChecker ::
  "'w check_conn \<Rightarrow> 'w LikeCache \<Rightarrow> ConsistencyCheckerConfig \<Rightarrow> 'w LikeConsistencyChecker" where
  "NewLikeConsistencyChecker db c config =
     \<lparr>chk_db = db, chk_likeCache = c, chk_config = config, chk_queue = [], chk_alarm = None\<rparr>"

definition SetAlarmFunc ::
  "(int \<Rightarrow> int \<Rightarrow> int \<Rightarrow> 'w \<Rightarrow> 'w) \<Rightarrow> 'w LikeConsistencyChecker \<Rightarrow> 'w LikeConsistencyChecker" where
  "SetAlarmFunc f c = c\<lparr>chk_alarm := Some f\<rparr>"

text \<open>A full queue drops the task.\<close>

definition AddCheckTask :: "CheckTask \<Rightarrow> 'w LikeConsistencyChecker \<Rightarrow> 'w LikeConsistencyChecker" where
  "AddCheckTask task c =
     (if length (chk_queue c) < 1000 then c\<lparr>chk_queue := chk_queue c @ [task]\<rparr> else c)"

record CheckResult =
  IsConsistent :: bool
  MySQLCount :: int
  RedisCount :: int
  RelationCount :: int

definition getMySQLCount :: "'w LikeConsistencyChecker \<Rightarrow> int \<Rightarrow> int \<Rightarrow> 'w \<Rightarrow> int res \<times> 'w" where
  "getMySQLCount c targetType targetId w =
     (if targetType \<noteq> 1 \<and> targetType \<noteq> 2
      then (Inl (Errorf (''unknown target type: '' @ show_int targetType)), w)
      else (case dbQueryInt (chk_db c)
              ''SELECT COUNT(*) FROM likes WHERE target_id = ? AND type = ? AND status = 1''
              [SInt targetId, SInt targetType] w of
              (Inl err, w') \<Rightarrow> (if err \<noteq> ErrSqlNoRows then (Inl err, w') else (Inr 0, w'))
            | (Inr count, w') \<Rightarrow> (Inr count, w')))"

definition checkSingleTarget :: "'w LikeConsistencyChecker \<Rightarrow> int \<Rightarrow> int \<Rightarrow> 'w \<Rightarrow> CheckResult res \<times> 'w" where
  "checkSingleTarget c targetType targetId w =
     andThen (wrapErr ''get mysql count failed'' (getMySQLCount c targetType targetId w)) (\<lambda>mysqlCount w1.
     andThen (wrapErr ''get redis count failed'' (GetLikeCount (chk_likeCache c) targetType targetId w1)) (\<lambda>redisCount w2.
     andThen (wrapErr ''get relation count failed''
                (GetLikeRelationCount (chk_likeCache c) targetType targetId w2)) (\<lambda>relationCount w3.
       (Inr \<lparr>IsConsistent = (mysqlCount = redisCount \<and> redisCount = relationCount),
             MySQLCount = mysqlCount, RedisCount = redisCount, RelationCount = relationCount\<rparr>, w3))))"

definition randomTargetsSQL :: string where
  "randomTargetsSQL = ''
		SELECT 1 as target_type, id FROM posts ORDER BY RAND() LIMIT ?
		UNION ALL
		SELECT 2 as target_type, id FROM comments ORDER BY RAND() LIMIT ?
	''"

text \<open>Go's \<open>limit/2\<close> truncates towards zero.\<close>

definition half :: "int \<Rightarrow> int" where
  "half n = sgn n * (\<bar>n\<bar> div 2)"

definition getRandomTargets :: "'w LikeConsistencyChecker \<Rightarrow> int \<Rightarrow> 'w \<Rightarrow> CheckTask list res \<times> 'w" where
  "getRandomTargets c limit w =
     (case dbQueryTargets (chk_db c) randomTargetsSQL [SInt (half limit), SInt (half limit)] w of
        (Inl err, w') \<Rightarrow> (Inl err, w')
      | (Inr rows, w') \<Rightarrow>
          (Inr (map (\<lambda>(t, i). \<lparr>task_TargetType = t, task_TargetId = i, task_Priority = 2\<rparr>) rows), w'))"

text \<open>The relation count is the standard; errors are logged.\<close>

definition fixInconsistency :: "'w LikeConsistencyChecker \<Rightarrow> int \<Rightarrow> int \<Rightarrow> CheckResult \<Rightarrow> 'w \<Rightarrow> 'w" where
  "fixInconsistency c targetType targetId result w =
     (let standardCount = RelationCount result;
          w1 = (if RedisCount result \<noteq> standardCount
                then snd (SetLikeCount (chk_likeCache c) targetType targetId standardCount w) else w)
      in case tableName targetType of
           Inl _ \<Rightarrow> w1
         | Inr tbl \<Rightarrow> snd (execErr (chk_db c) (updateCountSQL tbl) [SInt standardCount, SInt targetId] w1))"

fun checkTargets :: "'w LikeConsistencyChecker \<Rightarrow> CheckTask list \<Rightarrow> int \<Rightarrow> 'w \<Rightarrow> int \<times> 'w" where
  "checkTargets c [] n w = (n, w)"
| "checkTargets c (t # ts) n w =
     (case checkSingleTarget c (task_TargetType t) (task_TargetId t) w of
        (Inl err, w1) \<Rightarrow> checkTargets c ts n w1
      | (Inr result, w1) \<Rightarrow>
          (if \<not> IsConsistent result
           then checkTargets c ts (n + 1)
                  (if ccc_AutoFix (chk_config c)
                   then fixInconsistency c (task_TargetType t) (task_TargetId t) result w1 else w1)
           else checkTargets c ts n w1))"

definition periodicCheck :: "('w \<Rightarrow> int) \<Rightarrow> 'w LikeConsistencyChecker \<Rightarrow> 'w \<Rightarrow> 'w" where
  "periodicCheck clk c w =
     (case getRandomTargets c (ccc_BatchSize (chk_config c)) w of
        (Inl err, w1) \<Rightarrow> w1
      | (Inr targets, w1) \<Rightarrow>
          (case checkTargets c targets 0 w1 of
             (inconsistentCount, w2) \<Rightarrow>
               (if inconsistentCount > ccc_AlarmThreshold (chk_config c) \<and> ccc_EnableAlarm (chk_config c)
                then (case chk_alarm c of
                        None \<Rightarrow> w2
                      | Some f \<Rightarrow> f inconsistentCount (ccc_AlarmThreshold (chk_config c)) (clk w2) w2)
                else w2)))"

definition checkSingleTask :: "'w LikeConsistencyChecker \<Rightarrow> CheckTask \<Rightarrow> 'w \<Rightarrow> 'w" where
  "checkSingleTask c task w =
     (case checkSingleTarget c (task_TargetType task) (task_TargetId task) w of
        (Inl err, w1) \<Rightarrow> w1
      | (Inr result, w1) \<Rightarrow>
          (if \<not> IsConsistent result \<and> ccc_AutoFix (chk_config c)
           then fixInconsistency c (task_TargetType task) (task_TargetId task) result w1 else w1))"

definition ForceCheckAndFix :: "'w LikeConsistencyChecker \<Rightarrow> int \<Rightarrow> int \<Rightarrow> 'w \<Rightarrow> unit res \<times> 'w" where
  "ForceCheckAndFix c targetType targetId w =
     (case checkSingleTarget c targetType targetId w of
        (Inl err, w1) \<Rightarrow> (Inl err, w1)
      | (Inr result, w1) \<Rightarrow>
          (if \<not> IsConsistent result then (Inr (), fixInconsistency c targetType targetId result w1)
           else (Inr (), w1)))"

text \<open>
  The two goroutines of \<open>Start\<close> and the callers of \<open>AddCheckTask\<close>, interleaved: a tick, a task put
  in, the oldest task taken out, the stop channel closed. The result is whether both have stopped.
\<close>

datatype chk_event = ChkTick | ChkAdd CheckTask | ChkTake | ChkStop

fun checker_run ::
  "('w \<Rightarrow> int) \<Rightarrow> chk_event list \<Rightarrow> 'w LikeConsistencyChecker \<Rightarrow> 'w \<Rightarrow> bool \<times> 'w LikeConsistencyChecker \<times> 'w" where
  "checker_run clk [] c w = (False, c, w)"
| "checker_run clk (ChkStop # evs) c w = (True, c, w)"
| "checker_run clk (ChkTick # evs) c w = checker_run clk evs c (periodicCheck clk c w)"
| "checker_run clk (ChkAdd task # evs) c w = checker_run clk evs (AddCheckTask task c) w"
| "checker_run clk (ChkTake # evs) c w =
     (case chk_queue c of
        [] \<Rightarrow> checker_run clk evs c w
      | task # tasks \<Rightarrow> checker_run clk evs (c\<lparr>chk_queue := tasks\<rparr>) (checkSingleTask c task w))"

interpretation checker_loop: event_loop "\<lambda>evs (c, w). checker_run clk evs c w" for clk
proof
  show "(\<lambda>(c, w). checker_run clk (xs @ ys) c w) s =
      (case (\<lambda>(c, w). checker_run clk xs c w) s of
         (True, s') \<Rightarrow> (True, s') | (False, s') \<Rightarrow> (\<lambda>(c, w). checker_run clk ys c w) s')" for xs ys s
  proof (cases s)
    case (Pair c w)
    show ?thesis
      unfolding Pair prod.case
      by (induction clk xs c w rule: checker_run.induct) (auto split: list.split)
  qed
qed auto

section \<open>What a fix achieves\<close>

text \<open>
  A database with the number of likes rows of a target, \<open>rows\<close>, and the column \<open>like_count\<close> of a
  table, \<open>col\<close>, beside the Redis store \<open>st\<close>.
\<close>

definition like_tables ::
  "('w, 'x) sqlconn_scheme \<Rightarrow> ('w \<Rightarrow> store) \<Rightarrow> ('w \<Rightarrow> int \<Rightarrow> int \<Rightarrow> int) \<Rightarrow> ('w \<Rightarrow> string \<Rightarrow> int \<Rightarrow> int) \<Rightarrow> bool" where
  "like_tables db st rows col \<longleftrightarrow>
     (\<forall>t i w. dbQueryInt db likesCountSQL [SInt i, SInt t] w = (Inr (rows w t i), w)) \<and>
     (\<forall>tbl n i w. \<exists>r w'. dbExec db (updateCountSQL tbl) [SInt n, SInt i] w = (Inr r, w') \<and>
        st w' = st w \<and> rows w' = rows w \<and> col w' = (col w)(tbl := (col w tbl)(i := n)))"

definition redis_frame :: "'w redis \<Rightarrow> ('w \<Rightarrow> 'v) \<Rightarrow> bool" where
  "redis_frame R view \<longleftrightarrow> (\<forall>k v t w. view (snd (redisSetex R k v t w)) = view w) \<and>
     (\<forall>k w. view (snd (redisGet R k w)) = view w) \<and> (\<forall>k w. view (snd (redisScard R k w)) = view w)"

text \<open>The store holds a counter and a relation set of the target.\<close>

definition holds_likes :: "store \<Rightarrow> int \<Rightarrow> int \<Rightarrow> int \<Rightarrow> string list \<Rightarrow> bool" where
  "holds_likes s t i n users \<longleftrightarrow> is_int64 n \<and> s (buildCountKey t i) = Some (RStr (show_int n)) \<and>
     st_members s (buildRelationKey t i) = Inr users"

lemma holds_counts:
  assumes "implements (lc_redis c) st" "redis_frame (lc_redis c) rows" "redis_frame (lc_redis c) col"
    and "holds_likes (st w) t i n users"
  shows "\<exists>w'. GetLikeCount c t i w = (Inr n, w') \<and> st w' = st w \<and> rows w' = rows w \<and> col w' = col w"
    and "\<exists>w'. GetLikeRelationCount c t i w = (Inr (int (length users)), w') \<and> st w' = st w \<and>
           rows w' = rows w \<and> col w' = col w"
proof -
  obtain r1 w1 where 1: "redisGet (lc_redis c) (buildCountKey t i) w = (r1, w1)" by fastforce
  from implementsD(1) [OF assms(1) 1] assms(2-4) 1
  show "\<exists>w'. GetLikeCount c t i w = (Inr n, w') \<and> st w' = st w \<and> rows w' = rows w \<and> col w' = col w"
    by (auto simp: GetLikeCount_def holds_likes_def st_get_def ParseInt_show_int redis_frame_def) (metis snd_conv)+
  obtain r2 w2 where 2: "redisScard (lc_redis c) (buildRelationKey t i) w = (r2, w2)" by fastforce
  from implementsD(8) [OF assms(1) 2] assms(2-4) 2
  show "\<exists>w'. GetLikeRelationCount c t i w = (Inr (int (length users)), w') \<and> st w' = st w \<and>
           rows w' = rows w \<and> col w' = col w"
    by (auto simp: GetLikeRelationCount_def holds_likes_def st_scard_def redis_frame_def) (metis snd_conv)+
qed

lemma check_holds:
  assumes "implements (lc_redis (chk_likeCache c)) st" "redis_frame (lc_redis (chk_likeCache c)) rows"
    and "redis_frame (lc_redis (chk_likeCache c)) col" "like_tables (chk_db c) st rows col"
    and "holds_likes (st w) t i n users" "t = 1 \<or> t = 2"
  shows "\<exists>w'. checkSingleTarget c t i w = (Inr \<lparr>IsConsistent = (rows w t i = n \<and> n = int (length users)),
      MySQLCount = rows w t i, RedisCount = n, RelationCount = int (length users)\<rparr>, w') \<and>
    st w' = st w \<and> rows w' = rows w \<and> col w' = col w"
proof -
  have "getMySQLCount c t i w = (Inr (rows w t i), w)"
    using assms(4,6) by (auto simp: getMySQLCount_def like_tables_def likesCountSQL_def)
  moreover obtain w1 where 1: "GetLikeCount (chk_likeCache c) t i w = (Inr n, w1)" "st w1 = st w"
    "rows w1 = rows w" "col w1 = col w"
    using holds_counts(1) [OF assms(1-3,5)] by blast
  moreover have "holds_likes (st w1) t i n users" using assms(5) 1 by simp
  then obtain w2 where "GetLikeRelationCount (chk_likeCache c) t i w1 = (Inr (int (length users)), w2)"
    "st w2 = st w1" "rows w2 = rows w1" "col w2 = col w1"
    using holds_counts(2) [OF assms(1-3), of w1] by blast
  ultimately show ?thesis by (simp add: checkSingleTarget_def)
qed


text \<open>For examples: the world is the store, the rows and the columns.\<close>

type_synonym likes_world = "store \<times> (int \<Rightarrow> int \<Rightarrow> int) \<times> (string \<Rightarrow> int \<Rightarrow> int)"

definition on_store :: "(store \<Rightarrow> 'a res \<times> store) \<Rightarrow> likes_world \<Rightarrow> 'a res \<times> likes_world" where
  "on_store f w = (fst (f (fst w)), (snd (f (fst w)), snd w))"

definition likes_redis :: "likes_world redis" where
  "likes_redis = down_redis\<lparr>redisGet := (\<lambda>k. on_store (st_get k)),
     redisSetex := (\<lambda>k v t. on_store (st_setex k v)), redisIncr := (\<lambda>k. on_store (st_add k 1)),
     redisDecr := (\<lambda>k. on_store (st_add k (- 1))), redisSadd := (\<lambda>k m. on_store (st_sadd k m)),
     redisSrem := (\<lambda>k m. on_store (st_srem k m)), redisSismember := (\<lambda>k m. on_store (st_sismember k m)),
     redisScard := (\<lambda>k. on_store (st_scard k)), redisSmembers := (\<lambda>k. on_store (st_smembers k))\<rparr>"

definition likes_db :: "likes_world check_conn" where
  "likes_db = \<lparr>
     dbExec = (\<lambda>sql args w. (Inr \<lparr>rowsAffected = Inr 1, lastInsertId = Inr 0\<rparr>,
       case args of [SInt n, SInt i] \<Rightarrow>
         (fst w, fst (snd w), \<lambda>tbl j. if sql = updateCountSQL tbl \<and> j = i then n else snd (snd w) tbl j)
       | _ \<Rightarrow> w)),
     dbQueryInt = (\<lambda>sql args w. case args of [SInt i, SInt t] \<Rightarrow> (Inr (fst (snd w) t i), w) | _ \<Rightarrow> (Inl (ErrLib ''args''), w)),
     dbQueryTargets = (\<lambda>sql args w. (Inr [], w))\<rparr>"

lemma updateCountSQL_inj [simp]: "updateCountSQL a = updateCountSQL b \<longleftrightarrow> a = b"
  by (simp add: updateCountSQL_def)

lemma likes_services:
  "implements likes_redis fst" "redis_frame likes_redis (\<lambda>w. fst (snd w))" "redis_frame likes_redis (\<lambda>w. snd (snd w))"
  "like_tables likes_db fst (\<lambda>w. fst (snd w)) (\<lambda>w. snd (snd w))"
  by (auto simp: implements_def agrees_def likes_redis_def on_store_def redis_frame_def like_tables_def likes_db_def
      fun_eq_iff)

definition likes_checker :: "likes_world LikeConsistencyChecker" where
  "likes_checker = NewLikeConsistencyChecker likes_db (NewLikeCache likes_redis)
     \<lparr>ccc_CheckInterval = 300000000000, ccc_BatchSize = 100, ccc_AutoFix = True, ccc_EnableAlarm = True, ccc_AlarmThreshold = 10\<rparr>"

definition likes_start :: likes_world where
  "likes_start = ([buildCountKey 1 7 \<mapsto> RStr (show_int 5), buildRelationKey 1 7 \<mapsto> RSet [''3'', ''4'']], (\<lambda>t i. 1), (\<lambda>tbl i. 0))"


end
