(* ===== verification/InteractionLogic.thy ===== *)
theory InteractionLogic
  imports LikeRepository ConsistencyChecker
begin

text \<open>
  The handlers of the interaction service (\<open>interaction/internal/logic\<close>,
  \<open>interaction/internal/server\<close>): a like or unlike changes the row in a transaction, then the Redis
  counters and sets, then sends a message for the syncer.
\<close>

section \<open>Handlers\<close>

record 'w InteractionSvc =
  is_LikeRepo :: "'w like_conn"
  is_LikeCache :: "'w LikeCache"
  is_KafkaProducer :: "'w Producer"

text \<open>
  The body of the transaction of \<open>Like\<close>; the first component is the captured \<open>alreadyLiked\<close>.
  \<open>int8(in.TargetType)\<close> truncates.
\<close>

definition like_tx ::
  "('w \<Rightarrow> int) \<Rightarrow> ('w \<Rightarrow> int res \<times> 'w) \<Rightarrow> int \<Rightarrow> int \<Rightarrow> int \<Rightarrow> 'w like_session \<Rightarrow> 'w \<Rightarrow> (bool \<times> unit res) \<times> 'w" where
  "like_tx clk nextID userId targetId targetType session w =
     (case LikeTx_FindByTargetAndUser session targetId userId w of
        (Inl err, w1) \<Rightarrow> ((False, Inl (Wrap ''find like failed'' err)), w1)
      | (Inr (Some existingLike), w1) \<Rightarrow>
          (if like_Status existingLike = 1 then ((True, Inr ()), w1)
           else (case LikeTx_Update session
                   (existingLike\<lparr>like_Status := 1, like_Liketime := clk w1, like_Unliketime := None\<rparr>) w1 of
                   (Inl err, w2) \<Rightarrow> ((False, Inl (Wrap ''update like failed'' err)), w2)
                 | (Inr _, w2) \<Rightarrow> ((False, Inr ()), w2)))
      | (Inr None, w1) \<Rightarrow>
          (case LikeTx_Create nextID session
                  \<lparr>like_Id = 0, like_Type = i8 targetType, like_TargetId = targetId, like_UserId = userId,
                   like_Status = 1, like_Liketime = clk w1, like_Unliketime = None\<rparr> w1 of
             (Inl err, _, w2) \<Rightarrow> ((False, Inl (Wrap ''create like failed'' err)), w2)
           | (Inr _, _, w2) \<Rightarrow> ((False, Inr ()), w2)))"

definition unlike_tx ::
  "('w \<Rightarrow> int) \<Rightarrow> int \<Rightarrow> int \<Rightarrow> 'w like_session \<Rightarrow> 'w \<Rightarrow> (bool \<times> unit res) \<times> 'w" where
  "unlike_tx clk userId targetId session w =
     (case LikeTx_FindByTargetAndUser session targetId userId w of
        (Inl err, w1) \<Rightarrow> ((False, Inl (Wrap ''find like failed'' err)), w1)
      | (Inr None, w1) \<Rightarrow> ((True, Inr ()), w1)
      | (Inr (Some existingLike), w1) \<Rightarrow>
          (if like_Status existingLike = 0 then ((True, Inr ()), w1)
           else (case LikeTx_Update session
                   (existingLike\<lparr>like_Status := 0, like_Unliketime := Some (clk w1)\<rparr>) w1 of
                   (Inl err, w2) \<Rightarrow> ((False, Inl (Wrap ''update like failed'' err)), w2)
                 | (Inr _, w2) \<Rightarrow> ((False, Inr ()), w2))))"

text \<open>Errors of the cache and of the producer are logged only. The response is its success flag.\<close>

definition Like_handler ::
  "('w \<Rightarrow> int) \<Rightarrow> ('w \<Rightarrow> int res \<times> 'w) \<Rightarrow> like_codec \<Rightarrow> string \<Rightarrow> string \<Rightarrow> 'w InteractionSvc \<Rightarrow>
   int \<Rightarrow> int \<Rightarrow> int \<Rightarrow> 'w \<Rightarrow> bool res \<times> 'w" where
  "Like_handler clk nextID C v1 v2 s userId targetId targetType w =
     (case LikeRepo_Transact (is_LikeRepo s) (like_tx clk nextID userId targetId targetType) w of
        ((_, Inl err), w1) \<Rightarrow> (Inl err, w1)
      | ((alreadyLiked, Inr _), w1) \<Rightarrow>
          (if alreadyLiked then (Inr True, w1)
           else (let w2 = snd (IncrLikeCount (is_LikeCache s) targetType targetId w1);
                     w3 = snd (AddLikeRelation v1 v2 (is_LikeCache s) targetType targetId userId w2);
                     msg = \<lparr>lm_Id = [], lm_TargetType = targetType, lm_TargetId = targetId, lm_UserId = userId,
                            lm_Action = ActionLike, lm_Timestamp = clk w3 div 1000000000\<rparr>
                 in (Inr True, snd (SendMessage clk C (is_KafkaProducer s) msg w3)))))"

definition Unlike_handler ::
  "('w \<Rightarrow> int) \<Rightarrow> like_codec \<Rightarrow> 'w InteractionSvc \<Rightarrow> int \<Rightarrow> int \<Rightarrow> int \<Rightarrow> 'w \<Rightarrow> bool res \<times> 'w" where
  "Unlike_handler clk C s userId targetId targetType w =
     (case LikeRepo_Transact (is_LikeRepo s) (unlike_tx clk userId targetId) w of
        ((_, Inl err), w1) \<Rightarrow> (Inl err, w1)
      | ((alreadyUnliked, Inr _), w1) \<Rightarrow>
          (if alreadyUnliked then (Inr True, w1)
           else (let w2 = snd (DecrLikeCount (is_LikeCache s) targetType targetId w1);
                     w3 = snd (RemoveLikeRelation (is_LikeCache s) targetType targetId userId w2);
                     msg = \<lparr>lm_Id = [], lm_TargetType = targetType, lm_TargetId = targetId, lm_UserId = userId,
                            lm_Action = ActionUnlike, lm_Timestamp = clk w3 div 1000000000\<rparr>
                 in (Inr True, snd (SendMessage clk C (is_KafkaProducer s) msg w3)))))"

text \<open>A target missing from the map reads as not liked.\<close>

definition GetLikeStatus_handler ::
  "'w InteractionSvc \<Rightarrow> int \<Rightarrow> int list \<Rightarrow> int \<Rightarrow> 'w \<Rightarrow> (int \<times> bool) list res \<times> 'w" where
  "GetLikeStatus_handler s userId targetIds targetType w =
     (let statuses = (\<lambda>m. map (\<lambda>i. (i, case m i of None \<Rightarrow> False | Some b \<Rightarrow> b)) targetIds)
      in case BatchGetLikeStatus (is_LikeCache s) targetType userId targetIds w of
           (Inl err, w1) \<Rightarrow>
             (case LikeRepo_GetLikeStatus (is_LikeRepo s) userId targetIds w1 of
                (Inl err, w2) \<Rightarrow> (Inl (Wrap ''get like status failed'' err), w2)
              | (Inr statusMap, w2) \<Rightarrow> (Inr (statuses statusMap), w2))
         | (Inr statusMap, w1) \<Rightarrow> (Inr (statuses statusMap), w1))"

text \<open>The comment handlers of this service are stubs.\<close>

definition Interaction_CreateComment :: "'w \<Rightarrow> unit res \<times> 'w" where
  "Interaction_CreateComment w = (Inr (), w)"

definition Interaction_DeleteComment :: "'w \<Rightarrow> bool res \<times> 'w" where
  "Interaction_DeleteComment w = (Inr True, w)"

definition Interaction_GetComments :: "'w \<Rightarrow> unit list res \<times> 'w" where
  "Interaction_GetComments w = (Inr [], w)"

datatype interaction_rpc =
    RpcLike int int int
  | RpcUnlike int int int
  | RpcIxCreateComment
  | RpcIxDeleteComment
  | RpcGetComments
  | RpcGetLikeStatus int "int list" int

datatype interaction_reply =
    RepFlag "bool res"
  | RepEmpty "unit res"
  | RepComments "unit list res"
  | RepStatuses "(int \<times> bool) list res"

fun InteractionServer ::
  "('w \<Rightarrow> int) \<Rightarrow> ('w \<Rightarrow> int res \<times> 'w) \<Rightarrow> like_codec \<Rightarrow> string \<Rightarrow> string \<Rightarrow> interaction_rpc \<Rightarrow>
   'w InteractionSvc \<Rightarrow> 'w \<Rightarrow> interaction_reply \<times> 'w" where
  "InteractionServer clk nextID C v1 v2 (RpcLike u i t) s w =
     (case Like_handler clk nextID C v1 v2 s u i t w of (r, w') \<Rightarrow> (RepFlag r, w'))"
| "InteractionServer clk nextID C v1 v2 (RpcUnlike u i t) s w =
     (case Unlike_handler clk C s u i t w of (r, w') \<Rightarrow> (RepFlag r, w'))"
| "InteractionServer clk nextID C v1 v2 RpcIxCreateComment s w =
     (case Interaction_CreateComment w of (r, w') \<Rightarrow> (RepEmpty r, w'))"
| "InteractionServer clk nextID C v1 v2 RpcIxDeleteComment s w =
     (case Interaction_DeleteComment w of (r, w') \<Rightarrow> (RepFlag r, w'))"
| "InteractionServer clk nextID C v1 v2 RpcGetComments s w =
     (case Interaction_GetComments w of (r, w') \<Rightarrow> (RepComments r, w'))"
| "InteractionServer clk nextID C v1 v2 (RpcGetLikeStatus u is t) s w =
     (case GetLikeStatus_handler s u is t w of (r, w') \<Rightarrow> (RepStatuses r, w'))"

section \<open>The service context\<close>

text \<open>
  The wiring of \<open>NewServiceContext\<close>: one connection, at the types of its three users, one Redis
  handle and the Kafka writer come from the libraries. The Kafka consumer is made in \<open>InteractionMain\<close>.
\<close>

record KafkaConfig =
  kc_Brokers :: "string list"
  kc_Topic :: string
  kc_GroupId :: string
  kc_BatchSize :: int
  kc_BatchTimeout :: int

record ConsistencyCheckConfig =
  ck_IntervalMinutes :: int
  ck_BatchSize :: int
  ck_AutoFix :: bool
  ck_EnableAlarm :: bool
  ck_AlarmThreshold :: int

record InteractionConfig =
  ixc_Kafka :: KafkaConfig
  ixc_Check :: ConsistencyCheckConfig

abbreviation ixc_KafkaBatchSize :: "InteractionConfig \<Rightarrow> int" where
  "ixc_KafkaBatchSize c \<equiv> kc_BatchSize (ixc_Kafka c)"

text \<open>\<open>time.Duration(n) * unit\<close> in nanoseconds wraps in int64.\<close>

definition Duration :: "int \<Rightarrow> int \<Rightarrow> int" where
  "Duration n unit = i64 (n * unit)"

abbreviation (input) "time_Second \<equiv> (1000000000 :: int)"
abbreviation (input) "time_Minute \<equiv> (60000000000 :: int)"

record 'w InteractionContext = "'w InteractionSvc" +
  ic_LikeSyncer :: "'w KafkaLikeCountSyncer"
  ic_LikeChecker :: "'w LikeConsistencyChecker"

definition NewInteractionContext ::
  "InteractionConfig \<Rightarrow> 'w like_conn \<Rightarrow> 'w sqlconn \<Rightarrow> 'w check_conn \<Rightarrow> 'w redis \<Rightarrow>
   (WriterConfig \<Rightarrow> string \<Rightarrow> string \<Rightarrow> int \<Rightarrow> 'w \<Rightarrow> unit res \<times> 'w) \<Rightarrow> 'w InteractionContext" where
  "NewInteractionContext c likeDB db checkDB redisClient newWriter =
     (let likeCache = NewLikeCache redisClient;
          producer = NewProducer newWriter
            \<lparr>pcf_Brokers = kc_Brokers (ixc_Kafka c), pcf_Topic = kc_Topic (ixc_Kafka c),
             pcf_BatchSize = ixc_KafkaBatchSize c, pcf_BatchTimeout = Duration (kc_BatchTimeout (ixc_Kafka c)) time_Second\<rparr>;
          likeSyncer = NewKafkaLikeCountSyncer db likeCache (ixc_KafkaBatchSize c);
          likeChecker = NewLikeConsistencyChecker checkDB likeCache
            \<lparr>ccc_CheckInterval = Duration (ck_IntervalMinutes (ixc_Check c)) time_Minute, ccc_BatchSize = ck_BatchSize (ixc_Check c),
             ccc_AutoFix = ck_AutoFix (ixc_Check c), ccc_EnableAlarm = ck_EnableAlarm (ixc_Check c),
             ccc_AlarmThreshold = ck_AlarmThreshold (ixc_Check c)\<rparr>
      in \<lparr>is_LikeRepo = likeDB, is_LikeCache = likeCache, is_KafkaProducer = producer,
          ic_LikeSyncer = likeSyncer, ic_LikeChecker = likeChecker\<rparr>)"

section \<open>Working services\<close>

text \<open>Redis commands, the producer and the id source leave the table alone, and the database the store.\<close>

definition like_services ::
  "('w \<Rightarrow> int res \<times> 'w) \<Rightarrow> 'w InteractionSvc \<Rightarrow> ('w \<Rightarrow> store) \<Rightarrow> ('w \<Rightarrow> likes) \<Rightarrow> 'w like_session \<Rightarrow> bool" where
  "like_services nextID s st tb se \<longleftrightarrow>
     implements (lc_redis (is_LikeCache s)) st \<and> session_on se tb \<and>
     (\<forall>fn w. case fn se w of
        ((b, Inr _), w1) \<Rightarrow> lcTransact (is_LikeRepo s) fn w = ((b, Inr ()), w1)
      | ((b, Inl e), w1) \<Rightarrow> (\<exists>w2. lcTransact (is_LikeRepo s) fn w = ((b, Inl e), w2) \<and> tb w2 = tb w \<and> st w2 = st w)) \<and>
     (\<forall>sql args w. st (snd (lsExec se sql args w)) = st w) \<and>
     (\<forall>w. tb (snd (nextID w)) = tb w \<and> st (snd (nextID w)) = st w) \<and>
     (\<forall>k d t w. tb (snd (prod_write (is_KafkaProducer s) k d t w)) = tb w \<and>
        st (snd (prod_write (is_KafkaProducer s) k d t w)) = st w) \<and>
     (let R = lc_redis (is_LikeCache s) in
        (\<forall>k w. tb (snd (redisIncr R k w)) = tb w) \<and> (\<forall>k w. tb (snd (redisDecr R k w)) = tb w) \<and>
        (\<forall>k v t w. tb (snd (redisSetex R k v t w)) = tb w) \<and>
        (\<forall>k m w. tb (snd (redisSadd R k m w)) = tb w) \<and> (\<forall>k m w. tb (snd (redisSrem R k m w)) = tb w))"

lemma like_servicesD:
  assumes "like_services nextID s st tb se"
  shows "implements (lc_redis (is_LikeCache s)) st" "session_on se tb"
    and "fn se w = ((b, Inr u), w1) \<Longrightarrow> lcTransact (is_LikeRepo s) fn w = ((b, Inr ()), w1)"
    and "fn se w = ((b, Inl e), w1) \<Longrightarrow>
      \<exists>w2. lcTransact (is_LikeRepo s) fn w = ((b, Inl e), w2) \<and> tb w2 = tb w \<and> st w2 = st w"
    and "st (snd (lsExec se sql args w)) = st w"
    and "nextID w = (r, w1) \<Longrightarrow> tb w1 = tb w \<and> st w1 = st w"
proof -
  have T: "case fn se w of ((b, Inr _), w1) \<Rightarrow> lcTransact (is_LikeRepo s) fn w = ((b, Inr ()), w1)
      | ((b, Inl e), w1) \<Rightarrow> (\<exists>w2. lcTransact (is_LikeRepo s) fn w = ((b, Inl e), w2) \<and> tb w2 = tb w \<and> st w2 = st w)"
    for fn w
    using assms by (simp add: like_services_def)
  show "fn se w = ((b, Inr u), w1) \<Longrightarrow> lcTransact (is_LikeRepo s) fn w = ((b, Inr ()), w1)"
    "fn se w = ((b, Inl e), w1) \<Longrightarrow>
      \<exists>w2. lcTransact (is_LikeRepo s) fn w = ((b, Inl e), w2) \<and> tb w2 = tb w \<and> st w2 = st w"
    using T [of fn w] by auto
  show "implements (lc_redis (is_LikeCache s)) st" "session_on se tb" "st (snd (lsExec se sql args w)) = st w"
    using assms by (simp_all add: like_services_def)
  show "nextID w = (r, w1) \<Longrightarrow> tb w1 = tb w \<and> st w1 = st w"
    using assms unfolding like_services_def by (metis snd_conv)
qed

lemma cache_calls_keep_table:
  assumes "like_services nextID s st tb se"
  shows "tb (snd (IncrLikeCount (is_LikeCache s) t i w)) = tb w"
    and "tb (snd (DecrLikeCount (is_LikeCache s) t i w)) = tb w"
    and "tb (snd (AddLikeRelation v1 v2 (is_LikeCache s) t i u w)) = tb w"
    and "tb (snd (RemoveLikeRelation (is_LikeCache s) t i u w)) = tb w"
proof -
  let ?R = "lc_redis (is_LikeCache s)"
  have R: "redisIncr ?R k w = (x, w1) \<Longrightarrow> tb w1 = tb w" "redisDecr ?R k w = (x, w1) \<Longrightarrow> tb w1 = tb w"
    "redisSadd ?R k m w = (x, w1) \<Longrightarrow> tb w1 = tb w" "redisSrem ?R k m w = (x, w1) \<Longrightarrow> tb w1 = tb w"
    "tb (snd (redisSetex ?R k v ttl w)) = tb w" for k m v ttl w x w1
    using assms unfolding like_services_def Let_def by (metis snd_conv)+
  show "tb (snd (IncrLikeCount (is_LikeCache s) t i w)) = tb w"
    by (auto simp: IncrLikeCount_def Let_def R(5) split: sum.splits prod.splits dest: R(1))
  show "tb (snd (DecrLikeCount (is_LikeCache s) t i w)) = tb w"
    by (auto simp: DecrLikeCount_def Let_def R(5) split: sum.splits prod.splits dest: R(2))
  show "tb (snd (AddLikeRelation v1 v2 (is_LikeCache s) t i u w)) = tb w"
    by (auto simp: AddLikeRelation_def Let_def R(5) split: sum.splits prod.splits dest!: R(3))
  show "tb (snd (RemoveLikeRelation (is_LikeCache s) t i u w)) = tb w"
    by (auto simp: RemoveLikeRelation_def split: sum.splits prod.splits dest!: R(4))
qed

lemma SendMessage_keeps:
  assumes "like_services nextID s st tb se"
  shows "tb (snd (SendMessage clk C (is_KafkaProducer s) m w)) = tb w"
    and "st (snd (SendMessage clk C (is_KafkaProducer s) m w)) = st w"
proof -
  have P: "prod_write (is_KafkaProducer s) k d t w = (x, w1) \<Longrightarrow> tb w1 = tb w \<and> st w1 = st w" for k d t w x w1
    using assms unfolding like_services_def by (metis snd_conv)
  show "tb (snd (SendMessage clk C (is_KafkaProducer s) m w)) = tb w"
    "st (snd (SendMessage clk C (is_KafkaProducer s) m w)) = st w"
    by (auto simp: SendMessage_def split: sum.splits prod.splits dest!: P)
qed

lemma row_write:
  assumes "like_services nextID s st tb se"
  shows "tb w (like_TargetId l, like_UserId l) = Some l0 \<Longrightarrow> update_like se l w = (r, w1) \<Longrightarrow>
      r = Inr () \<and> st w1 = st w \<and> tb w1 = (tb w)((like_TargetId l, like_UserId l) \<mapsto>
        l0\<lparr>like_Status := like_Status l, like_Liketime := like_Liketime l, like_Unliketime := like_Unliketime l\<rparr>)"
    and "tb w (like_TargetId l, like_UserId l) = None \<Longrightarrow> insert_like se l w = (r, w1) \<Longrightarrow>
      r = Inr () \<and> st w1 = st w \<and> (\<exists>l1. like_Status l1 = like_Status l \<and>
        like_TargetId l1 = like_TargetId l \<and> like_UserId l1 = like_UserId l \<and> tb w1 = (tb w)((like_TargetId l, like_UserId l) \<mapsto> l1))"
proof -
  note S = like_servicesD(2) [OF assms]
  note F = like_servicesD(5) [OF assms]
  show "r = Inr () \<and> st w1 = st w \<and> tb w1 = (tb w)((like_TargetId l, like_UserId l) \<mapsto>
        l0\<lparr>like_Status := like_Status l, like_Liketime := like_Liketime l, like_Unliketime := like_Unliketime l\<rparr>)"
    if t: "tb w (like_TargetId l, like_UserId l) = Some l0" and u: "update_like se l w = (r, w1)"
  proof -
    obtain x w2 where x: "lsExec se updateLikeSQL [LInt (like_Status l), LTime (like_Liketime l),
        LNullTime (like_Unliketime l), LInt (like_TargetId l), LInt (like_UserId l)] w = (Inr x, w2)"
      "rowsAffected x = Inr 1" "tb w2 = (tb w)((like_TargetId l, like_UserId l) \<mapsto>
        l0\<lparr>like_Status := like_Status l, like_Liketime := like_Liketime l, like_Unliketime := like_Unliketime l\<rparr>)"
      using S t unfolding session_on_def by blast
    with u F show ?thesis by (auto simp: update_like_def one_row_def dest: arg_cong [where f = snd]) (metis snd_conv)
  qed
  show "r = Inr () \<and> st w1 = st w \<and> (\<exists>l1. like_Status l1 = like_Status l \<and>
        like_TargetId l1 = like_TargetId l \<and> like_UserId l1 = like_UserId l \<and> tb w1 = (tb w)((like_TargetId l, like_UserId l) \<mapsto> l1))"
    if t: "tb w (like_TargetId l, like_UserId l) = None" and u: "insert_like se l w = (r, w1)"
  proof -
    obtain x w2 l1 where x: "lsExec se insertLikeSQL [LInt (like_Id l), LInt (like_Type l), LInt (like_TargetId l),
        LInt (like_UserId l), LInt (like_Status l), LTime (like_Liketime l)] w = (Inr x, w2)"
      "rowsAffected x = Inr 1" "like_Status l1 = like_Status l" "like_TargetId l1 = like_TargetId l"
      "like_UserId l1 = like_UserId l" "tb w2 = (tb w)((like_TargetId l, like_UserId l) \<mapsto> l1)"
      using S t unfolding session_on_def
      by (metis Like.select_convs(3,4,5))
    with u F show ?thesis by (auto simp: insert_like_def one_row_def) (metis snd_conv)
  qed
qed

lemma find_row:
  assumes "like_services nextID s st tb se"
  shows "find_like se i u w = (Inr (tb w (i, u)), w)"
  using like_servicesD(2) [OF assms] by (simp add: find_like_def session_on_def split: option.split)

definition rows_ok :: "likes \<Rightarrow> bool" where
  "rows_ok tb \<longleftrightarrow> (\<forall>i u l. tb (i, u) = Some l \<longrightarrow> like_TargetId l = i \<and> like_UserId l = u)"

definition liked :: "likes \<Rightarrow> int \<Rightarrow> int \<Rightarrow> bool" where
  "liked tb i u \<longleftrightarrow> (\<exists>l. tb (i, u) = Some l \<and> like_Status l = 1)"

lemma like_tx_runs:
  assumes "like_services nextID s st tb se"
  shows "liked (tb w) i u \<Longrightarrow> like_tx clk nextID u i t se w = ((True, Inr ()), w)"
    and "rows_ok (tb w) \<Longrightarrow> \<not> liked (tb w) i u \<Longrightarrow> like_tx clk nextID u i t se w = ((b, Inr x), w1) \<Longrightarrow>
      b = False \<and> st w1 = st w \<and> (\<exists>l. like_Status l = 1 \<and> like_TargetId l = i \<and> like_UserId l = u \<and> tb w1 = (tb w)((i, u) \<mapsto> l))"
proof -
  note F = find_row [OF assms, of i u w]
  show "liked (tb w) i u \<Longrightarrow> like_tx clk nextID u i t se w = ((True, Inr ()), w)"
    by (auto simp: like_tx_def LikeTx_FindByTargetAndUser_def F liked_def)
  assume ok: "rows_ok (tb w)" and n: "\<not> liked (tb w) i u" and tx: "like_tx clk nextID u i t se w = ((b, Inr x), w1)"
  show "b = False \<and> st w1 = st w \<and> (\<exists>l. like_Status l = 1 \<and> like_TargetId l = i \<and> like_UserId l = u \<and> tb w1 = (tb w)((i, u) \<mapsto> l))"
  proof (cases "tb w (i, u)")
    case (Some l0)
    with ok have "like_TargetId l0 = i" "like_UserId l0 = u" by (auto simp: rows_ok_def)
    then show ?thesis
      using n tx F Some row_write(1) [OF assms(1), of w "l0\<lparr>like_Status := 1, like_Liketime := clk w, like_Unliketime := None\<rparr>" l0]
      by (auto simp: like_tx_def LikeTx_FindByTargetAndUser_def LikeTx_Update_def liked_def split: prod.splits sum.splits
          intro!: exI [of _ "l0\<lparr>like_Status := 1, like_Liketime := clk w, like_Unliketime := None\<rparr>"])
  next
    case None
    obtain r w2 where id: "nextID w = (r, w2)" by fastforce
    note k = like_servicesD(6) [OF assms(1) id]
    show ?thesis
    proof (cases r)
      case (Inl e)
      with tx F None id show ?thesis
        by (simp add: like_tx_def LikeTx_FindByTargetAndUser_def LikeTx_Create_def)
    next
      case (Inr j)
      let ?l = "\<lparr>like_Id = j, like_Type = i8 t, like_TargetId = i, like_UserId = u, like_Status = 1,
        like_Liketime = clk w, like_Unliketime = None\<rparr>"
      obtain y w3 where ins: "insert_like se ?l w2 = (y, w3)" by fastforce
      have "tb w2 (like_TargetId ?l, like_UserId ?l) = None" using k None by simp
      from row_write(2) [OF assms(1) this ins] k tx F None id Inr ins show ?thesis
        by (auto simp: like_tx_def LikeTx_FindByTargetAndUser_def LikeTx_Create_def Let_def)
    qed
  qed
qed

lemma Like_runs:
  assumes "like_services nextID s st tb se" "rows_ok (tb w)"
    and "Like_handler clk nextID C v1 v2 s u i t w = (Inr r, w')"
  shows "liked (tb w) i u \<Longrightarrow> r = True \<and> w' = w"
    and "\<not> liked (tb w) i u \<Longrightarrow> r = True \<and> (\<exists>l. like_Status l = 1 \<and> like_TargetId l = i \<and> like_UserId l = u \<and> tb w' = (tb w)((i, u) \<mapsto> l)) \<and>
      (\<forall>m. represents (st w) m \<longrightarrow> represents (st w') (spec_step (LkIncr t i) m))"
proof -
  obtain b y w1 where tx: "like_tx clk nextID u i t se w = ((b, y), w1)" by (metis prod.collapse)
  note D = like_servicesD(3,4) [OF assms(1), of "like_tx clk nextID u i t" w]
  have y: "y = Inr ()"
    using tx D assms(3) by (cases y) (auto simp: Like_handler_def LikeRepo_Transact_def)
  with tx D have tr: "LikeRepo_Transact (is_LikeRepo s) (like_tx clk nextID u i t) w = ((b, Inr ()), w1)"
    by (simp add: LikeRepo_Transact_def)
  show "r = True \<and> w' = w" if "liked (tb w) i u"
    using like_tx_runs(1) [OF assms(1) that, of clk t] tx tr assms(3) by (simp add: Like_handler_def)
  assume n: "\<not> liked (tb w) i u"
  from like_tx_runs(2) [OF assms(1,2) n, of clk t b "()" w1] tx y
  obtain l where l: "b = False" "st w1 = st w" "like_Status l = 1" "like_TargetId l = i" "like_UserId l = u" "tb w1 = (tb w)((i, u) \<mapsto> l)" by auto
  let ?w2 = "snd (IncrLikeCount (is_LikeCache s) t i w1)"
  let ?w3 = "snd (AddLikeRelation v1 v2 (is_LikeCache s) t i u ?w2)"
  have out: "r = True" "tb w' = tb ?w3" "st w' = st ?w3"
    using assms(3) tr l(1) SendMessage_keeps [OF assms(1)] by (auto simp: Like_handler_def Let_def)
  have "represents (st w') (spec_step (LkIncr t i) m)" if "represents (st w) m" for m
  proof -
    note I = like_servicesD(1) [OF assms(1)]
    have "represents (st ?w2) (spec_step (LkIncr t i) m)"
      using Incr_refines [OF I, of w1 m t i] that l(2) by simp
    from step_refines [OF I this, of "LkAdd v1 v2 t i u"] out(3) show ?thesis by simp
  qed
  with out l cache_calls_keep_table [OF assms(1)]
  show "r = True \<and> (\<exists>l. like_Status l = 1 \<and> like_TargetId l = i \<and> like_UserId l = u \<and> tb w' = (tb w)((i, u) \<mapsto> l)) \<and>
      (\<forall>m. represents (st w) m \<longrightarrow> represents (st w') (spec_step (LkIncr t i) m))"
    by auto
qed

definition unliked :: "likes \<Rightarrow> int \<Rightarrow> int \<Rightarrow> bool" where
  "unliked tb i u \<longleftrightarrow> (case tb (i, u) of None \<Rightarrow> True | Some l \<Rightarrow> like_Status l = 0)"

lemma unlike_tx_runs:
  assumes "like_services nextID s st tb se"
  shows "unliked (tb w) i u \<Longrightarrow> unlike_tx clk u i se w = ((True, Inr ()), w)"
    and "rows_ok (tb w) \<Longrightarrow> liked (tb w) i u \<Longrightarrow> unlike_tx clk u i se w = ((b, y), w1) \<Longrightarrow>
      b = False \<and> y = Inr () \<and> st w1 = st w \<and> (\<exists>l. like_Status l = 0 \<and> like_TargetId l = i \<and>
        like_UserId l = u \<and> tb w1 = (tb w)((i, u) \<mapsto> l))"
proof -
  note F = find_row [OF assms, of i u w]
  show "unliked (tb w) i u \<Longrightarrow> unlike_tx clk u i se w = ((True, Inr ()), w)"
    by (auto simp: unlike_tx_def LikeTx_FindByTargetAndUser_def F unliked_def split: option.splits)
  assume ok: "rows_ok (tb w)" and n: "liked (tb w) i u" and tx: "unlike_tx clk u i se w = ((b, y), w1)"
  from n obtain l0 where l0: "tb w (i, u) = Some l0" "like_Status l0 = 1" by (auto simp: liked_def)
  with ok have id: "like_TargetId l0 = i" "like_UserId l0 = u" by (auto simp: rows_ok_def)
  let ?l = "l0\<lparr>like_Status := 0, like_Unliketime := Some (clk w)\<rparr>"
  obtain x w2 where up: "update_like se ?l w = (x, w2)" by fastforce
  have row: "tb w (like_TargetId ?l, like_UserId ?l) = Some l0" using l0 id by simp
  let ?l' = "l0\<lparr>like_Status := like_Status ?l, like_Liketime := like_Liketime ?l, like_Unliketime := like_Unliketime ?l\<rparr>"
  have "x = Inr ()" "st w2 = st w" "tb w2 = (tb w)((i, u) \<mapsto> ?l')"
    using row_write(1) [OF assms row up] id by simp_all
  moreover have "((b, y), w1) = ((False, x), w2) \<or> (\<exists>e. x = Inl e)"
    using tx F l0 up by (cases x) (auto simp: unlike_tx_def LikeTx_FindByTargetAndUser_def LikeTx_Update_def)
  moreover have "like_Status ?l' = 0" "like_TargetId ?l' = i" "like_UserId ?l' = u" using id by simp_all
  ultimately show "b = False \<and> y = Inr () \<and> st w1 = st w \<and> (\<exists>l. like_Status l = 0 \<and> like_TargetId l = i \<and>
      like_UserId l = u \<and> tb w1 = (tb w)((i, u) \<mapsto> l))"
    by blast
qed

lemma Unlike_runs:
  assumes "like_services nextID s st tb se"
  shows "unliked (tb w) i u \<Longrightarrow> Unlike_handler clk C s u i t w = (Inr True, w)"
    and "rows_ok (tb w) \<Longrightarrow> liked (tb w) i u \<Longrightarrow> Unlike_handler clk C s u i t w = (r, w') \<Longrightarrow>
      r = Inr True \<and> (\<exists>l. like_Status l = 0 \<and> like_TargetId l = i \<and> like_UserId l = u \<and> tb w' = (tb w)((i, u) \<mapsto> l)) \<and>
      (\<forall>m. represents (st w) m \<longrightarrow> represents (st w') (spec_step (LkDecr t i) m))"
proof -
  note D = like_servicesD(3) [OF assms(1), of "unlike_tx clk u i" w]
  show "Unlike_handler clk C s u i t w = (Inr True, w)" if "unliked (tb w) i u"
    using unlike_tx_runs(1) [OF assms(1) that, of clk] D
    by (simp add: Unlike_handler_def LikeRepo_Transact_def)
  assume ok: "rows_ok (tb w)" and n: "liked (tb w) i u" and h: "Unlike_handler clk C s u i t w = (r, w')"
  obtain b y w1 where tx: "unlike_tx clk u i se w = ((b, y), w1)" by (metis prod.collapse)
  from unlike_tx_runs(2) [OF assms(1) ok n tx]
  obtain l where l: "b = False" "y = Inr ()" "st w1 = st w" "like_Status l = 0" "like_TargetId l = i" "like_UserId l = u"
    "tb w1 = (tb w)((i, u) \<mapsto> l)" by auto
  have tr: "LikeRepo_Transact (is_LikeRepo s) (unlike_tx clk u i) w = ((False, Inr ()), w1)"
    using tx D l by (simp add: LikeRepo_Transact_def)
  let ?w2 = "snd (DecrLikeCount (is_LikeCache s) t i w1)"
  let ?w3 = "snd (RemoveLikeRelation (is_LikeCache s) t i u ?w2)"
  have out: "r = Inr True" "tb w' = tb ?w3" "st w' = st ?w3"
    using h tr SendMessage_keeps [OF assms(1)] by (auto simp: Unlike_handler_def Let_def)
  have "represents (st w') (spec_step (LkDecr t i) m)" if "represents (st w) m" for m
  proof -
    note I = like_servicesD(1) [OF assms(1)]
    have "represents (st ?w2) (spec_step (LkDecr t i) m)"
      using Decr_refines [OF I, of w1 m t i] that l(3) by simp
    from step_refines [OF I this, of "LkRemove t i u"]
    have "represents (st ?w3) (spec_step (LkDecr t i) m)"
      by (simp only: lk_ok.simps lk_step.simps spec_step.simps simp_thms)
    then show ?thesis by (simp only: out(3))
  qed
  with out l cache_calls_keep_table [OF assms(1)]
  show "r = Inr True \<and> (\<exists>l. like_Status l = 0 \<and> like_TargetId l = i \<and> like_UserId l = u \<and> tb w' = (tb w)((i, u) \<mapsto> l)) \<and>
      (\<forall>m. represents (st w) m \<longrightarrow> represents (st w') (spec_step (LkDecr t i) m))"
    by auto
qed

section \<open>Likes are counted once\<close>

text \<open>
  C23: A like counts once: after a Like that succeeded, the row of target and user is a like, and any
  further Like by that user of that target id answers success and changes nothing at all - no row, no
  counter, no message - also when it is for the other target type, so a user who liked post 7 cannot
  like comment 7.
\<close>

theorem like_counts_once:
  assumes "like_services nextID s st tb se" "rows_ok (tb w)"
    and "Like_handler clk nextID C v1 v2 s userId targetId targetType w = (Inr r, w1)"
  shows "r = True \<and> liked (tb w1) targetId userId
    \<and> Like_handler clk nextID C v1 v2 s userId targetId otherType w1 = (Inr True, w1)"
proof -
  have l: "r = True \<and> liked (tb w1) targetId userId"
    using Like_runs [OF assms] by (cases "liked (tb w) targetId userId") (auto simp: liked_def)
  then have "like_tx clk nextID userId targetId otherType se w1 = ((True, Inr ()), w1)"
    using like_tx_runs(1) [OF assms(1)] by blast
  with like_servicesD(3) [OF assms(1), of "like_tx clk nextID userId targetId otherType" w1 True "()" w1] l
  show ?thesis by (simp add: Like_handler_def LikeRepo_Transact_def)
qed

text \<open>
  Unlike undoes Like: a Like of a target the user had not liked followed by an Unlike leaves every
  other row as it was, the user's row not liked, the target's counter at what it was (and every other
  counter untouched), and a second Unlike changes nothing.
\<close>

theorem unlike_undoes_like:
  assumes "like_services nextID s st tb se" "rows_ok (tb w)" "\<not> liked (tb w) i u"
    and "represents (st w) m" "is_int64 (count_of m (t, i) + 1)"
    and "Like_handler clk nextID C v1 v2 s u i t w = (Inr r, w1)"
    and "Unlike_handler clk C s u i t w1 = (r', w2)"
  shows "r' = Inr True \<and> \<not> liked (tb w2) i u \<and> (\<forall>k. k \<noteq> (i, u) \<longrightarrow> tb w2 k = tb w k)
    \<and> represents (st w2) (m((t, i) \<mapsto> count_of m (t, i)))
    \<and> Unlike_handler clk C s u i t w2 = (Inr True, w2)"
proof -
  from Like_runs(2) [OF assms(1,2,6,3)] obtain l where
    l: "like_Status l = 1" "like_TargetId l = i" "like_UserId l = u" "tb w1 = (tb w)((i, u) \<mapsto> l)"
    and m1: "represents (st w1) (m((t, i) \<mapsto> count_of m (t, i) + 1))"
    using assms(4,5) by auto
  from l assms(2) have "rows_ok (tb w1)" "liked (tb w1) i u" by (auto simp: rows_ok_def liked_def)
  from Unlike_runs(2) [OF assms(1) this assms(7)] obtain l' where
    l': "r' = Inr True" "like_Status l' = 0" "tb w2 = (tb w1)((i, u) \<mapsto> l')"
    and m2: "represents (st w2) (spec_step (LkDecr t i) (m((t, i) \<mapsto> count_of m (t, i) + 1)))"
    using m1 by auto
  have "spec_step (LkDecr t i) (m((t, i) \<mapsto> count_of m (t, i) + 1)) = m((t, i) \<mapsto> count_of m (t, i))"
    using representsD(2) [OF assms(4), of t i] by (simp add: count_of_def)
  moreover have "unliked (tb w2) i u" using l' by (simp add: unliked_def)
  ultimately show ?thesis
    using l l' m2 Unlike_runs(1) [OF assms(1)] by (auto simp: liked_def)
qed

text \<open>For examples: the world is the store, the table and the next id.\<close>

type_synonym ix_world = "store \<times> likes \<times> int"

definition ix_store :: "(store \<Rightarrow> 'a res \<times> store) \<Rightarrow> ix_world \<Rightarrow> 'a res \<times> ix_world" where
  "ix_store f w = (fst (f (fst w)), (snd (f (fst w)), snd w))"

definition ix_redis :: "ix_world redis" where
  "ix_redis = down_redis\<lparr>redisGet := (\<lambda>k. ix_store (st_get k)),
     redisSetex := (\<lambda>k v t. ix_store (st_setex k v)), redisIncr := (\<lambda>k. ix_store (st_add k 1)),
     redisDecr := (\<lambda>k. ix_store (st_add k (- 1))), redisSadd := (\<lambda>k m. ix_store (st_sadd k m)),
     redisSrem := (\<lambda>k m. ix_store (st_srem k m)), redisSismember := (\<lambda>k m. ix_store (st_sismember k m)),
     redisScard := (\<lambda>k. ix_store (st_scard k)), redisSmembers := (\<lambda>k. ix_store (st_smembers k))\<rparr>"

definition ix_session :: "ix_world like_session" where
  "ix_session = \<lparr>
     lsExec = (\<lambda>sql args w. case args of
         [LInt i, LInt ty, LInt t, LInt u, LInt st, LTime tm] \<Rightarrow>
           (Inr \<lparr>rowsAffected = Inr 1, lastInsertId = Inr 0\<rparr>, (fst w, (fst (snd w))((t, u) \<mapsto>
              \<lparr>like_Id = i, like_Type = ty, like_TargetId = t, like_UserId = u, like_Status = st,
               like_Liketime = tm, like_Unliketime = None\<rparr>), snd (snd w)))
       | [LInt st, LTime tm, LNullTime un, LInt t, LInt u] \<Rightarrow>
           (case fst (snd w) (t, u) of
              None \<Rightarrow> (Inr \<lparr>rowsAffected = Inr 0, lastInsertId = Inr 0\<rparr>, w)
            | Some l \<Rightarrow> (Inr \<lparr>rowsAffected = Inr 1, lastInsertId = Inr 0\<rparr>, (fst w, (fst (snd w))((t, u) \<mapsto>
                l\<lparr>like_Status := st, like_Liketime := tm, like_Unliketime := un\<rparr>), snd (snd w))))
       | _ \<Rightarrow> (Inl (ErrLib ''args''), w)),
     lsQueryLike = (\<lambda>sql args w. case args of
         [LInt t, LInt u] \<Rightarrow> (case fst (snd w) (t, u) of None \<Rightarrow> Inl ErrSqlNoRows | Some l \<Rightarrow> Inr l, w)
       | _ \<Rightarrow> (Inl (ErrLib ''args''), w)),
     lsQueryStatuses = (\<lambda>sql args w. (Inr [], w))\<rparr>"

definition ix_conn :: "ix_world like_conn" where
  "ix_conn = \<lparr>lsExec = lsExec ix_session, lsQueryLike = lsQueryLike ix_session,
     lsQueryStatuses = lsQueryStatuses ix_session,
     lcTransact = (\<lambda>fn w. case fn ix_session w of
        ((b, Inr _), w1) \<Rightarrow> ((b, Inr ()), w1) | ((b, Inl e), w1) \<Rightarrow> ((b, Inl e), w))\<rparr>"

definition ix_svc :: "ix_world InteractionSvc" where
  "ix_svc = \<lparr>is_LikeRepo = ix_conn, is_LikeCache = NewLikeCache ix_redis,
     is_KafkaProducer = \<lparr>prod_write = (\<lambda>k d t w. (Inr (), w)), prod_topic = ''like-action''\<rparr>\<rparr>"

definition ix_nextID :: "ix_world \<Rightarrow> int res \<times> ix_world" where
  "ix_nextID w = (Inr (snd (snd w)), (fst w, fst (snd w), snd (snd w) + 1))"

lemma ix_redis_implements: "implements ix_redis fst"
  by (simp add: implements_def ix_redis_def ix_store_def agrees_def)

lemma ix_session_on: "session_on ix_session (\<lambda>w. fst (snd w))"
  by (auto simp: session_on_def ix_session_def)

lemma ix_tx:
  "case fn ix_session w of
     ((b, Inr _), w1) \<Rightarrow> lcTransact ix_conn fn w = ((b, Inr ()), w1)
   | ((b, Inl e), w1) \<Rightarrow> (\<exists>w2. lcTransact ix_conn fn w = ((b, Inl e), w2) \<and>
       fst (snd w2) = fst (snd w) \<and> fst w2 = fst w)"
  by (auto simp: ix_conn_def split: prod.split sum.split) (metis prod.collapse)

lemma ix_services: "like_services ix_nextID ix_svc fst (\<lambda>w. fst (snd w)) ix_session"
  unfolding like_services_def
proof (intro conjI allI)
  fix fn :: "ix_world like_session \<Rightarrow> ix_world \<Rightarrow> (bool \<times> unit res) \<times> ix_world" and w
  show "case fn ix_session w of
      ((b, Inr _), w1) \<Rightarrow> lcTransact (is_LikeRepo ix_svc) fn w = ((b, Inr ()), w1)
    | ((b, Inl e), w1) \<Rightarrow> (\<exists>w2. lcTransact (is_LikeRepo ix_svc) fn w = ((b, Inl e), w2) \<and>
        fst (snd w2) = fst (snd w) \<and> fst w2 = fst w)"
    using ix_tx [of fn w] unfolding ix_svc_def InteractionSvc.simps .
next
  show "fst (snd (lsExec ix_session sql args w)) = fst w" for sql args w
    by (simp add: ix_session_def split: list.split likearg.split option.split)
qed (simp_all add: ix_svc_def NewLikeCache_def ix_redis_implements [unfolded ix_redis_def] ix_session_on ix_nextID_def ix_redis_def
      ix_store_def Let_def)

definition ix_codec :: like_codec where
  "ix_codec = \<lparr>encodeLike = (\<lambda>m. Inr (show_int (lm_TargetId m))), decodeLike = (\<lambda>s. Inl (ErrLib ''json''))\<rparr>"

abbreviation ix_liked :: "bool res \<times> ix_world" where
  "ix_liked \<equiv> Like_handler (\<lambda>w. 0) ix_nextID ix_codec [] [] ix_svc 3 7 1 (Map.empty, Map.empty, 5)"

lemma ix_liked_ok: "ix_liked = (Inr True, snd ix_liked)"
proof -
  have "fst ix_liked = Inr True" by code_simp
  then show ?thesis by (metis prod.collapse)
qed

abbreviation ix_unliked :: "bool res \<times> ix_world" where
  "ix_unliked \<equiv> Unlike_handler (\<lambda>w. 0) ix_codec ix_svc 3 7 1 (snd ix_liked)"

lemma ix_unliked_split: "ix_unliked = (fst ix_unliked, snd ix_unliked)"
  by simp

theorem like_counts_once_witness:
  "liked (fst (snd (snd ix_liked))) 7 3
    \<and> Like_handler (\<lambda>w. 0) ix_nextID ix_codec [] [] ix_svc 3 7 2 (snd ix_liked) = (Inr True, snd ix_liked)"
  using like_counts_once [OF ix_services _ ix_liked_ok, of 2] by (simp add: rows_ok_def)

theorem unlike_undoes_like_witness:
  "\<not> liked (fst (snd (snd ix_unliked))) 7 3 \<and> represents (fst (snd ix_unliked)) [(1, 7) \<mapsto> 0]"
  using unlike_undoes_like [OF ix_services _ _ _ _ ix_liked_ok ix_unliked_split, of Map.empty]
  by (simp add: rows_ok_def liked_def represents_def count_of_def is_int64_def)

end
