(* ===== verification/LikeRaces.thy ===== *)
theory LikeRaces
  imports InteractionLogic "HOL-Library.Multiset"
begin

text \<open>
  Like and unlike requests interleaved. A request is a transaction followed by a counter, a relation
  and a message call, and any number of requests may be between two of these; a step takes one
  of them one call further. Transactions are atomic.
\<close>

section \<open>Requests in flight\<close>

datatype like_task =
    TLike int int int
  | TUnlike int int int
  | TIncr int int int
  | TDecr int int int
  | TAdd int int int
  | TRemove int int int
  | TSend string int int int

text \<open>
  Arguments are user, target and type. The steps are the calls of \<open>Like\<close> and \<open>Unlike\<close> in
  order; a request that fails or has nothing to do is over after its transaction.
\<close>

type_synonym 'w like_state = "like_task multiset \<times> 'w"

inductive like_step ::
  "('w \<Rightarrow> int) \<Rightarrow> ('w \<Rightarrow> int res \<times> 'w) \<Rightarrow> like_codec \<Rightarrow> string \<Rightarrow> string \<Rightarrow> 'w InteractionSvc \<Rightarrow>
   'w like_state \<Rightarrow> 'w like_state \<Rightarrow> bool"
  for clk nextID C v1 v2 s where
  like_failed: "LikeRepo_Transact (is_LikeRepo s) (like_tx clk nextID u i t) w = ((b, Inl e), w') \<Longrightarrow>
    like_step clk nextID C v1 v2 s (add_mset (TLike u i t) T, w) (T, w')"
| like_done: "LikeRepo_Transact (is_LikeRepo s) (like_tx clk nextID u i t) w = ((b, Inr x), w') \<Longrightarrow>
    like_step clk nextID C v1 v2 s (add_mset (TLike u i t) T, w) (if b then T else add_mset (TIncr u i t) T, w')"
| unlike_failed: "LikeRepo_Transact (is_LikeRepo s) (unlike_tx clk u i) w = ((b, Inl e), w') \<Longrightarrow>
    like_step clk nextID C v1 v2 s (add_mset (TUnlike u i t) T, w) (T, w')"
| unlike_done: "LikeRepo_Transact (is_LikeRepo s) (unlike_tx clk u i) w = ((b, Inr x), w') \<Longrightarrow>
    like_step clk nextID C v1 v2 s (add_mset (TUnlike u i t) T, w) (if b then T else add_mset (TDecr u i t) T, w')"
| incr: "like_step clk nextID C v1 v2 s (add_mset (TIncr u i t) T, w)
    (add_mset (TAdd u i t) T, snd (IncrLikeCount (is_LikeCache s) t i w))"
| decr: "like_step clk nextID C v1 v2 s (add_mset (TDecr u i t) T, w)
    (add_mset (TRemove u i t) T, snd (DecrLikeCount (is_LikeCache s) t i w))"
| add: "like_step clk nextID C v1 v2 s (add_mset (TAdd u i t) T, w)
    (add_mset (TSend ActionLike u i t) T, snd (AddLikeRelation v1 v2 (is_LikeCache s) t i u w))"
| remove: "like_step clk nextID C v1 v2 s (add_mset (TRemove u i t) T, w)
    (add_mset (TSend ActionUnlike u i t) T, snd (RemoveLikeRelation (is_LikeCache s) t i u w))"
| send: "like_step clk nextID C v1 v2 s (add_mset (TSend act u i t) T, w)
    (T, snd (SendMessage clk C (is_KafkaProducer s) \<lparr>lm_Id = [], lm_TargetType = t, lm_TargetId = i,
       lm_UserId = u, lm_Action = act, lm_Timestamp = clk w div 1000000000\<rparr> w))"

text \<open>A request that runs alone is the handler.\<close>

lemma alone_like:
  assumes "Like_handler clk nextID C v1 v2 s u i t w = (Inr r, w')"
  shows "(like_step clk nextID C v1 v2 s)\<^sup>*\<^sup>* ({#TLike u i t#}, w) ({#}, w')"
proof -
  let ?R = "like_step clk nextID C v1 v2 s"
  obtain b y w1 where tx: "LikeRepo_Transact (is_LikeRepo s) (like_tx clk nextID u i t) w = ((b, y), w1)"
    by (metis prod.collapse)
  with assms obtain x where y: "y = Inr x" by (cases y) (auto simp: Like_handler_def)
  from like_done [OF tx [unfolded y], of C v1 v2 "{#}"]
  have 1: "?R ({#TLike u i t#}, w) (if b then {#} else {#TIncr u i t#}, w1)" .
  show ?thesis
  proof (cases b)
    case True
    with assms tx y 1 show ?thesis by (auto simp: Like_handler_def)
  next
    case False
    let ?w2 = "snd (IncrLikeCount (is_LikeCache s) t i w1)"
    let ?w3 = "snd (AddLikeRelation v1 v2 (is_LikeCache s) t i u ?w2)"
    from 1 False have "?R\<^sup>*\<^sup>* ({#TLike u i t#}, w) ({#TIncr u i t#}, w1)" by auto
    then have "?R\<^sup>*\<^sup>* ({#TLike u i t#}, w) ({#TAdd u i t#}, ?w2)"
      by (rule rtranclp.rtrancl_into_rtrancl) (rule like_step.incr)
    then have "?R\<^sup>*\<^sup>* ({#TLike u i t#}, w) ({#TSend ActionLike u i t#}, ?w3)"
      by (rule rtranclp.rtrancl_into_rtrancl) (rule like_step.add)
    then have "?R\<^sup>*\<^sup>* ({#TLike u i t#}, w) ({#}, snd (SendMessage clk C (is_KafkaProducer s) \<lparr>lm_Id = [],
        lm_TargetType = t, lm_TargetId = i, lm_UserId = u, lm_Action = ActionLike,
        lm_Timestamp = clk ?w3 div 1000000000\<rparr> ?w3))"
      by (rule rtranclp.rtrancl_into_rtrancl) (rule like_step.send)
    moreover have "w' = snd (SendMessage clk C (is_KafkaProducer s) \<lparr>lm_Id = [],
        lm_TargetType = t, lm_TargetId = i, lm_UserId = u, lm_Action = ActionLike,
        lm_Timestamp = clk ?w3 div 1000000000\<rparr> ?w3)"
      using assms tx y False by (simp add: Like_handler_def Let_def)
    ultimately show ?thesis by simp
  qed
qed

section \<open>Counters and rows\<close>

definition likers :: "likes \<Rightarrow> int \<Rightarrow> int set" where
  "likers tb i = {u. liked tb i u}"

definition zero_one :: "likes \<Rightarrow> bool" where
  "zero_one tb \<longleftrightarrow> (\<forall>k l. tb k = Some l \<longrightarrow> like_Status l = 0 \<or> like_Status l = 1)"

lemma likers_upd:
  "likers (tb((i, u) \<mapsto> l)) i' = (if i' = i then (if like_Status l = 1 then insert u (likers tb i) else likers tb i - {u})
     else likers tb i')"
  by (auto simp: likers_def liked_def)

lemma not_liked: "zero_one tb \<Longrightarrow> \<not> liked tb i u \<longleftrightarrow> unliked tb i u"
  by (auto simp: zero_one_def liked_def unliked_def split: option.splits)

lemma like_tx_outcome:
  assumes "like_services nextID s st tb se" "rows_ok (tb w)"
    and "LikeRepo_Transact (is_LikeRepo s) (like_tx clk nextID u i t) w = ((b, y), w')"
  shows "case y of
      Inl _ \<Rightarrow> tb w' = tb w \<and> st w' = st w
    | Inr _ \<Rightarrow> if b then liked (tb w) i u \<and> w' = w
        else \<not> liked (tb w) i u \<and> st w' = st w \<and>
          (\<exists>l. like_Status l = 1 \<and> like_TargetId l = i \<and> like_UserId l = u \<and> tb w' = (tb w)((i, u) \<mapsto> l))"
proof -
  note D = like_servicesD(3,4) [OF assms(1), of "like_tx clk nextID u i t" w]
  obtain b1 y1 w1 where tx: "like_tx clk nextID u i t se w = ((b1, y1), w1)" by (metis prod.collapse)
  show ?thesis
  proof (cases y1)
    case (Inl e)
    with tx D(2) assms(3) show ?thesis by (auto simp: LikeRepo_Transact_def)
  next
    case (Inr x)
    with tx D(1) assms(3) have y: "y = Inr ()" "b = b1" "w' = w1" by (auto simp: LikeRepo_Transact_def)
    show ?thesis
    proof (cases "liked (tb w) i u")
      case True
      from like_tx_runs(1) [OF assms(1) True, of clk t] tx y True show ?thesis by simp
    next
      case False
      from like_tx_runs(2) [OF assms(1,2) False, of clk t b1 x w1] tx Inr y False show ?thesis by simp
    qed
  qed
qed

lemma unlike_tx_outcome:
  assumes "like_services nextID s st tb se" "rows_ok (tb w)" "zero_one (tb w)"
    and "LikeRepo_Transact (is_LikeRepo s) (unlike_tx clk u i) w = ((b, y), w')"
  shows "case y of
      Inl _ \<Rightarrow> tb w' = tb w \<and> st w' = st w
    | Inr _ \<Rightarrow> if b then \<not> liked (tb w) i u \<and> w' = w
        else liked (tb w) i u \<and> st w' = st w \<and> (\<exists>l. like_Status l = 0 \<and> tb w' = (tb w)((i, u) \<mapsto> l) \<and>
          like_TargetId l = i \<and> like_UserId l = u)"
proof -
  note D = like_servicesD(3,4) [OF assms(1), of "unlike_tx clk u i" w]
  obtain b1 y1 w1 where tx: "unlike_tx clk u i se w = ((b1, y1), w1)" by (metis prod.collapse)
  show ?thesis
  proof (cases y1)
    case (Inl e)
    with tx D(2) assms(4) show ?thesis by (auto simp: LikeRepo_Transact_def)
  next
    case (Inr x)
    with tx D(1) assms(4) have y: "y = Inr ()" "b = b1" "w' = w1" by (auto simp: LikeRepo_Transact_def)
    show ?thesis
    proof (cases "liked (tb w) i u")
      case True
      from unlike_tx_runs(2) [OF assms(1,2) True tx] y True show ?thesis by auto
    next
      case False
      with not_liked [OF assms(3)] have "unliked (tb w) i u" by blast
      from unlike_tx_runs(1) [OF assms(1) this, of clk] tx y False show ?thesis by simp
    qed
  qed
qed

section \<open>The counter never falls behind\<close>

text \<open>
  For a target \<open>i\<close> liked as type \<open>t\<close> only: calls that will still raise or lower its counter, and
  requests that may become such calls.
\<close>

definition pend :: "(like_task \<Rightarrow> bool) \<Rightarrow> like_task multiset \<Rightarrow> int" where
  "pend P T = int (size (filter_mset P T))"

lemma pend_add [simp]: "pend P (add_mset x T) = (if P x then 1 else 0) + pend P T"
  by (simp add: pend_def)

lemma pend_empty [simp]: "pend P {#} = 0"
  by (simp add: pend_def)

lemma pend_nonneg: "0 \<le> pend P T"
  by (simp add: pend_def)

fun is_like :: "int \<Rightarrow> like_task \<Rightarrow> bool" where
  "is_like i (TLike u i' t) \<longleftrightarrow> i' = i" | "is_like i _ \<longleftrightarrow> False"

fun is_incr :: "int \<Rightarrow> like_task \<Rightarrow> bool" where
  "is_incr i (TIncr u i' t) \<longleftrightarrow> i' = i" | "is_incr i _ \<longleftrightarrow> False"

fun is_decr :: "int \<Rightarrow> like_task \<Rightarrow> bool" where
  "is_decr i (TDecr u i' t) \<longleftrightarrow> i' = i" | "is_decr i _ \<longleftrightarrow> False"

fun typed :: "int \<Rightarrow> int \<Rightarrow> like_task \<Rightarrow> bool" where
  "typed t i (TLike u i' t') \<longleftrightarrow> i' = i \<longrightarrow> t' = t"
| "typed t i (TUnlike u i' t') \<longleftrightarrow> i' = i \<longrightarrow> t' = t"
| "typed t i (TIncr u i' t') \<longleftrightarrow> i' = i \<longrightarrow> t' = t"
| "typed t i (TDecr u i' t') \<longleftrightarrow> i' = i \<longrightarrow> t' = t"
| "typed t i _ \<longleftrightarrow> True"

definition race_inv :: "('w \<Rightarrow> store) \<Rightarrow> ('w \<Rightarrow> likes) \<Rightarrow> int \<Rightarrow> int \<Rightarrow> 'w like_state \<Rightarrow> bool" where
  "race_inv st tb t i S \<longleftrightarrow> (case S of (T, w) \<Rightarrow>
     rows_ok (tb w) \<and> zero_one (tb w) \<and> finite (likers (tb w) i) \<and> (\<forall>x \<in># T. typed t i x) \<and>
     (\<exists>m. represents (st w) m \<and>
        int (card (likers (tb w) i)) \<le> count_of m (t, i) + pend (is_incr i) T - pend (is_decr i) T \<and>
        count_of m (t, i) + pend (is_incr i) T + pend (is_like i) T < 2 ^ 63))"

lemma race_invI:
  assumes "rows_ok (tb w)" "zero_one (tb w)" "finite (likers (tb w) i)" "\<forall>x \<in># T. typed t i x" "represents (st w) m"
    and "int (card (likers (tb w) i)) \<le> count_of m (t, i) + pend (is_incr i) T - pend (is_decr i) T"
    and "count_of m (t, i) + pend (is_incr i) T + pend (is_like i) T < 2 ^ 63"
  shows "race_inv st tb t i (T, w)"
  using assms by (auto simp: race_inv_def)

lemma race_invE:
  assumes "race_inv st tb t i (T, w)"
  obtains m where "rows_ok (tb w)" "zero_one (tb w)" "finite (likers (tb w) i)" "\<forall>x \<in># T. typed t i x" "represents (st w) m"
    "int (card (likers (tb w) i)) \<le> count_of m (t, i) + pend (is_incr i) T - pend (is_decr i) T"
    "count_of m (t, i) + pend (is_incr i) T + pend (is_like i) T < 2 ^ 63"
  using assms by (auto simp: race_inv_def)

lemma count_of_upd: "count_of (m(k \<mapsto> v)) k' = (if k' = k then v else count_of m k')"
  by (simp add: count_of_def)

lemma incr_inv:
  assumes "like_services nextID s st tb se" "race_inv st tb t i (add_mset (TIncr u i' t') T, w)"
  shows "race_inv st tb t i (add_mset (TAdd u i' t') T, snd (IncrLikeCount (is_LikeCache s) t' i' w))"
proof -
  from assms(2) obtain m where inv: "rows_ok (tb w)" "zero_one (tb w)" "finite (likers (tb w) i)"
    "\<forall>x \<in># T. typed t i x" "i' = i \<longrightarrow> t' = t" "represents (st w) m"
    "int (card (likers (tb w) i)) \<le> count_of m (t, i) + ((if i' = i then 1 else 0) + pend (is_incr i) T) - pend (is_decr i) T"
    "count_of m (t, i) + ((if i' = i then 1 else 0) + pend (is_incr i) T) + pend (is_like i) T < 2 ^ 63"
    by (auto elim!: race_invE)
  let ?w = "snd (IncrLikeCount (is_LikeCache s) t' i' w)"
  have "represents (st ?w) (spec_step (LkIncr t' i') m)"
    by (rule Incr_refines [OF like_servicesD(1) [OF assms(1)] inv(6)])
  moreover have "count_of (spec_step (LkIncr t' i') m) (t, i) = count_of m (t, i) + (if i' = i then 1 else 0)"
    using inv(5,8) representsD(2) [OF inv(6), of t i] pend_nonneg [of "is_incr i" T] pend_nonneg [of "is_like i" T]
    by (auto simp: count_of_upd is_int64_def)
  moreover have "tb ?w = tb w" by (rule cache_calls_keep_table(1) [OF assms(1)])
  ultimately show ?thesis
    using inv by (intro race_invI [where m = "spec_step (LkIncr t' i') m"]) (simp_all del: spec_step.simps)
qed

lemma decr_inv:
  assumes "like_services nextID s st tb se" "race_inv st tb t i (add_mset (TDecr u i' t') T, w)"
  shows "race_inv st tb t i (add_mset (TRemove u i' t') T, snd (DecrLikeCount (is_LikeCache s) t' i' w))"
proof -
  from assms(2) obtain m where inv: "rows_ok (tb w)" "zero_one (tb w)" "finite (likers (tb w) i)"
    "\<forall>x \<in># T. typed t i x" "i' = i \<longrightarrow> t' = t" "represents (st w) m"
    "int (card (likers (tb w) i)) \<le> count_of m (t, i) + pend (is_incr i) T - ((if i' = i then 1 else 0) + pend (is_decr i) T)"
    "count_of m (t, i) + pend (is_incr i) T + pend (is_like i) T < 2 ^ 63"
    by (auto elim!: race_invE)
  let ?w = "snd (DecrLikeCount (is_LikeCache s) t' i' w)"
  have "represents (st ?w) (spec_step (LkDecr t' i') m)"
    by (rule Decr_refines [OF like_servicesD(1) [OF assms(1)] inv(6)])
  moreover have "count_of (spec_step (LkDecr t' i') m) (t, i) \<ge> count_of m (t, i) - (if i' = i then 1 else 0)"
    "count_of (spec_step (LkDecr t' i') m) (t, i) \<le> count_of m (t, i)"
    using inv(5) representsD(2) [OF inv(6), of t i] by (cases "i' = i"; simp add: count_of_upd)+
  moreover have "tb ?w = tb w" by (rule cache_calls_keep_table(2) [OF assms(1)])
  ultimately show ?thesis
    using inv by (intro race_invI [where m = "spec_step (LkDecr t' i') m"]) (simp_all del: spec_step.simps)
qed

lemma like_inv:
  assumes "like_services nextID s st tb se" "race_inv st tb t i (add_mset (TLike u i' t') T, w)"
    and "LikeRepo_Transact (is_LikeRepo s) (like_tx clk nextID u i' t') w = ((b, y), w')"
  shows "race_inv st tb t i (case y of Inl _ \<Rightarrow> T | Inr _ \<Rightarrow> if b then T else add_mset (TIncr u i' t') T, w')"
proof -
  from assms(2) obtain m where inv: "rows_ok (tb w)" "zero_one (tb w)" "finite (likers (tb w) i)"
    "\<forall>x \<in># T. typed t i x" "i' = i \<longrightarrow> t' = t" "represents (st w) m"
    "int (card (likers (tb w) i)) \<le> count_of m (t, i) + pend (is_incr i) T - pend (is_decr i) T"
    "count_of m (t, i) + pend (is_incr i) T + ((if i' = i then 1 else 0) + pend (is_like i) T) < 2 ^ 63"
    by (auto elim!: race_invE)
  note O = like_tx_outcome [OF assms(1) inv(1) assms(3)]
  show ?thesis
  proof (cases "(\<exists>e. y = Inl e) \<or> b")
    case True
    with O have "tb w' = tb w" "st w' = st w" by (auto split: sum.splits)
    moreover have "count_of m (t, i) + pend (is_incr i) T + pend (is_like i) T < 2 ^ 63"
      using inv(8) by (simp split: if_splits)
    ultimately show ?thesis using True inv(1-7) by (auto split: sum.splits intro!: race_invI [where m = m])
  next
    case False
    then obtain x where x: "y = Inr x" "\<not> b" by (cases y) auto
    with O obtain l where l: "\<not> liked (tb w) i' u" "st w' = st w" "like_Status l = 1" "like_TargetId l = i'"
      "like_UserId l = u" "tb w' = (tb w)((i', u) \<mapsto> l)" by auto
    have "rows_ok (tb w')" "zero_one (tb w')" using inv(1,2) l by (auto simp: rows_ok_def zero_one_def)
    moreover have "finite (likers (tb w') i)" using inv(3) l by (auto simp: likers_upd)
    moreover have "int (card (likers (tb w') i)) = int (card (likers (tb w) i)) + (if i' = i then 1 else 0)"
      using inv(3) l by (auto simp: likers_upd) (simp add: likers_def)
    ultimately show ?thesis
      using inv(4-8) x l(2) by (auto intro!: race_invI [where m = m])
  qed
qed

lemma unlike_inv:
  assumes "like_services nextID s st tb se" "race_inv st tb t i (add_mset (TUnlike u i' t') T, w)"
    and "LikeRepo_Transact (is_LikeRepo s) (unlike_tx clk u i') w = ((b, y), w')"
  shows "race_inv st tb t i (case y of Inl _ \<Rightarrow> T | Inr _ \<Rightarrow> if b then T else add_mset (TDecr u i' t') T, w')"
proof -
  from assms(2) obtain m where inv: "rows_ok (tb w)" "zero_one (tb w)" "finite (likers (tb w) i)"
    "\<forall>x \<in># T. typed t i x" "i' = i \<longrightarrow> t' = t" "represents (st w) m"
    "int (card (likers (tb w) i)) \<le> count_of m (t, i) + pend (is_incr i) T - pend (is_decr i) T"
    "count_of m (t, i) + pend (is_incr i) T + pend (is_like i) T < 2 ^ 63"
    by (auto elim!: race_invE)
  note O = unlike_tx_outcome [OF assms(1) inv(1,2) assms(3)]
  show ?thesis
  proof (cases "(\<exists>e. y = Inl e) \<or> b")
    case True
    with O have "tb w' = tb w" "st w' = st w" by (auto split: sum.splits)
    with True inv show ?thesis by (auto split: sum.splits intro!: race_invI [where m = m])
  next
    case False
    then obtain x where x: "y = Inr x" "\<not> b" by (cases y) auto
    with O obtain l where l: "liked (tb w) i' u" "st w' = st w" "like_Status l = 0" "like_TargetId l = i'"
      "like_UserId l = u" "tb w' = (tb w)((i', u) \<mapsto> l)" by auto
    have "rows_ok (tb w')" "zero_one (tb w')" using inv(1,2) l by (auto simp: rows_ok_def zero_one_def)
    moreover have "finite (likers (tb w') i)" using inv(3) l by (auto simp: likers_upd)
    moreover have "int (card (likers (tb w') i)) + (if i' = i then 1 else 0) = int (card (likers (tb w) i))"
    proof (cases "i' = i")
      case True
      with l(1) have "u \<in> likers (tb w) i" by (simp add: likers_def)
      with inv(3) card_Suc_Diff1 [of "likers (tb w) i" u] l True show ?thesis by (simp add: likers_upd)
    qed (simp add: l likers_upd)
    ultimately show ?thesis
      using inv(4-8) x l(2) by (auto intro!: race_invI [where m = m])
  qed
qed

lemma quiet_inv:
  assumes "race_inv st tb t i (add_mset x T, w)" "tb w' = tb w" "\<And>m. represents (st w) m \<Longrightarrow> represents (st w') m"
    and "\<not> is_incr i x" "\<not> is_decr i x" "\<And>y. y \<in># T' \<Longrightarrow> y \<in># T \<or> typed t i y"
    and "pend (is_incr i) T' = pend (is_incr i) T" "pend (is_decr i) T' = pend (is_decr i) T"
    and "pend (is_like i) T' = pend (is_like i) T"
  shows "race_inv st tb t i (T', w')"
proof -
  from assms(1) obtain m where m: "rows_ok (tb w)" "zero_one (tb w)" "finite (likers (tb w) i)"
    "\<forall>y \<in># add_mset x T. typed t i y" "represents (st w) m"
    "int (card (likers (tb w) i)) \<le> count_of m (t, i) + pend (is_incr i) (add_mset x T) - pend (is_decr i) (add_mset x T)"
    "count_of m (t, i) + pend (is_incr i) (add_mset x T) + pend (is_like i) (add_mset x T) < 2 ^ 63"
    by (rule race_invE)
  have "pend (is_like i) T \<le> pend (is_like i) (add_mset x T)" by simp
  with m assms(2-9) show ?thesis
    by (intro race_invI [where m = m]) auto
qed

lemma step_inv:
  assumes "like_services nextID s st tb se" "like_step clk nextID C v1 v2 s S S'" "race_inv st tb t i S"
  shows "race_inv st tb t i S'"
  using assms(2,3)
proof cases
  case (like_failed u i' t' w b e w' T)
  with like_inv [OF assms(1) _ like_failed(3)] assms(3) show ?thesis by simp
next
  case (like_done u i' t' w b x w' T)
  with like_inv [OF assms(1) _ like_done(3)] assms(3) show ?thesis by simp
next
  case (unlike_failed u i' w b e w' t' T)
  with unlike_inv [OF assms(1) _ unlike_failed(3)] assms(3) show ?thesis by simp
next
  case (unlike_done u i' w b x w' t' T)
  with unlike_inv [OF assms(1) _ unlike_done(3)] assms(3) show ?thesis by simp
next
  case (incr u i' t' T w)
  with incr_inv [OF assms(1)] assms(3) show ?thesis by simp
next
  case (decr u i' t' T w)
  with decr_inv [OF assms(1)] assms(3) show ?thesis by simp
next
  case (add u i' t' T w)
  have "represents (st w) m \<Longrightarrow> represents (st (snd (AddLikeRelation v1 v2 (is_LikeCache s) t' i' u w))) m" for m
    using step_refines [OF like_servicesD(1) [OF assms(1)], of w m "LkAdd v1 v2 t' i' u"] by simp
  with assms(3) add cache_calls_keep_table(3) [OF assms(1)] show ?thesis
    by (auto elim!: quiet_inv)
next
  case (remove u i' t' T w)
  have "represents (st w) m \<Longrightarrow> represents (st (snd (RemoveLikeRelation (is_LikeCache s) t' i' u w))) m" for m
    using step_refines [OF like_servicesD(1) [OF assms(1)], of w m "LkRemove t' i' u"] by simp
  with assms(3) remove cache_calls_keep_table(4) [OF assms(1)] show ?thesis
    by (auto elim!: quiet_inv)
next
  case (send act u i' t' T w)
  with assms(3) SendMessage_keeps [OF assms(1)] show ?thesis
    by (auto elim!: quiet_inv)
qed

fun is_request :: "like_task \<Rightarrow> bool" where
  "is_request (TLike u i t) \<longleftrightarrow> True" | "is_request (TUnlike u i t) \<longleftrightarrow> True" | "is_request _ \<longleftrightarrow> False"

lemma requests_pend: "\<forall>x \<in># T. is_request x \<Longrightarrow> pend (is_incr i) T = 0 \<and> pend (is_decr i) T = 0 \<and> pend (is_like i) T \<le> int (size T)"
proof (induction T)
  case (add x T)
  then show ?case by (cases x) auto
qed simp


section \<open>The counter can run ahead\<close>

text \<open>
  The schedule: user 3 likes post 7 and unlikes it; the decrement of the counter overtakes the
  increment and is clamped at zero.
\<close>

abbreviation (input) race0 :: ix_world where "race0 \<equiv> (Map.empty, Map.empty, 5)"

definition race1 :: ix_world where
  "race1 = snd (LikeRepo_Transact (is_LikeRepo ix_svc) (like_tx (\<lambda>w. 0) ix_nextID 3 7 1) race0)"

definition race2 :: ix_world where
  "race2 = snd (LikeRepo_Transact (is_LikeRepo ix_svc) (unlike_tx (\<lambda>w. 0) 3 7) race1)"

definition race3 :: ix_world where
  "race3 = snd (DecrLikeCount (is_LikeCache ix_svc) 1 7 race2)"

definition race4 :: ix_world where
  "race4 = snd (IncrLikeCount (is_LikeCache ix_svc) 1 7 race3)"

definition race_end :: ix_world where
  "race_end = (let w5 = snd (RemoveLikeRelation (is_LikeCache ix_svc) 1 7 3 race4);
     w6 = snd (SendMessage (\<lambda>w. 0) ix_codec (is_KafkaProducer ix_svc) \<lparr>lm_Id = [], lm_TargetType = 1,
       lm_TargetId = 7, lm_UserId = 3, lm_Action = ActionUnlike, lm_Timestamp = 0\<rparr> w5);
     w7 = snd (AddLikeRelation [] [] (is_LikeCache ix_svc) 1 7 3 w6)
   in snd (SendMessage (\<lambda>w. 0) ix_codec (is_KafkaProducer ix_svc) \<lparr>lm_Id = [], lm_TargetType = 1,
       lm_TargetId = 7, lm_UserId = 3, lm_Action = ActionLike, lm_Timestamp = 0\<rparr> w7))"

abbreviation "ix_step \<equiv> like_step (\<lambda>w. 0) ix_nextID ix_codec [] [] ix_svc"

lemma race_tx:
  "LikeRepo_Transact (is_LikeRepo ix_svc) (like_tx (\<lambda>w. 0) ix_nextID 3 7 1) race0 = ((False, Inr ()), race1)"
  "LikeRepo_Transact (is_LikeRepo ix_svc) (unlike_tx (\<lambda>w. 0) 3 7) race1 = ((False, Inr ()), race2)"
proof -
  have "fst (LikeRepo_Transact (is_LikeRepo ix_svc) (like_tx (\<lambda>w. 0) ix_nextID 3 7 1) race0) = (False, Inr ())" by code_simp
  then show "LikeRepo_Transact (is_LikeRepo ix_svc) (like_tx (\<lambda>w. 0) ix_nextID 3 7 1) race0 = ((False, Inr ()), race1)"
    by (metis prod.collapse race1_def)
  have "fst (LikeRepo_Transact (is_LikeRepo ix_svc) (unlike_tx (\<lambda>w. 0) 3 7) race1) = (False, Inr ())" by code_simp
  then show "LikeRepo_Transact (is_LikeRepo ix_svc) (unlike_tx (\<lambda>w. 0) 3 7) race1 = ((False, Inr ()), race2)"
    by (metis prod.collapse race2_def)
qed

lemma race_runs: "ix_step\<^sup>*\<^sup>* ({#TLike 3 7 1, TUnlike 3 7 1#}, race0) ({#}, race_end)"
proof -
  let ?w5 = "snd (RemoveLikeRelation (is_LikeCache ix_svc) 1 7 3 race4)"
  have s1: "ix_step ({#TLike 3 7 1, TUnlike 3 7 1#}, race0) ({#TUnlike 3 7 1, TIncr 3 7 1#}, race1)"
    using like_done [OF race_tx(1), of ix_codec "[]" "[]" "{#TUnlike 3 7 1#}"] by (simp add: add_mset_commute)
  have s2: "ix_step ({#TUnlike 3 7 1, TIncr 3 7 1#}, race1) ({#TDecr 3 7 1, TIncr 3 7 1#}, race2)"
    using unlike_done [OF race_tx(2), of ix_nextID ix_codec "[]" "[]" 1 "{#TIncr 3 7 1#}"] by simp
  have s3: "ix_step ({#TDecr 3 7 1, TIncr 3 7 1#}, race2) ({#TIncr 3 7 1, TRemove 3 7 1#}, race3)"
    unfolding race3_def by (subst add_mset_commute [of "TIncr 3 7 1" "TRemove 3 7 1"]) (rule like_step.decr)
  have s4: "ix_step ({#TIncr 3 7 1, TRemove 3 7 1#}, race3) ({#TRemove 3 7 1, TAdd 3 7 1#}, race4)"
    unfolding race4_def by (subst add_mset_commute [of "TRemove 3 7 1" "TAdd 3 7 1"]) (rule like_step.incr)
  have s5: "ix_step ({#TRemove 3 7 1, TAdd 3 7 1#}, race4) ({#TSend ActionUnlike 3 7 1, TAdd 3 7 1#}, ?w5)"
    by (rule like_step.remove)
  have s6: "ix_step ({#TSend ActionUnlike 3 7 1, TAdd 3 7 1#}, ?w5) ({#TAdd 3 7 1#},
      snd (SendMessage (\<lambda>w. 0) ix_codec (is_KafkaProducer ix_svc) \<lparr>lm_Id = [], lm_TargetType = 1,
       lm_TargetId = 7, lm_UserId = 3, lm_Action = ActionUnlike, lm_Timestamp = 0\<rparr> ?w5))"
    using like_step.send [of "\<lambda>w. 0" ix_nextID ix_codec "[]" "[]" ix_svc ActionUnlike 3 7 1 "{#TAdd 3 7 1#}" ?w5] by simp
  let ?w6 = "snd (SendMessage (\<lambda>w. 0) ix_codec (is_KafkaProducer ix_svc) \<lparr>lm_Id = [], lm_TargetType = 1,
       lm_TargetId = 7, lm_UserId = 3, lm_Action = ActionUnlike, lm_Timestamp = 0\<rparr> ?w5)"
  have s7: "ix_step ({#TAdd 3 7 1#}, ?w6)
      ({#TSend ActionLike 3 7 1#}, snd (AddLikeRelation [] [] (is_LikeCache ix_svc) 1 7 3 ?w6))"
    by (rule like_step.add)
  have s8: "ix_step ({#TSend ActionLike 3 7 1#}, snd (AddLikeRelation [] [] (is_LikeCache ix_svc) 1 7 3 ?w6)) ({#}, race_end)"
    using like_step.send [of "\<lambda>w. 0" ix_nextID ix_codec "[]" "[]" ix_svc ActionLike 3 7 1 "{#}"
        "snd (AddLikeRelation [] [] (is_LikeCache ix_svc) 1 7 3 ?w6)"]
    by (simp add: race_end_def Let_def)
  note c = converse_rtranclp_into_rtranclp [where r = ix_step]
  show ?thesis
    by (rule c [OF s1], rule c [OF s2], rule c [OF s3], rule c [OF s4], rule c [OF s5], rule c [OF s6],
      rule c [OF s7], rule c [OF s8], rule rtranclp.rtrancl_refl)
qed

lemma race_rows: "likers (fst (snd race_end)) 7 = {}" "rows_ok (fst (snd race1))" "zero_one (fst (snd race1))"
proof -
  have 0: "rows_ok (fst (snd race0))" "zero_one (fst (snd race0))" by (simp_all add: rows_ok_def zero_one_def)
  from like_tx_outcome [OF ix_services 0(1) race_tx(1)] obtain l where
    1: "like_Status l = 1" "like_TargetId l = 7" "like_UserId l = 3" "fst (snd race1) = [(7, 3) \<mapsto> l]" by auto
  then show ok: "rows_ok (fst (snd race1))" "zero_one (fst (snd race1))"
    by (auto simp: rows_ok_def zero_one_def split: if_splits)
  from unlike_tx_outcome [OF ix_services ok race_tx(2)] 1 obtain l' where
    2: "like_Status l' = 0" "like_TargetId l' = 7" "like_UserId l' = 3" "fst (snd race2) = [(7, 3) \<mapsto> l']" by auto
  note K = cache_calls_keep_table [OF ix_services] SendMessage_keeps(1) [OF ix_services]
  have "fst (snd race_end) = fst (snd race2)"
    by (simp add: race_end_def race4_def race3_def Let_def K)
  with 2 show "likers (fst (snd race_end)) 7 = {}"
    by (auto simp: likers_def liked_def)
qed

lemma race_count: "represents (fst race_end) [(1, 7) \<mapsto> 1]"
proof -
  note I = like_servicesD(1) [OF ix_services]
  have 0: "rows_ok (fst (snd race0))" by (simp add: rows_ok_def)
  have "represents (fst race0) Map.empty" by (simp add: represents_def)
  then have 1: "represents (fst race1) Map.empty"
    using like_tx_outcome [OF ix_services 0 race_tx(1)] by simp
  have "represents (fst race2) Map.empty"
    using unlike_tx_outcome [OF ix_services race_rows(2,3) race_tx(2)] 1 by simp
  from Decr_refines [where st = fst, OF I this, of 1 7] have "represents (fst race3) [(1, 7) \<mapsto> 0]"
    by (simp add: race3_def count_of_def)
  from Incr_refines [where st = fst, OF I this, of 1 7] have "represents (fst race4) [(1, 7) \<mapsto> 1]"
    by (simp add: race4_def count_of_def is_int64_def)
  from step_refines [where st = fst, OF I this, of "LkRemove 1 7 3"]
  have "represents (fst (snd (RemoveLikeRelation (is_LikeCache ix_svc) 1 7 3 race4))) [(1, 7) \<mapsto> 1]" by simp
  then show ?thesis
    using step_refines [where st = fst, OF I, of _ "[(1, 7) \<mapsto> 1]" "LkAdd [] [] 1 7 3"]
    by (simp add: race_end_def Let_def SendMessage_keeps(2) [OF ix_services])
qed



end
