(* ===== verification/LikeService.thy ===== *)
theory LikeService
  imports LikeRaces
begin

text \<open>
  What the interaction server promises to clients that call it one after the other: a set of likes,
  with the number of likes of every target. The server with its table and its Redis counters is
  related to that set by \<open>like_rel\<close>, and every call keeps the relation.
\<close>

section \<open>The abstract service\<close>

text \<open>
  A like is a target and a user. The reply decides whether a call happened: a call that was answered
  with an error did not.
\<close>

type_synonym like_set = "(int \<times> int) set"

fun spec_serve :: "interaction_rpc \<Rightarrow> interaction_reply \<Rightarrow> like_set \<Rightarrow> like_set" where
  "spec_serve (RpcLike u i t) (RepFlag (Inr b)) A = insert (i, u) A"
| "spec_serve (RpcUnlike u i t) (RepFlag (Inr b)) A = A - {(i, u)}"
| "spec_serve _ _ A = A"

fun spec_run :: "interaction_rpc list \<Rightarrow> interaction_reply list \<Rightarrow> like_set \<Rightarrow> like_set" where
  "spec_run (x # xs) (r # rs) A = spec_run xs rs (spec_serve x r A)"
| "spec_run _ _ A = A"

definition likers_in :: "like_set \<Rightarrow> int \<Rightarrow> int set" where
  "likers_in A i = {u. (i, u) \<in> A}"

text \<open>
  The answers a client may get: a Like can fail only when the id source (\<open>ids\<close> says that it never
  does) fails, an Unlike and a status request are always answered.
\<close>

fun good_reply :: "bool \<Rightarrow> interaction_rpc \<Rightarrow> interaction_reply \<Rightarrow> bool" where
  "good_reply ids (RpcLike u i t) (RepFlag r) \<longleftrightarrow> r \<noteq> Inr False \<and> (ids \<longrightarrow> r = Inr True)"
| "good_reply ids (RpcUnlike u i t) r \<longleftrightarrow> r = RepFlag (Inr True)"
| "good_reply ids (RpcGetLikeStatus u is t) r \<longleftrightarrow> (\<exists>xs. r = RepStatuses (Inr xs) \<and> map fst xs = is)"
| "good_reply ids (RpcLike u i t) _ \<longleftrightarrow> False"
| "good_reply ids _ _ \<longleftrightarrow> True"

definition ids_ok :: "('w \<Rightarrow> int res \<times> 'w) \<Rightarrow> bool" where
  "ids_ok nextID \<longleftrightarrow> (\<forall>w. \<exists>j w'. nextID w = (Inr j, w'))"

section \<open>The concrete service\<close>

text \<open>Calls one after the other.\<close>

fun serve_all ::
  "('w \<Rightarrow> int) \<Rightarrow> ('w \<Rightarrow> int res \<times> 'w) \<Rightarrow> like_codec \<Rightarrow> string \<Rightarrow> string \<Rightarrow> 'w InteractionSvc \<Rightarrow>
   interaction_rpc list \<Rightarrow> 'w \<Rightarrow> interaction_reply list \<times> 'w" where
  "serve_all clk nextID C v1 v2 s [] w = ([], w)"
| "serve_all clk nextID C v1 v2 s (x # xs) w =
     (case InteractionServer clk nextID C v1 v2 x s w of
        (r, w1) \<Rightarrow> (case serve_all clk nextID C v1 v2 s xs w1 of (rs, w2) \<Rightarrow> (r # rs, w2)))"

text \<open>Every target id is used as one type, \<open>ty\<close>: the rows do not tell a post from a comment with its id.\<close>

fun of_type :: "(int \<Rightarrow> int) \<Rightarrow> interaction_rpc \<Rightarrow> bool" where
  "of_type ty (RpcLike u i t) \<longleftrightarrow> t = ty i"
| "of_type ty (RpcUnlike u i t) \<longleftrightarrow> t = ty i"
| "of_type ty _ \<longleftrightarrow> True"

definition like_rel :: "(int \<Rightarrow> int) \<Rightarrow> ('w \<Rightarrow> store) \<Rightarrow> ('w \<Rightarrow> likes) \<Rightarrow> 'w \<Rightarrow> like_set \<Rightarrow> bool" where
  "like_rel ty st tb w A \<longleftrightarrow>
     rows_ok (tb w) \<and> zero_one (tb w) \<and> finite A \<and> (\<forall>i u. liked (tb w) i u \<longleftrightarrow> (i, u) \<in> A) \<and>
     (\<exists>m. represents (st w) m \<and> (\<forall>i. count_of m (ty i, i) = int (card (likers_in A i))))"

lemma like_relI:
  assumes "rows_ok (tb w)" "zero_one (tb w)" "finite A" "\<And>i u. liked (tb w) i u \<longleftrightarrow> (i, u) \<in> A"
    and "represents (st w) m" "\<And>i. count_of m (ty i, i) = int (card (likers_in A i))"
  shows "like_rel ty st tb w A"
  using assms by (auto simp: like_rel_def)

lemma like_relE:
  assumes "like_rel ty st tb w A"
  obtains m where "rows_ok (tb w)" "zero_one (tb w)" "finite A" "\<And>i u. liked (tb w) i u \<longleftrightarrow> (i, u) \<in> A"
    "represents (st w) m" "\<And>i. count_of m (ty i, i) = int (card (likers_in A i))"
  using assms by (auto simp: like_rel_def)

lemma likers_in_simps [simp]:
  "likers_in (insert (i, u) A) j = (if j = i then insert u (likers_in A j) else likers_in A j)"
  "likers_in (A - {(i, u)}) j = (if j = i then likers_in A j - {u} else likers_in A j)"
  "u \<in> likers_in A j \<longleftrightarrow> (j, u) \<in> A"
  by (auto simp: likers_in_def)

lemma likers_in_finite:
  assumes "finite A"
  shows "finite (likers_in A i)" "card (likers_in A i) \<le> card A"
proof -
  have i: "likers_in A i = snd ` (A \<inter> {i} \<times> UNIV)" by (force simp: likers_in_def)
  with assms show "finite (likers_in A i)" by simp
  have "card (likers_in A i) \<le> card (A \<inter> {i} \<times> UNIV)" unfolding i by (rule card_image_le) (use assms in simp)
  also have "\<dots> \<le> card A" by (rule card_mono [OF assms]) auto
  finally show "card (likers_in A i) \<le> card A" .
qed

lemma liked_upd:
  "liked (tb((i, u) \<mapsto> l)) j v \<longleftrightarrow> (if (j, v) = (i, u) then like_Status l = 1 else liked tb j v)"
  by (auto simp: liked_def)

text \<open>The relation after a row and its counter were written.\<close>

lemma like_rel_write:
  assumes "rows_ok (tb w)" "zero_one (tb w)" "finite A" "\<And>i u. liked (tb w) i u \<longleftrightarrow> (i, u) \<in> A"
    and "tb w' = (tb w)((i, u) \<mapsto> l)" "like_TargetId l = i" "like_UserId l = u" "like_Status l = (if b then 1 else 0)"
    and "A' = (if b then insert (i, u) A else A - {(i, u)})"
    and "represents (st w') m" "\<And>j. count_of m (ty j, j) = int (card (likers_in A' j))"
  shows "like_rel ty st tb w' A'"
proof -
  have "rows_ok (tb w')" "zero_one (tb w')" "finite A'"
    using assms(1-3,5-9) by (auto simp: rows_ok_def zero_one_def)
  moreover have "liked (tb w') j v \<longleftrightarrow> (j, v) \<in> A'" for j v
    using assms(4,5,8,9) by (auto simp: liked_upd)
  ultimately show ?thesis using assms(10,11) by (intro like_relI [where m = m])
qed

section \<open>One call\<close>

lemma like_tx_succeeds:
  assumes S: "like_services nextID s st tb se" and ok: "rows_ok (tb w)" and ids: "ids_ok nextID"
  shows "snd (fst (like_tx clk nextID u i t se w)) = Inr ()"
proof (cases "tb w (i, u)")
  case None
  from ids obtain j w2 where id: "nextID w = (Inr j, w2)" unfolding ids_ok_def by blast
  let ?l = "\<lparr>like_Id = j, like_Type = i8 t, like_TargetId = i, like_UserId = u, like_Status = 1,
    like_Liketime = clk w, like_Unliketime = None\<rparr>"
  obtain y w3 where ins: "insert_like se ?l w2 = (y, w3)" by fastforce
  have "tb w2 (like_TargetId ?l, like_UserId ?l) = None" using like_servicesD(6) [OF S id] None by simp
  from row_write(2) [OF S this ins] None id ins show ?thesis
    by (simp add: like_tx_def LikeTx_FindByTargetAndUser_def find_row [OF S] LikeTx_Create_def Let_def)
next
  case (Some l0)
  with ok have k: "like_TargetId l0 = i" "like_UserId l0 = u" by (auto simp: rows_ok_def)
  let ?l = "l0\<lparr>like_Status := 1, like_Liketime := clk w, like_Unliketime := None\<rparr>"
  obtain y w3 where upd: "update_like se ?l w = (y, w3)" by fastforce
  have "tb w (like_TargetId ?l, like_UserId ?l) = Some l0" using k Some by simp
  from row_write(1) [OF S this upd] Some upd show ?thesis
    by (simp add: like_tx_def LikeTx_FindByTargetAndUser_def find_row [OF S] LikeTx_Update_def)
qed

lemma Like_answered:
  assumes S: "like_services nextID s st tb se" and ok: "rows_ok (tb w)" and ids: "ids_ok nextID"
    and h: "Like_handler clk nextID C v1 v2 s u i t w = (r, w')"
  shows "r = Inr True"
proof -
  obtain b y w1 where tx: "like_tx clk nextID u i t se w = ((b, y), w1)" by (metis prod.collapse)
  with like_tx_succeeds [OF S ok ids, of clk u i t] have "y = Inr ()" by simp
  with tx like_servicesD(3) [OF S, of "like_tx clk nextID u i t" w b "()" w1] h show ?thesis
    by (auto simp: Like_handler_def LikeRepo_Transact_def Let_def split: if_splits)
qed

lemma Like_rel:
  assumes S: "like_services nextID s st tb se" and R: "like_rel ty st tb w A" and n: "int (card A) + 1 < 2 ^ 63"
    and h: "Like_handler clk nextID C v1 v2 s u i (ty i) w = (r, w')"
  shows "r \<noteq> Inr False \<and> like_rel ty st tb w' (case r of Inl e \<Rightarrow> A | Inr b \<Rightarrow> insert (i, u) A)"
proof -
  from R obtain m where m: "rows_ok (tb w)" "zero_one (tb w)" "finite A" "\<And>i u. liked (tb w) i u \<longleftrightarrow> (i, u) \<in> A"
    "represents (st w) m" "\<And>i. count_of m (ty i, i) = int (card (likers_in A i))" by (rule like_relE) blast
  show ?thesis
  proof (cases r)
    case (Inl e)
    obtain b y w1 where tx: "LikeRepo_Transact (is_LikeRepo s) (like_tx clk nextID u i (ty i)) w = ((b, y), w1)"
      by (metis prod.collapse)
    with h Inl have "y = Inl e" "w' = w1" by (cases y; auto simp: Like_handler_def Let_def split: if_splits)+
    with like_tx_outcome [OF S m(1) tx] have "tb w' = tb w" "st w' = st w" by simp_all
    with m Inl show ?thesis by (auto intro!: like_relI [where m = m])
  next
    case (Inr b)
    show ?thesis
    proof (cases "liked (tb w) i u")
      case True
      with Like_runs(1) [OF S m(1) h [unfolded Inr]] have "b" "w' = w" by auto
      with True m R Inr show ?thesis by (simp add: insert_absorb)
    next
      case False
      from Like_runs(2) [OF S m(1) h [unfolded Inr] this] m(5) obtain l where
        l: "b" "like_Status l = 1" "like_TargetId l = i" "like_UserId l = u" "tb w' = (tb w)((i, u) \<mapsto> l)"
        and m': "represents (st w') (spec_step (LkIncr (ty i) i) m)" by auto
      have "is_int64 (count_of m (ty i, i) + 1)"
        using n likers_in_finite(2) [OF m(3), of i] by (simp add: m(6) is_int64_def)
      then have "count_of (spec_step (LkIncr (ty i) i) m) (ty j, j) = int (card (likers_in (insert (i, u) A) j))" for j
        using False m(4) likers_in_finite(1) [OF m(3)] by (simp add: count_of_upd m(6))
      then have "like_rel ty st tb w' (insert (i, u) A)"
        using l m' by (intro like_rel_write [OF m(1-4) l(5,3,4), where b = True]) (simp_all del: spec_step.simps likers_in_simps)
      with l(1) Inr show ?thesis by simp
    qed
  qed
qed

lemma Unlike_rel:
  assumes S: "like_services nextID s st tb se" and R: "like_rel ty st tb w A"
    and h: "Unlike_handler clk C s u i (ty i) w = (r, w')"
  shows "r = Inr True \<and> like_rel ty st tb w' (A - {(i, u)})"
proof -
  from R obtain m where m: "rows_ok (tb w)" "zero_one (tb w)" "finite A" "\<And>i u. liked (tb w) i u \<longleftrightarrow> (i, u) \<in> A"
    "represents (st w) m" "\<And>i. count_of m (ty i, i) = int (card (likers_in A i))" by (rule like_relE) blast
  show ?thesis
  proof (cases "liked (tb w) i u")
    case False
    with not_liked [OF m(2)] Unlike_runs(1) [OF S] h have "r = Inr True" "w' = w" by auto
    moreover have "A - {(i, u)} = A" using False m(4) by auto
    ultimately show ?thesis using R by simp
  next
    case True
    from Unlike_runs(2) [OF S m(1) True h] m(5) obtain l where
      l: "r = Inr True" "like_Status l = 0" "like_TargetId l = i" "like_UserId l = u" "tb w' = (tb w)((i, u) \<mapsto> l)"
      and m': "represents (st w') (spec_step (LkDecr (ty i) i) m)" by auto
    have c: "card (likers_in A i) = Suc (card (likers_in A i - {u}))"
      using True m(4) likers_in_finite(1) [OF m(3), of i] by (intro card.remove) simp_all
    then have "count_of (spec_step (LkDecr (ty i) i) m) (ty j, j) = int (card (likers_in (A - {(i, u)}) j))" for j
      by (simp add: count_of_upd m(6))
    then have "like_rel ty st tb w' (A - {(i, u)})"
      using l m' by (intro like_rel_write [OF m(1-4) l(5,3,4), where b = False]) (simp_all del: spec_step.simps likers_in_simps)
    with l(1) show ?thesis by simp
  qed
qed

text \<open>A status request asks Redis only, and answers for exactly the targets it was asked about.\<close>

lemma likeStatuses_keep:
  assumes "implements (lc_redis c) st" "\<forall>k m w. tb (snd (redisSismember (lc_redis c) k m w)) = tb w"
  shows "st (snd (likeStatuses c t u is f w)) = st w \<and> tb (snd (likeStatuses c t u is f w)) = tb w"
proof (induction "is" arbitrary: f w)
  case (Cons i "is")
  obtain r w1 where 1: "redisSismember (lc_redis c) (buildRelationKey t i) (show_int u) w = (r, w1)" by fastforce
  with implementsD(7) [OF assms(1) 1] assms(2) have "st w1 = st w" "tb w1 = tb w" by (metis snd_conv)+
  with Cons 1 show ?case by (cases r) simp_all
qed simp

lemma Status_rel:
  assumes S: "like_services nextID s st tb se"
    and K: "\<forall>k m w. tb (snd (redisSismember (lc_redis (is_LikeCache s)) k m w)) = tb w"
    and R: "like_rel ty st tb w A" and h: "GetLikeStatus_handler s u is t w = (r, w')"
  shows "(\<exists>xs. r = Inr xs \<and> map fst xs = is) \<and> like_rel ty st tb w' A"
proof -
  obtain f w1 where f: "likeStatuses (is_LikeCache s) t u is Map.empty w = (f, w1)" by fastforce
  with likeStatuses_keep [OF like_servicesD(1) [OF S] K, of t u "is" Map.empty w] have "st w1 = st w" "tb w1 = tb w"
    by simp_all
  with f h R show ?thesis
    by (auto simp: GetLikeStatus_handler_def BatchGetLikeStatus_def like_rel_def o_def)
qed

lemma serve_rel:
  assumes S: "like_services nextID s st tb se"
    and K: "\<forall>k m w. tb (snd (redisSismember (lc_redis (is_LikeCache s)) k m w)) = tb w"
    and R: "like_rel ty st tb w A" and n: "int (card A) + 1 < 2 ^ 63" and t: "of_type ty x"
    and h: "InteractionServer clk nextID C v1 v2 x s w = (r, w')"
  shows "good_reply (ids_ok nextID) x r \<and> like_rel ty st tb w' (spec_serve x r A)"
proof (cases x)
  case (RpcLike u i t')
  with h t obtain y where y: "Like_handler clk nextID C v1 v2 s u i (ty i) w = (y, w')" "r = RepFlag y"
    by (auto split: prod.splits)
  have "rows_ok (tb w)" using R by (simp add: like_rel_def)
  with Like_answered [OF S _ _ y(1)] Like_rel [OF S R n y(1)] show ?thesis
    by (cases y) (auto simp: RpcLike y(2))
next
  case (RpcUnlike u i t')
  with h t obtain y where y: "Unlike_handler clk C s u i (ty i) w = (y, w')" "r = RepFlag y"
    by (auto split: prod.splits)
  from Unlike_rel [OF S R y(1)] show ?thesis by (simp add: RpcUnlike y(2))
next
  case (RpcGetLikeStatus u "is" t')
  with h obtain y where y: "GetLikeStatus_handler s u is t' w = (y, w')" "r = RepStatuses y"
    by (auto split: prod.splits)
  from Status_rel [OF S K R y(1)] show ?thesis by (auto simp: RpcGetLikeStatus y(2))
qed (use h R in \<open>auto simp: Interaction_CreateComment_def Interaction_DeleteComment_def Interaction_GetComments_def\<close>)

section \<open>The server refines the set\<close>

lemma spec_serve_card:
  assumes "finite A"
  shows "finite (spec_serve x r A) \<and> card (spec_serve x r A) \<le> card A + 1"
proof (cases x)
  case (RpcLike u i t)
  with assms show ?thesis by (cases "(RpcLike u i t, r, A)" rule: spec_serve.cases) (auto simp: card_insert_if)
next
  case (RpcUnlike u i t)
  with assms show ?thesis
    by (cases "(RpcUnlike u i t, r, A)" rule: spec_serve.cases) (auto simp: card_Diff1_le le_SucI)
qed (use assms in auto)

lemma serve_all_rel:
  assumes S: "like_services nextID s st tb se"
    and K: "\<forall>k m w. tb (snd (redisSismember (lc_redis (is_LikeCache s)) k m w)) = tb w"
    and "like_rel ty st tb w A" "int (card A + length xs) < 2 ^ 63" "list_all (of_type ty) xs"
    and "serve_all clk nextID C v1 v2 s xs w = (rs, w')"
  shows "list_all2 (good_reply (ids_ok nextID)) xs rs \<and> like_rel ty st tb w' (spec_run xs rs A)"
  using assms(3-6)
proof (induction xs arbitrary: w A rs)
  case (Cons x xs)
  obtain r w1 where x: "InteractionServer clk nextID C v1 v2 x s w = (r, w1)" by fastforce
  with Cons.prems(4) obtain rs' where rs: "serve_all clk nextID C v1 v2 s xs w1 = (rs', w')" "rs = r # rs'"
    by (auto split: prod.splits)
  have fin: "finite A" using Cons.prems(1) by (simp add: like_rel_def)
  have step: "good_reply (ids_ok nextID) x r \<and> like_rel ty st tb w1 (spec_serve x r A)"
    using Cons.prems by (intro serve_rel [OF S K _ _ _ x]) simp_all
  with Cons.IH [of w1 "spec_serve x r A" rs'] Cons.prems(2,3) rs spec_serve_card [OF fin, of x r] show ?case by simp
qed simp


text \<open>Two users like post 7, one of them takes it back; comment 9 is liked once.\<close>

abbreviation (input) demo_calls :: "interaction_rpc list" where
  "demo_calls \<equiv> [RpcLike 3 7 1, RpcLike 4 7 1, RpcLike 3 9 2, RpcGetLikeStatus 3 [7, 9] 1, RpcUnlike 3 7 1]"

abbreviation (input) demo_type :: "int \<Rightarrow> int" where
  "demo_type \<equiv> \<lambda>i. if i = 9 then 2 else 1"

definition demo_serve :: "interaction_reply list \<times> ix_world" where
  "demo_serve = serve_all (\<lambda>w. 0) ix_nextID ix_codec [] [] ix_svc demo_calls (Map.empty, Map.empty, 5)"

lemma ix_empty_rel: "like_rel ty fst (\<lambda>w. fst (snd w)) ((Map.empty, Map.empty, n) :: ix_world) {}"
  by (rule like_relI [where m = Map.empty])
    (simp_all add: rows_ok_def zero_one_def liked_def represents_def count_of_def likers_in_def)

lemma ix_sismember: "\<forall>k m (w :: ix_world). fst (snd (snd (redisSismember (lc_redis (is_LikeCache ix_svc)) k m w))) = fst (snd w)"
  by (simp add: ix_svc_def NewLikeCache_def ix_redis_def ix_store_def)

lemma demo_replies: "list_all2 (good_reply True) demo_calls rs \<Longrightarrow> spec_run demo_calls rs {} = {(7, 4), (9, 3)}"
  by (auto simp: list_all2_Cons1 elim!: good_reply.elims)


end
