(* ===== verification/LikePipeline.thy ===== *)
theory LikePipeline
  imports LikeService
begin

text \<open>
  The interaction service with its background jobs, as \<open>interaction/cmd/server/main.go\<close> means to run
  it: calls of the server, the batch consumer with the syncer as its handler, the consistency checker
  and the expiry of Redis keys, one event at a time and in any order.
\<close>

section \<open>The running service\<close>

text \<open>
  What the service is given: clock, ids, the message codec, the two values of \<open>AddLikeRelation\<close>, the
  Kafka reader and the end of a key's time to live.
\<close>

record ('raw, 'w) ix_env =
  xe_clk :: "'w \<Rightarrow> int"
  xe_nextID :: "'w \<Rightarrow> int res \<times> 'w"
  xe_codec :: like_codec
  xe_v1 :: string
  xe_v2 :: string
  xe_consumer :: "('raw, 'w) Consumer"
  xe_expire :: "string \<Rightarrow> 'w \<Rightarrow> 'w"

datatype 'raw ix_event =
    XCall interaction_rpc
  | XKafka "'raw consumer_event"
  | XCheck chk_event
  | XExpire string

text \<open>The messages the consumer holds, the checker with its queue, and which of the two have stopped.\<close>

record 'w ix_state =
  xs_batch :: "LikeMessage list"
  xs_consumed :: bool
  xs_checker :: "'w LikeConsistencyChecker"
  xs_checked :: bool

definition ix_start :: "'w InteractionContext \<Rightarrow> 'w ix_state" where
  "ix_start ctx = \<lparr>xs_batch = [], xs_consumed = False, xs_checker = ic_LikeChecker ctx, xs_checked = False\<rparr>"

fun service_step ::
  "('raw, 'w) ix_env \<Rightarrow> InteractionConfig \<Rightarrow> 'w InteractionContext \<Rightarrow> 'raw ix_event \<Rightarrow> 'w ix_state \<times> 'w \<Rightarrow>
   'w ix_state \<times> 'w" where
  "service_step E c ctx (XCall rpc) (s, w) =
     (s, snd (InteractionServer (xe_clk E) (xe_nextID E) (xe_codec E) (xe_v1 E) (xe_v2 E) rpc
                (InteractionSvc.truncate ctx) w))"
| "service_step E c ctx (XKafka ev) (s, w) =
     (if xs_consumed s then (s, w)
      else (case consumeBatches (xe_codec E) (xe_consumer E) (ixc_KafkaBatchSize c) (ProcessBatch (ic_LikeSyncer ctx))
                   (xs_batch s) [ev] w of
              (ended, batch, w') \<Rightarrow> (s\<lparr>xs_batch := batch, xs_consumed := ended\<rparr>, w')))"
| "service_step E c ctx (XCheck ev) (s, w) =
     (if xs_checked s then (s, w)
      else (case checker_run (xe_clk E) [ev] (xs_checker s) w of
              (ended, chk, w') \<Rightarrow> (s\<lparr>xs_checker := chk, xs_checked := ended\<rparr>, w')))"
| "service_step E c ctx (XExpire k) (s, w) = (s, xe_expire E k w)"

text \<open>Without other events in between, the steps of a job are its loop on the list of its events.\<close>

lemma consumer_steps:
  assumes "\<not> xs_consumed s"
  shows "fold (service_step E c ctx) (map XKafka evs) (s, w) =
    (case consumeBatches (xe_codec E) (xe_consumer E) (ixc_KafkaBatchSize c) (ProcessBatch (ic_LikeSyncer ctx))
            (xs_batch s) evs w of
       (ended, batch, w') \<Rightarrow> (s\<lparr>xs_batch := batch, xs_consumed := ended\<rparr>, w'))"
proof -
  have stay: "fold (service_step E c ctx) (map XKafka evs) (s, w) = (s, w)" if "xs_consumed s" for evs s w
    using that by (induction evs) simp_all
  note L = batch_loop.loop_Cons [where s = "(b, v)" for b v, unfolded prod.case]
  show ?thesis
    using assms
  proof (induction evs arbitrary: s w)
    case (Cons ev evs)
    obtain ended b w1 where 1: "consumeBatches (xe_codec E) (xe_consumer E) (ixc_KafkaBatchSize c)
        (ProcessBatch (ic_LikeSyncer ctx)) (xs_batch s) [ev] w = (ended, b, w1)" by (metis prod_cases3)
    show ?case
    proof (cases ended)
      case True
      with Cons.prems 1 show ?thesis by (subst L) (simp add: stay)
    next
      case False
      with Cons.prems 1 Cons.IH [of "s\<lparr>xs_batch := b, xs_consumed := False\<rparr>" w1] show ?thesis
        by (subst L) simp
    qed
  qed simp
qed

lemma checker_steps:
  assumes "\<not> xs_checked s"
  shows "fold (service_step E c ctx) (map XCheck evs) (s, w) =
    (case checker_run (xe_clk E) evs (xs_checker s) w of
       (ended, chk, w') \<Rightarrow> (s\<lparr>xs_checker := chk, xs_checked := ended\<rparr>, w'))"
proof -
  have stay: "fold (service_step E c ctx) (map XCheck evs) (s, w) = (s, w)" if "xs_checked s" for evs s w
    using that by (induction evs) simp_all
  note L = checker_loop.loop_Cons [where s = "(k, v)" for k v, unfolded prod.case]
  show ?thesis
    using assms
  proof (induction evs arbitrary: s w)
    case (Cons ev evs)
    obtain ended k w1 where 1: "checker_run (xe_clk E) [ev] (xs_checker s) w = (ended, k, w1)" by (metis prod_cases3)
    show ?case
    proof (cases ended)
      case True
      with Cons.prems 1 show ?thesis by (subst L) (simp add: stay)
    next
      case False
      with Cons.prems 1 Cons.IH [of "s\<lparr>xs_checker := k, xs_checked := False\<rparr>" w1] show ?thesis
        by (subst L) simp
    qed
  qed simp
qed

section \<open>Laws of the outside world\<close>

text \<open>
  The columns \<open>col\<close> of the posts and comments tables. An update sets the column of one row or, when it
  fails, nothing; queries change nothing.
\<close>

definition count_columns ::
  "'w check_conn \<Rightarrow> ('w \<Rightarrow> store) \<Rightarrow> ('w \<Rightarrow> likes) \<Rightarrow> ('w \<Rightarrow> string \<Rightarrow> int \<Rightarrow> int) \<Rightarrow> bool" where
  "count_columns db st tb col \<longleftrightarrow>
     (\<forall>tbl n i w. let w' = snd (dbExec db (updateCountSQL tbl) [SInt n, SInt i] w) in
        st w' = st w \<and> tb w' = tb w \<and> (col w' = col w \<or> col w' = (col w)(tbl := (col w tbl)(i := n)))) \<and>
     (\<forall>sql args w. let w' = snd (dbQueryInt db sql args w) in st w' = st w \<and> tb w' = tb w \<and> col w' = col w) \<and>
     (\<forall>sql args w. let w' = snd (dbQueryTargets db sql args w) in st w' = st w \<and> tb w' = tb w \<and> col w' = col w)"

definition pipe_laws ::
  "('raw, 'w) ix_env \<Rightarrow> 'w InteractionContext \<Rightarrow> 'w check_conn \<Rightarrow> ('w \<Rightarrow> store) \<Rightarrow> ('w \<Rightarrow> likes) \<Rightarrow> 'w like_session \<Rightarrow>
   ('w \<Rightarrow> string \<Rightarrow> int \<Rightarrow> int) \<Rightarrow> bool" where
  "pipe_laws E ctx db st tb se col \<longleftrightarrow>
     like_services (xe_nextID E) (InteractionSvc.truncate ctx) st tb se \<and>
     (\<forall>k m w. tb (snd (redisSismember (lc_redis (is_LikeCache ctx)) k m w)) = tb w) \<and>
     redis_frame (lc_redis (is_LikeCache ctx)) tb \<and> redis_frame (lc_redis (is_LikeCache ctx)) col \<and>
     count_columns db st tb col \<and>
     (\<forall>raw w. let w' = snd (con_commit (xe_consumer E) raw w) in st w' = st w \<and> tb w' = tb w \<and> col w' = col w) \<and>
     (\<forall>k w. st (xe_expire E k w) = (st w)(k := None) \<and> tb (xe_expire E k w) = tb w)"

section \<open>The invariant\<close>

text \<open>
  A relation set that is still a set has only users who like the target. (Most are not: the first like
  of a user turns the set into a string.)
\<close>

definition sets_ok :: "(int \<Rightarrow> int) \<Rightarrow> store \<Rightarrow> likes \<Rightarrow> bool" where
  "sets_ok ty s tb \<longleftrightarrow> (\<forall>t i xs. s (buildRelationKey t i) = Some (RSet xs) \<longrightarrow>
     t = ty i \<and> distinct xs \<and> set xs \<subseteq> show_int ` likers tb i)"

definition pipe_ok :: "(int \<Rightarrow> int) \<Rightarrow> ('w \<Rightarrow> store) \<Rightarrow> ('w \<Rightarrow> likes) \<Rightarrow> 'w \<Rightarrow> bool" where
  "pipe_ok ty st tb w \<longleftrightarrow> rows_ok (tb w) \<and> zero_one (tb w) \<and> (\<forall>i. finite (likers (tb w) i)) \<and> sets_ok ty (st w) (tb w)"

text \<open>What a job may do: no row and no relation changes, and columns change to at most the number of likes.\<close>

definition col_moves :: "likes \<Rightarrow> (string \<Rightarrow> int \<Rightarrow> int) \<Rightarrow> (string \<Rightarrow> int \<Rightarrow> int) \<Rightarrow> bool" where
  "col_moves tb c c' \<longleftrightarrow> (\<forall>tbl i. c' tbl i = c tbl i \<or> 0 \<le> c' tbl i \<and> c' tbl i \<le> int (card (likers tb i)))"

definition harmless ::
  "('w \<Rightarrow> store) \<Rightarrow> ('w \<Rightarrow> likes) \<Rightarrow> ('w \<Rightarrow> string \<Rightarrow> int \<Rightarrow> int) \<Rightarrow> 'w \<Rightarrow> 'w \<Rightarrow> bool" where
  "harmless st tb col w w' \<longleftrightarrow>
     (\<forall>t i. st w' (buildRelationKey t i) = st w (buildRelationKey t i)) \<and> tb w' = tb w \<and> col_moves (tb w) (col w) (col w')"

lemma harmless_refl [simp]: "harmless st tb col w w"
  by (simp add: harmless_def col_moves_def)

lemma harmless_trans: "harmless st tb col w w1 \<Longrightarrow> harmless st tb col w1 w2 \<Longrightarrow> harmless st tb col w w2"
  by (auto simp: harmless_def col_moves_def) metis+

lemma harmless_same: "st w' = st w \<Longrightarrow> tb w' = tb w \<Longrightarrow> col w' = col w \<Longrightarrow> harmless st tb col w w'"
  by (simp add: harmless_def col_moves_def)

lemma harmless_ok: "harmless st tb col w w' \<Longrightarrow> pipe_ok ty st tb w \<Longrightarrow> pipe_ok ty st tb w'"
  by (simp add: harmless_def pipe_ok_def sets_ok_def)

lemma members_bound:
  assumes "pipe_ok ty st tb w" "st_members (st w) (buildRelationKey t i) = Inr xs"
  shows "int (length xs) \<le> int (card (likers (tb w) i))"
proof (cases "st w (buildRelationKey t i)")
  case (Some v)
  with assms have "distinct xs" "set xs \<subseteq> show_int ` likers (tb w) i" "finite (likers (tb w) i)"
    by (auto simp: st_members_def pipe_ok_def sets_ok_def split: rval.splits)
  then have "length xs \<le> card (show_int ` likers (tb w) i)" by (metis card_mono distinct_card finite_imageI)
  also have "\<dots> \<le> card (likers (tb w) i)" by (rule card_image_le) fact
  finally show ?thesis by simp
qed (use assms in \<open>simp add: st_members_def\<close>)

section \<open>Writers of the columns\<close>

lemma frame_calls:
  assumes "implements (lc_redis c) st" "redis_frame (lc_redis c) view"
  shows "st (snd (GetLikeCount c t i w)) = st w" "view (snd (GetLikeCount c t i w)) = view w"
    and "st (snd (GetLikeRelationCount c t i w)) = st w" "view (snd (GetLikeRelationCount c t i w)) = view w"
    and "fst (GetLikeRelationCount c t i w) = map_sum (\<lambda>e. e) (\<lambda>xs. int (length xs)) (st_members (st w) (buildRelationKey t i))"
    and "view (snd (SetLikeCount c t i n w)) = view w"
    and "st (snd (SetLikeCount c t i n w)) (buildRelationKey t' i') = st w (buildRelationKey t' i')"
proof -
  obtain r1 w1 where 1: "redisGet (lc_redis c) (buildCountKey t i) w = (r1, w1)" by fastforce
  obtain r2 w2 where 2: "redisScard (lc_redis c) (buildRelationKey t i) w = (r2, w2)" by fastforce
  have v: "view w1 = view w" "view w2 = view w" using assms(2) 1 2 unfolding redis_frame_def by (metis snd_conv)+
  show "st (snd (GetLikeCount c t i w)) = st w" "view (snd (GetLikeCount c t i w)) = view w"
    using implementsD(1) [OF assms(1) 1] 1 v by (auto simp: GetLikeCount_def split: sum.split)
  show "st (snd (GetLikeRelationCount c t i w)) = st w" "view (snd (GetLikeRelationCount c t i w)) = view w"
    "fst (GetLikeRelationCount c t i w) = map_sum (\<lambda>e. e) (\<lambda>xs. int (length xs)) (st_members (st w) (buildRelationKey t i))"
    using implementsD(8) [OF assms(1) 2] 2 v by (auto simp: GetLikeRelationCount_def st_scard_def split: sum.split)
  show "view (snd (SetLikeCount c t i n w)) = view w" using assms(2) by (simp add: SetLikeCount_def redis_frame_def)
  show "st (snd (SetLikeCount c t i n w)) (buildRelationKey t' i') = st w (buildRelationKey t' i')"
    by (simp add: SetLikeCount_def implements_setex [OF assms(1)])
qed

text \<open>The count both jobs take over: the size of the relation set, if it is one.\<close>

lemma relation_count_bound:
  assumes "implements (lc_redis c) st" "redis_frame (lc_redis c) tb" "pipe_ok ty st tb w"
    and "GetLikeRelationCount c t i w = (Inr n, w1)"
  shows "0 \<le> n \<and> n \<le> int (card (likers (tb w) i))"
proof -
  from frame_calls(5) [OF assms(1,2), of t i w] assms(4) obtain xs where
    "st_members (st w) (buildRelationKey t i) = Inr xs" "n = int (length xs)"
    by (cases "st_members (st w) (buildRelationKey t i)") auto
  with members_bound [OF assms(3)] show ?thesis by auto
qed

lemma update_harmless:
  assumes "count_columns db st tb col" "0 \<le> n" "n \<le> int (card (likers (tb w) i))"
    and "execErr db (updateCountSQL tbl) [SInt n, SInt i] w = (r, w')"
  shows "harmless st tb col w w'"
proof -
  have "w' = snd (dbExec db (updateCountSQL tbl) [SInt n, SInt i] w)"
    using assms(4) by (auto simp: execErr_def split: prod.splits sum.splits)
  with assms(1) have "st w' = st w" "tb w' = tb w" "col w' = col w \<or> col w' = (col w)(tbl := (col w tbl)(i := n))"
    by (simp_all add: count_columns_def Let_def)
  with assms(2,3) show ?thesis by (auto simp: harmless_def col_moves_def)
qed

lemma sync_harmless:
  assumes L: "implements (lc_redis c) st" "redis_frame (lc_redis c) tb" "redis_frame (lc_redis c) col"
    "count_columns db st tb col" and ok: "pipe_ok ty st tb w"
    and s: "syncSingleTarget (sqlconn.truncate db) c t i w = (r, w')"
  shows "harmless st tb col w w'"
proof -
  note F = frame_calls(1-4) [OF L(1,2)] frame_calls(1-4) [OF L(1,3)]
  obtain r1 w1 where 1: "GetLikeCount c t i w = (r1, w1)" by fastforce
  obtain r2 w2 where 2: "GetLikeRelationCount c t i w1 = (r2, w2)" by fastforce
  have h1: "harmless st tb col w w1" using F(1,2,6) [of t i w] 1 by (intro harmless_same) simp_all
  have h2: "harmless st tb col w1 w2" using F(3,4,8) [of t i w1] 2 by (intro harmless_same) simp_all
  have X: "execErr (sqlconn.truncate db) = execErr db" by (simp add: execErr_def fun_eq_iff sqlconn.defs)
  show ?thesis
  proof (cases r1)
    case (Inr n1)
    show ?thesis
    proof (cases r2)
      case (Inr n2)
      have b: "0 \<le> n2 \<and> n2 \<le> int (card (likers (tb w1) i))"
        using relation_count_bound [OF L(1,2) harmless_ok [OF h1 ok]] 2 Inr by blast
      have tb: "tb w2 = tb w1" using h2 by (simp add: harmless_def)
      show ?thesis
      proof (cases "tableName t")
        case (Inr tbl)
        obtain r3 w3 where 3: "execErr db (updateCountSQL tbl) [SInt n2, SInt i] w2 = (r3, w3)" by fastforce
        have "w' = w3"
          using s 1 2 3 \<open>r1 = Inr n1\<close> \<open>r2 = Inr n2\<close> Inr
          by (cases r3) (auto simp: syncSingleTarget_def X Let_def split: if_splits)
        with update_harmless [OF L(4) _ _ 3] b tb h1 h2 show ?thesis by (metis harmless_trans)
      next
        case (Inl e)
        with s 1 2 \<open>r1 = Inr n1\<close> \<open>r2 = Inr n2\<close> h1 h2 show ?thesis
          by (auto simp: syncSingleTarget_def Let_def intro: harmless_trans)
      qed
    qed (use s 1 2 Inr h1 h2 in \<open>auto simp: syncSingleTarget_def intro: harmless_trans\<close>)
  qed (use s 1 h1 in \<open>simp add: syncSingleTarget_def\<close>)
qed

section \<open>The consumer and the checker\<close>

definition job_laws ::
  "'w LikeCache \<Rightarrow> 'w check_conn \<Rightarrow> ('w \<Rightarrow> store) \<Rightarrow> ('w \<Rightarrow> likes) \<Rightarrow> ('w \<Rightarrow> string \<Rightarrow> int \<Rightarrow> int) \<Rightarrow> bool" where
  "job_laws c db st tb col \<longleftrightarrow> implements (lc_redis c) st \<and> redis_frame (lc_redis c) tb \<and>
     redis_frame (lc_redis c) col \<and> count_columns db st tb col"

lemma job_lawsD:
  assumes "job_laws c db st tb col"
  shows "implements (lc_redis c) st" "redis_frame (lc_redis c) tb" "redis_frame (lc_redis c) col"
    "count_columns db st tb col"
  using assms by (simp_all add: job_laws_def)

lemma syncTargets_harmless:
  assumes L: "job_laws c db st tb col" and ok: "pipe_ok ty st tb w"
  shows "harmless st tb col w (syncTargets (sqlconn.truncate db) c ts w)"
  using ok
proof (induction ts arbitrary: w)
  case (Cons t ts)
  show ?case
  proof (cases "parseTarget t")
    case (Some p)
    obtain ty' i where p: "p = (ty', i)" by fastforce
    obtain r w1 where 1: "syncSingleTarget (sqlconn.truncate db) c ty' i w = (r, w1)" by fastforce
    from sync_harmless [OF job_lawsD [OF L] Cons.prems 1] have h: "harmless st tb col w w1" .
    from Cons.IH [OF harmless_ok [OF h Cons.prems]] h 1 Some p show ?thesis by (auto intro: harmless_trans)
  qed (use Cons in simp)
qed simp

lemma batch_harmless:
  assumes "job_laws c db st tb col" "pipe_ok ty st tb w"
    and "ks_db s = sqlconn.truncate db" "ks_likeCache s = c"
  shows "harmless st tb col w (processBatch (ProcessBatch s) ms w)"
  using syncTargets_harmless [OF assms(1,2)] assms(3,4) by (simp add: processBatch_def ProcessBatch_def Let_def)

lemma consume_harmless:
  assumes "job_laws c db st tb col" "pipe_ok ty st tb w" "ks_db s = sqlconn.truncate db" "ks_likeCache s = c"
    and "\<forall>raw w. let w' = snd (con_commit con raw w) in st w' = st w \<and> tb w' = tb w \<and> col w' = col w"
    and "consumeBatches C con n (ProcessBatch s) batch [ev] w = (ended, batch', w')"
  shows "harmless st tb col w w'"
proof -
  note B = batch_harmless [OF assms(1-4)]
  have K: "harmless st tb col w (snd (con_commit con raw w))" for raw
    using assms(5) by (intro harmless_same) (simp_all add: Let_def)
  show ?thesis
  proof (cases ev)
    case (Fetch x)
    with assms(6) B K show ?thesis
      by (cases x) (auto simp: Let_def split: sum.splits if_splits)
  qed (use assms(6) B in \<open>auto split: if_splits\<close>)
qed

lemma check_harmless:
  assumes L: "job_laws (chk_likeCache c) (chk_db c) st tb col" and ok: "pipe_ok ty st tb w"
    and h: "checkSingleTarget c t i w = (r, w')"
  shows "harmless st tb col w w' \<and> (\<forall>x. r = Inr x \<longrightarrow> 0 \<le> RelationCount x \<and> RelationCount x \<le> int (card (likers (tb w') i)))"
proof -
  let ?lc = "chk_likeCache c"
  note D = job_lawsD [OF L]
  note F = frame_calls(1-4) [OF D(1,2)] frame_calls(1-4) [OF D(1,3)]
  obtain r1 w1 where 1: "getMySQLCount c t i w = (r1, w1)" by fastforce
  obtain r2 w2 where 2: "GetLikeCount ?lc t i w1 = (r2, w2)" by fastforce
  obtain r3 w3 where 3: "GetLikeRelationCount ?lc t i w2 = (r3, w3)" by fastforce
  have Q: "st (snd (dbQueryInt (chk_db c) q a v)) = st v" "tb (snd (dbQueryInt (chk_db c) q a v)) = tb v"
    "col (snd (dbQueryInt (chk_db c) q a v)) = col v" for q a v
    using D(4) by (simp_all add: count_columns_def Let_def)
  have "w1 = w \<or> (\<exists>q a. w1 = snd (dbQueryInt (chk_db c) q a w))"
    using 1 by (auto simp: getMySQLCount_def split: if_splits prod.splits sum.splits) (metis snd_conv)+
  then have h1: "harmless st tb col w w1" using Q by (auto intro: harmless_same)
  have h2: "harmless st tb col w1 w2" using F(1,2,6) [of t i w1] 2 by (intro harmless_same) simp_all
  have h3: "harmless st tb col w2 w3" using F(3,4,8) [of t i w2] 3 by (intro harmless_same) simp_all
  have h12: "harmless st tb col w w2" and h123: "harmless st tb col w w3" using h1 h2 h3 by (blast intro: harmless_trans)+
  have "0 \<le> n \<and> n \<le> int (card (likers (tb w3) i))" if "r3 = Inr n" for n
    using relation_count_bound [OF D(1,2) harmless_ok [OF h12 ok]] 3 that h3 by (metis harmless_def)
  with h 1 2 3 h1 h12 h123 show ?thesis
    by (cases r1; cases r2; cases r3) (auto simp: checkSingleTarget_def)
qed

lemma fix_harmless:
  assumes L: "job_laws (chk_likeCache c) (chk_db c) st tb col"
    and n: "0 \<le> RelationCount x" "RelationCount x \<le> int (card (likers (tb w) i))"
  shows "harmless st tb col w (fixInconsistency c t i x w)"
proof -
  note D = job_lawsD [OF L]
  define w1 where "w1 = (if RedisCount x \<noteq> RelationCount x
      then snd (SetLikeCount (chk_likeCache c) t i (RelationCount x) w) else w)"
  have h1: "harmless st tb col w w1"
    using frame_calls(6,7) [OF D(1,2)] frame_calls(6) [OF D(1,3)]
    by (auto simp: w1_def harmless_def col_moves_def)
  show ?thesis
  proof (cases "tableName t")
    case (Inr tbl)
    obtain r w2 where 2: "execErr (chk_db c) (updateCountSQL tbl) [SInt (RelationCount x), SInt i] w1 = (r, w2)" by fastforce
    have "tb w1 = tb w" using h1 by (simp add: harmless_def)
    with update_harmless [OF D(4) n(1) _ 2] n(2) have "harmless st tb col w1 w2" by simp
    with h1 2 Inr show ?thesis by (auto simp: fixInconsistency_def w1_def [symmetric] Let_def intro: harmless_trans)
  qed (use h1 in \<open>simp add: fixInconsistency_def w1_def [symmetric] Let_def\<close>)
qed

lemma checkTargets_harmless:
  assumes L: "job_laws (chk_likeCache c) (chk_db c) st tb col" and ok: "pipe_ok ty st tb w"
  shows "harmless st tb col w (snd (checkTargets c ts n w))"
  using ok
proof (induction ts arbitrary: n w)
  case (Cons t ts)
  obtain r w1 where 1: "checkSingleTarget c (task_TargetType t) (task_TargetId t) w = (r, w1)" by fastforce
  from check_harmless [OF L Cons.prems 1] have h: "harmless st tb col w w1"
    and b: "\<And>x. r = Inr x \<Longrightarrow> 0 \<le> RelationCount x \<and> RelationCount x \<le> int (card (likers (tb w1) (task_TargetId t)))"
    by auto
  have rest: "harmless st tb col w (snd (checkTargets c ts m w2))" if "harmless st tb col w1 w2" for m w2
    using Cons.IH [OF harmless_ok [OF harmless_trans [OF h that] Cons.prems]] harmless_trans [OF h that]
    by (rule harmless_trans [rotated])
  show ?case
  proof (cases r)
    case (Inr x)
    with 1 rest [OF harmless_refl] rest [OF fix_harmless [OF L]] b [OF Inr] show ?thesis by simp
  qed (use 1 rest [OF harmless_refl] in simp)
qed simp

lemma checker_harmless:
  assumes L: "job_laws (chk_likeCache c) (chk_db c) st tb col" and ok: "pipe_ok ty st tb w" and a: "chk_alarm c = None"
    and r: "checker_run clk [ev] c w = (ended, c', w')"
  shows "harmless st tb col w w' \<and> chk_likeCache c' = chk_likeCache c \<and> chk_db c' = chk_db c \<and> chk_alarm c' = None"
proof (cases ev)
  case ChkTick
  obtain x w1 where g: "getRandomTargets c (ccc_BatchSize (chk_config c)) w = (x, w1)" by fastforce
  have "w1 = snd (dbQueryTargets (chk_db c) randomTargetsSQL
      [SInt (half (ccc_BatchSize (chk_config c))), SInt (half (ccc_BatchSize (chk_config c)))] w)"
    using g by (auto simp: getRandomTargets_def split: prod.splits sum.splits)
  with job_lawsD(4) [OF L] have h: "harmless st tb col w w1"
    by (intro harmless_same) (simp_all add: count_columns_def Let_def)
  have "harmless st tb col w1 (snd (checkTargets c ts 0 w1))" for ts
    by (rule checkTargets_harmless [OF L harmless_ok [OF h ok]])
  with h have "harmless st tb col w (snd (checkTargets c ts 0 w1))" for ts by (rule harmless_trans)
  then have "harmless st tb col w (periodicCheck clk c w)"
    using g h a by (cases x) (simp_all add: periodicCheck_def case_prod_unfold)
  with r ChkTick a show ?thesis by auto
next
  case ChkTake
  have "harmless st tb col w (checkSingleTask c task w)" for task
  proof -
    obtain x w1 where 1: "checkSingleTarget c (task_TargetType task) (task_TargetId task) w = (x, w1)" by fastforce
    from check_harmless [OF L ok 1] 1 show ?thesis
      by (cases x) (auto simp: checkSingleTask_def intro!: harmless_trans [OF _ fix_harmless [OF L]])
  qed
  with r ChkTake a show ?thesis by (auto split: list.splits)
next
  case (ChkAdd task)
  with r a show ?thesis by (auto simp: AddCheckTask_def)
qed (use r a in auto)

section \<open>The server\<close>

lemma counters_keep_relations:
  assumes "implements (lc_redis c) st"
  shows "st (snd (IncrLikeCount c t i w)) (buildRelationKey t' i') = st w (buildRelationKey t' i')"
    and "st (snd (DecrLikeCount c t i w)) (buildRelationKey t' i') = st w (buildRelationKey t' i')"
proof -
  have a: "snd (st_add (buildCountKey t i) d s) (buildRelationKey t' i') = s (buildRelationKey t' i')" for d s
    by (auto simp: st_add_def split: option.split rval.split sum.split)
  show "st (snd (IncrLikeCount c t i w)) (buildRelationKey t' i') = st w (buildRelationKey t' i')"
    by (auto simp: IncrLikeCount_def Let_def implements_setex [OF assms] a split: sum.splits prod.splits
        dest!: implementsD(3) [OF assms])
  show "st (snd (DecrLikeCount c t i w)) (buildRelationKey t' i') = st w (buildRelationKey t' i')"
    by (auto simp: DecrLikeCount_def Let_def implements_setex [OF assms] a split: sum.splits prod.splits
        dest!: implementsD(4) [OF assms])
qed

lemma set_commands_other:
  "k' \<noteq> k \<Longrightarrow> snd (st_sadd k m s) k' = s k'" "k' \<noteq> k \<Longrightarrow> snd (st_srem k m s) k' = s k'"
  by (auto simp: st_sadd_def st_srem_def split: sum.split)

lemma set_commands:
  "snd (st_sadd k m s) k = Some (RSet xs) \<Longrightarrow> \<exists>ys. st_members s k = Inr ys \<and> xs = List.insert m ys"
  "snd (st_srem k m s) k = Some (RSet xs) \<Longrightarrow> \<exists>ys. st_members s k = Inr ys \<and> xs = remove1 m ys"
  by (auto simp: st_sadd_def st_srem_def st_members_def split: sum.splits option.splits rval.splits list.splits)

text \<open>Where the set of a relation key after these calls comes from.\<close>

lemma AddLikeRelation_sets:
  assumes I: "implements (lc_redis c) st"
    and x: "st (snd (AddLikeRelation v1 v2 c t i u w)) (buildRelationKey t' i') = Some (RSet xs)"
  shows "st w (buildRelationKey t' i') = Some (RSet xs) \<and> (t', i') \<noteq> (t, i) \<or>
    (t', i') = (t, i) \<and> (\<exists>ys. st_members (st w) (buildRelationKey t i) = Inr ys \<and> xs = List.insert (show_int u) ys)"
proof -
  let ?k = "buildRelationKey t i" and ?k' = "buildRelationKey t' i'"
  obtain r1 w1 where 1: "redisSadd (lc_redis c) ?k (show_int u) w = (r1, w1)" by fastforce
  obtain r2 w2 where 2: "redisSadd (lc_redis c) (buildUserKey u) (pair_text t i) w1 = (r2, w2)" by fastforce
  have s1: "st w1 = snd (st_sadd ?k (show_int u) (st w))" using implementsD(5) [OF I 1] by blast
  have s2: "st w2 = snd (st_sadd (buildUserKey u) (pair_text t i) (st w1))" using implementsD(5) [OF I 2] by blast
  have "st (snd (AddLikeRelation v1 v2 c t i u w)) ?k' = st w1 ?k' \<or>
      ?k' = ?k \<and> st (snd (AddLikeRelation v1 v2 c t i u w)) ?k' = Some (RStr v1)"
    using 1 2 s2 by (cases r1; cases r2)
      (auto simp: AddLikeRelation_def Let_def implements_setex [OF I] set_commands_other)
  with x have x': "snd (st_sadd ?k (show_int u) (st w)) ?k' = Some (RSet xs)" by (auto simp: s1)
  show ?thesis
  proof (cases "(t', i') = (t, i)")
    case True
    with set_commands(1) [OF x' [unfolded True [unfolded prod.inject, THEN conjunct1]
        True [unfolded prod.inject, THEN conjunct2]]] show ?thesis by blast
  next
    case False
    then have "?k' \<noteq> ?k" by simp
    from x' [unfolded set_commands_other(1) [OF this]] False show ?thesis by blast
  qed
qed

lemma RemoveLikeRelation_sets:
  assumes I: "implements (lc_redis c) st"
    and x: "st (snd (RemoveLikeRelation c t i u w)) (buildRelationKey t' i') = Some (RSet xs)"
  shows "st w (buildRelationKey t' i') = Some (RSet xs) \<and> (t', i') \<noteq> (t, i) \<or>
    (t', i') = (t, i) \<and> (\<exists>ys. st_members (st w) (buildRelationKey t i) = Inr ys \<and> xs = remove1 (show_int u) ys)"
proof -
  let ?k = "buildRelationKey t i" and ?k' = "buildRelationKey t' i'"
  obtain r1 w1 where 1: "redisSrem (lc_redis c) ?k (show_int u) w = (r1, w1)" by fastforce
  obtain r2 w2 where 2: "redisSrem (lc_redis c) (buildUserKey u) (pair_text t i) w1 = (r2, w2)" by fastforce
  have s1: "st w1 = snd (st_srem ?k (show_int u) (st w))" using implementsD(6) [OF I 1] by blast
  have s2: "st w2 = snd (st_srem (buildUserKey u) (pair_text t i) (st w1))" using implementsD(6) [OF I 2] by blast
  have "st (snd (RemoveLikeRelation c t i u w)) ?k' = st w1 ?k'"
    using 1 2 s2 by (cases r1; cases r2) (auto simp: RemoveLikeRelation_def set_commands_other)
  with x have x': "snd (st_srem ?k (show_int u) (st w)) ?k' = Some (RSet xs)" by (simp add: s1)
  show ?thesis
  proof (cases "(t', i') = (t, i)")
    case True
    with set_commands(2) [OF x' [unfolded True [unfolded prod.inject, THEN conjunct1]
        True [unfolded prod.inject, THEN conjunct2]]] show ?thesis by blast
  next
    case False
    then have "?k' \<noteq> ?k" by simp
    from x' [unfolded set_commands_other(2) [OF this]] False show ?thesis by blast
  qed
qed

lemma pipe_ok_write:
  assumes "pipe_ok ty st tb w" "tb w' = (tb w)((i, u) \<mapsto> l)" "like_TargetId l = i" "like_UserId l = u"
    and "like_Status l = 0 \<or> like_Status l = 1"
    and S: "\<And>t' i' xs. st w' (buildRelationKey t' i') = Some (RSet xs) \<Longrightarrow>
      st w (buildRelationKey t' i') = Some (RSet xs) \<and> (t', i') \<noteq> (ty i, i) \<or>
      (t', i') = (ty i, i) \<and> (\<exists>ys. st_members (st w) (buildRelationKey (ty i) i) = Inr ys \<and>
        xs = (if like_Status l = 1 then List.insert (show_int u) ys else remove1 (show_int u) ys))"
  shows "pipe_ok ty st tb w'"
proof -
  have old: "rows_ok (tb w)" "zero_one (tb w)" "\<And>i. finite (likers (tb w) i)" "sets_ok ty (st w) (tb w)"
    using assms(1) by (simp_all add: pipe_ok_def)
  have "rows_ok (tb w')" "zero_one (tb w')" using old(1,2) assms(2-5) by (auto simp: rows_ok_def zero_one_def)
  moreover have lk: "likers (tb w') j = (if j = i then (if like_Status l = 1 then insert u (likers (tb w) j)
      else likers (tb w) j - {u}) else likers (tb w) j)" for j
    by (simp add: assms(2) likers_upd)
  then have "finite (likers (tb w') j)" for j using old(3) by simp
  moreover have "sets_ok ty (st w') (tb w')"
    unfolding sets_ok_def
  proof (intro allI impI)
    fix t' j xs
    assume "st w' (buildRelationKey t' j) = Some (RSet xs)"
    from S [OF this] show "t' = ty j \<and> distinct xs \<and> set xs \<subseteq> show_int ` likers (tb w') j"
    proof (elim disjE conjE exE)
      assume "st w (buildRelationKey t' j) = Some (RSet xs)" "(t', j) \<noteq> (ty i, i)"
      moreover from this old(4) have "t' = ty j \<and> distinct xs \<and> set xs \<subseteq> show_int ` likers (tb w) j"
        unfolding sets_ok_def by blast
      ultimately have "j \<noteq> i" "t' = ty j \<and> distinct xs \<and> set xs \<subseteq> show_int ` likers (tb w) j" by blast+
      then show ?thesis by (simp add: lk)
    next
      fix ys
      assume ys: "(t', j) = (ty i, i)" "st_members (st w) (buildRelationKey (ty i) i) = Inr ys"
        "xs = (if like_Status l = 1 then List.insert (show_int u) ys else remove1 (show_int u) ys)"
      have d: "distinct ys" "set ys \<subseteq> show_int ` likers (tb w) i"
        using ys(2) old(4) unfolding sets_ok_def by (auto simp: st_members_def split: option.splits rval.splits)
      have "j = i" "t' = ty j" using ys(1) by simp_all
      moreover have "distinct xs" using d(1) ys(3) by simp
      moreover have "set xs \<subseteq> show_int ` likers (tb w') i"
        using d ys(3) by (cases "like_Status l = 1") (auto simp: lk)
      ultimately show ?thesis by simp
    qed
  qed
  ultimately show ?thesis by (simp add: pipe_ok_def)
qed

lemma pipe_ok_same: "pipe_ok ty st tb w \<Longrightarrow> st w' = st w \<Longrightarrow> tb w' = tb w \<Longrightarrow> pipe_ok ty st tb w'"
  by (simp add: pipe_ok_def)

lemma Like_pipe:
  assumes S: "like_services nextID s st tb se" and ok: "pipe_ok ty st tb w"
  shows "pipe_ok ty st tb (snd (Like_handler clk nextID C v1 v2 s u i (ty i) w))"
proof -
  note I = like_servicesD(1) [OF S]
  have rows: "rows_ok (tb w)" using ok by (simp add: pipe_ok_def)
  obtain b y w1 where tx: "LikeRepo_Transact (is_LikeRepo s) (like_tx clk nextID u i (ty i)) w = ((b, y), w1)"
    by (metis prod.collapse)
  note O = like_tx_outcome [OF S rows tx]
  consider (err) e where "y = Inl e" | (same) "y = Inr ()" "b" | (new) "y = Inr ()" "\<not> b" by (cases y) auto
  then show ?thesis
  proof cases
    case new
    define w2 where "w2 = snd (IncrLikeCount (is_LikeCache s) (ty i) i w1)"
    define w3 where "w3 = snd (AddLikeRelation v1 v2 (is_LikeCache s) (ty i) i u w2)"
    let ?w' = "snd (Like_handler clk nextID C v1 v2 s u i (ty i) w)"
    from new O obtain l where l: "like_Status l = 1" "like_TargetId l = i" "like_UserId l = u" "st w1 = st w"
      "tb w1 = (tb w)((i, u) \<mapsto> l)" by auto
    have out: "st ?w' = st w3" "tb ?w' = tb w3"
      using tx new SendMessage_keeps [OF S] by (auto simp: Like_handler_def w2_def w3_def Let_def)
    have t: "tb w3 = (tb w)((i, u) \<mapsto> l)" using l(5) cache_calls_keep_table [OF S] by (simp add: w3_def w2_def)
    have k: "st w2 (buildRelationKey t' i') = st w (buildRelationKey t' i')" for t' i'
      using counters_keep_relations(1) [OF I] l(4) by (simp add: w2_def)
    show ?thesis
    proof (rule pipe_ok_write [OF ok _ l(2,3)])
      show "tb ?w' = (tb w)((i, u) \<mapsto> l)" by (simp add: out(2) t)
      show "like_Status l = 0 \<or> like_Status l = 1" using l(1) ..
      fix t' i' xs
      assume "st ?w' (buildRelationKey t' i') = Some (RSet xs)"
      from AddLikeRelation_sets [OF I this [unfolded out(1) w3_def]]
      show "st w (buildRelationKey t' i') = Some (RSet xs) \<and> (t', i') \<noteq> (ty i, i) \<or>
          (t', i') = (ty i, i) \<and> (\<exists>ys. st_members (st w) (buildRelationKey (ty i) i) = Inr ys \<and>
            xs = (if like_Status l = 1 then List.insert (show_int u) ys else remove1 (show_int u) ys))"
        by (simp only: st_members_def k l(1) simp_thms if_True)
    qed
  qed (use tx O ok in \<open>auto simp: Like_handler_def intro: pipe_ok_same\<close>)
qed

lemma Unlike_pipe:
  assumes S: "like_services nextID s st tb se" and ok: "pipe_ok ty st tb w"
  shows "pipe_ok ty st tb (snd (Unlike_handler clk C s u i (ty i) w))"
proof -
  note I = like_servicesD(1) [OF S]
  have rows: "rows_ok (tb w)" "zero_one (tb w)" using ok by (simp_all add: pipe_ok_def)
  obtain b y w1 where tx: "LikeRepo_Transact (is_LikeRepo s) (unlike_tx clk u i) w = ((b, y), w1)"
    by (metis prod.collapse)
  note O = unlike_tx_outcome [OF S rows tx]
  consider (err) e where "y = Inl e" | (same) "y = Inr ()" "b" | (new) "y = Inr ()" "\<not> b" by (cases y) auto
  then show ?thesis
  proof cases
    case new
    define w2 where "w2 = snd (DecrLikeCount (is_LikeCache s) (ty i) i w1)"
    define w3 where "w3 = snd (RemoveLikeRelation (is_LikeCache s) (ty i) i u w2)"
    let ?w' = "snd (Unlike_handler clk C s u i (ty i) w)"
    from new O obtain l where l: "like_Status l = 0" "like_TargetId l = i" "like_UserId l = u" "st w1 = st w"
      "tb w1 = (tb w)((i, u) \<mapsto> l)" by auto
    have out: "st ?w' = st w3" "tb ?w' = tb w3"
      using tx new SendMessage_keeps [OF S] by (auto simp: Unlike_handler_def w2_def w3_def Let_def)
    have t: "tb w3 = (tb w)((i, u) \<mapsto> l)" using l(5) cache_calls_keep_table [OF S] by (simp add: w3_def w2_def)
    have k: "st w2 (buildRelationKey t' i') = st w (buildRelationKey t' i')" for t' i'
      using counters_keep_relations(2) [OF I] l(4) by (simp add: w2_def)
    have z: "(like_Status l = 1) = False" using l(1) by simp
    show ?thesis
    proof (rule pipe_ok_write [OF ok _ l(2,3)])
      show "tb ?w' = (tb w)((i, u) \<mapsto> l)" by (simp add: out(2) t)
      show "like_Status l = 0 \<or> like_Status l = 1" using l(1) ..
      fix t' i' xs
      assume "st ?w' (buildRelationKey t' i') = Some (RSet xs)"
      from RemoveLikeRelation_sets [OF I this [unfolded out(1) w3_def]]
      show "st w (buildRelationKey t' i') = Some (RSet xs) \<and> (t', i') \<noteq> (ty i, i) \<or>
          (t', i') = (ty i, i) \<and> (\<exists>ys. st_members (st w) (buildRelationKey (ty i) i) = Inr ys \<and>
            xs = (if like_Status l = 1 then List.insert (show_int u) ys else remove1 (show_int u) ys))"
        by (simp only: st_members_def k z if_False)
    qed
  qed (use tx O ok in \<open>auto simp: Unlike_handler_def intro: pipe_ok_same\<close>)
qed

lemma serve_pipe:
  assumes S: "like_services nextID s st tb se"
    and K: "\<forall>k m w. tb (snd (redisSismember (lc_redis (is_LikeCache s)) k m w)) = tb w"
    and ok: "pipe_ok ty st tb w" and t: "of_type ty x"
  shows "pipe_ok ty st tb (snd (InteractionServer clk nextID C v1 v2 x s w))"
proof (cases x)
  case (RpcLike u i t')
  with t Like_pipe [OF S ok, of clk C v1 v2 u i] show ?thesis by (simp add: case_prod_unfold)
next
  case (RpcUnlike u i t')
  with t Unlike_pipe [OF S ok, of clk C u i] show ?thesis by (simp add: case_prod_unfold)
next
  case (RpcGetLikeStatus u "is" t')
  obtain f w1 where f: "likeStatuses (is_LikeCache s) t' u is Map.empty w = (f, w1)" by fastforce
  with likeStatuses_keep [OF like_servicesD(1) [OF S] K, of t' u "is" Map.empty w] have "st w1 = st w" "tb w1 = tb w"
    by simp_all
  with f pipe_ok_same [OF ok] show ?thesis
    by (simp add: RpcGetLikeStatus GetLikeStatus_handler_def BatchGetLikeStatus_def)
qed (use ok in \<open>simp_all add: Interaction_CreateComment_def Interaction_DeleteComment_def Interaction_GetComments_def\<close>)

section \<open>The whole service\<close>

fun event_ok :: "(int \<Rightarrow> int) \<Rightarrow> 'raw ix_event \<Rightarrow> bool" where
  "event_ok ty (XCall x) \<longleftrightarrow> of_type ty x"
| "event_ok ty _ \<longleftrightarrow> True"

fun is_job :: "'raw ix_event \<Rightarrow> bool" where
  "is_job (XKafka ev) \<longleftrightarrow> True"
| "is_job (XCheck ev) \<longleftrightarrow> True"
| "is_job _ \<longleftrightarrow> False"

text \<open>The checker keeps its wiring.\<close>

definition checker_of :: "'w InteractionContext \<Rightarrow> 'w check_conn \<Rightarrow> 'w ix_state \<Rightarrow> bool" where
  "checker_of ctx db s \<longleftrightarrow> chk_likeCache (xs_checker s) = is_LikeCache ctx \<and> chk_db (xs_checker s) = db \<and>
     chk_alarm (xs_checker s) = None"

definition ctx_wired :: "'w InteractionContext \<Rightarrow> 'w check_conn \<Rightarrow> bool" where
  "ctx_wired ctx db \<longleftrightarrow> ks_db (ic_LikeSyncer ctx) = sqlconn.truncate db \<and>
     ks_likeCache (ic_LikeSyncer ctx) = is_LikeCache ctx"

lemma NewInteractionContext_wired:
  "ctx_wired (NewInteractionContext c likeDB (sqlconn.truncate db) db R writer) db"
  "checker_of (NewInteractionContext c likeDB (sqlconn.truncate db) db R writer) db
     (ix_start (NewInteractionContext c likeDB (sqlconn.truncate db) db R writer))"
  by (simp_all add: ctx_wired_def checker_of_def ix_start_def NewInteractionContext_def NewKafkaLikeCountSyncer_def
      NewLikeConsistencyChecker_def Let_def)

lemma service_step_ok:
  assumes L: "pipe_laws E ctx db st tb se col" and W: "ctx_wired ctx db" "checker_of ctx db s"
    and ok: "pipe_ok ty st tb w" and e: "event_ok ty e" and x: "service_step E c ctx e (s, w) = (s', w')"
  shows "pipe_ok ty st tb w' \<and> checker_of ctx db s' \<and> (is_job e \<longrightarrow> harmless st tb col w w')"
proof -
  have J: "job_laws (is_LikeCache ctx) db st tb col"
    using L like_servicesD(1) by (fastforce simp: pipe_laws_def job_laws_def InteractionSvc.defs)
  have job: ?thesis if "harmless st tb col w w'" "checker_of ctx db s'"
    using that harmless_ok [OF that(1) ok] by simp
  show ?thesis
  proof (cases e)
    case (XCall rpc)
    from L have "like_services (xe_nextID E) (InteractionSvc.truncate ctx) st tb se"
      "\<forall>k m w. tb (snd (redisSismember (lc_redis (is_LikeCache (InteractionSvc.truncate ctx))) k m w)) = tb w"
      by (simp_all add: pipe_laws_def InteractionSvc.defs)
    from serve_pipe [OF this ok, of rpc "xe_clk E" "xe_codec E" "xe_v1 E" "xe_v2 E"] XCall e x W(2) show ?thesis
      by auto
  next
    case (XKafka ev)
    show ?thesis
    proof (cases "xs_consumed s")
      case False
      obtain ended batch w1 where 1: "consumeBatches (xe_codec E) (xe_consumer E) (ixc_KafkaBatchSize c)
          (ProcessBatch (ic_LikeSyncer ctx)) (xs_batch s) [ev] w = (ended, batch, w1)" by (metis prod_cases3)
      have "harmless st tb col w w1"
        using L W(1) by (intro consume_harmless [OF J ok _ _ _ 1]) (simp_all add: pipe_laws_def ctx_wired_def)
      with x XKafka False 1 W(2) job show ?thesis by (auto simp: checker_of_def)
    qed (use x XKafka W(2) job in auto)
  next
    case (XCheck ev)
    show ?thesis
    proof (cases "xs_checked s")
      case False
      obtain ended chk w1 where 1: "checker_run (xe_clk E) [ev] (xs_checker s) w = (ended, chk, w1)" by (metis prod_cases3)
      have "job_laws (chk_likeCache (xs_checker s)) (chk_db (xs_checker s)) st tb col" "chk_alarm (xs_checker s) = None"
        using J W(2) by (simp_all add: checker_of_def)
      from checker_harmless [OF this(1) ok this(2) 1] x XCheck False 1 W(2) job show ?thesis by (auto simp: checker_of_def)
    qed (use x XCheck W(2) job in auto)
  next
    case (XExpire k)
    with x W(2) L have "st w' = (st w)(k := None)" "tb w' = tb w" "s' = s" by (auto simp: pipe_laws_def)
    with ok W(2) XExpire show ?thesis by (auto simp: pipe_ok_def sets_ok_def)
  qed
qed

lemma ix_run_ok:
  assumes "pipe_laws E ctx db st tb se col" "ctx_wired ctx db"
    and "list_all (event_ok ty) es" "checker_of ctx db s" "pipe_ok ty st tb w"
    and "fold (service_step E c ctx) es (s, w) = (s', w')"
  shows "pipe_ok ty st tb w' \<and> checker_of ctx db s'"
  using assms(3-6)
proof (induction es arbitrary: s w)
  case (Cons e es)
  obtain s1 w1 where 1: "service_step E c ctx e (s, w) = (s1, w1)" by fastforce
  have "event_ok ty e" using Cons.prems(1) by simp
  from service_step_ok [OF assms(1,2) Cons.prems(2,3) this 1] Cons.prems(1,4) 1 show ?case
    by (intro Cons.IH [of s1 w1]) simp_all
qed simp


text \<open>For examples: the worlds of the like examples with the columns beside them.\<close>

type_synonym pipe_world = "ix_world \<times> (string \<Rightarrow> int \<Rightarrow> int)"

definition beside :: "(ix_world \<Rightarrow> 'a \<times> ix_world) \<Rightarrow> pipe_world \<Rightarrow> 'a \<times> pipe_world" where
  "beside f w = (fst (f (fst w)), (snd (f (fst w)), snd w))"

definition pipe_redis :: "pipe_world redis" where
  "pipe_redis = down_redis\<lparr>redisGet := (\<lambda>k. beside (redisGet ix_redis k)),
     redisSetex := (\<lambda>k v t. beside (redisSetex ix_redis k v t)), redisIncr := (\<lambda>k. beside (redisIncr ix_redis k)),
     redisDecr := (\<lambda>k. beside (redisDecr ix_redis k)), redisSadd := (\<lambda>k m. beside (redisSadd ix_redis k m)),
     redisSrem := (\<lambda>k m. beside (redisSrem ix_redis k m)), redisSismember := (\<lambda>k m. beside (redisSismember ix_redis k m)),
     redisScard := (\<lambda>k. beside (redisScard ix_redis k)), redisSmembers := (\<lambda>k. beside (redisSmembers ix_redis k))\<rparr>"

definition pipe_session :: "pipe_world like_session" where
  "pipe_session = \<lparr>lsExec = (\<lambda>q a. beside (lsExec ix_session q a)), lsQueryLike = (\<lambda>q a. beside (lsQueryLike ix_session q a)),
     lsQueryStatuses = (\<lambda>q a. beside (lsQueryStatuses ix_session q a))\<rparr>"

definition pipe_conn :: "pipe_world like_conn" where
  "pipe_conn = \<lparr>lsExec = lsExec pipe_session, lsQueryLike = lsQueryLike pipe_session,
     lsQueryStatuses = lsQueryStatuses pipe_session,
     lcTransact = (\<lambda>fn w. case fn pipe_session w of
        ((b, Inr _), w1) \<Rightarrow> ((b, Inr ()), w1) | ((b, Inl e), w1) \<Rightarrow> ((b, Inl e), w))\<rparr>"

definition pipe_db :: "pipe_world check_conn" where
  "pipe_db = \<lparr>
     dbExec = (\<lambda>sql args w. (Inr \<lparr>rowsAffected = Inr 1, lastInsertId = Inr 0\<rparr>,
       case args of [SInt n, SInt i] \<Rightarrow> (fst w, \<lambda>tbl j. if sql = updateCountSQL tbl \<and> j = i then n else snd w tbl j)
       | _ \<Rightarrow> w)),
     dbQueryInt = (\<lambda>sql args w. (Inr 0, w)),
     dbQueryTargets = (\<lambda>sql args w. (Inr [(1, 7), (1, 8)], w))\<rparr>"

definition pipe_env :: "(int, pipe_world) ix_env" where
  "pipe_env = \<lparr>xe_clk = (\<lambda>w. 0), xe_nextID = beside ix_nextID,
     xe_codec = \<lparr>encodeLike = (\<lambda>m. Inr []), decodeLike = (\<lambda>d. Inr \<lparr>lm_Id = [], lm_TargetType = 1,
        lm_TargetId = int (length d), lm_UserId = 3, lm_Action = ActionLike, lm_Timestamp = 0\<rparr>)\<rparr>,
     xe_v1 = [], xe_v2 = [],
     xe_consumer = \<lparr>con_value = (\<lambda>i. replicate (nat i) CHR ''x''), con_commit = (\<lambda>i w. (Inr (), w))\<rparr>,
     xe_expire = (\<lambda>k w. (((fst (fst w))(k := None), snd (fst w)), snd w))\<rparr>"

definition pipe_conf :: InteractionConfig where
  "pipe_conf = \<lparr>
     ixc_Kafka = \<lparr>kc_Brokers = [''127.0.0.1:9092''], kc_Topic = ''like-action'', kc_GroupId = ''interaction-group'',
       kc_BatchSize = 1, kc_BatchTimeout = 5\<rparr>,
     ixc_Check = \<lparr>ck_IntervalMinutes = 5, ck_BatchSize = 100, ck_AutoFix = True, ck_EnableAlarm = True, ck_AlarmThreshold = 10\<rparr>\<rparr>"

definition pipe_ctx :: "pipe_world InteractionContext" where
  "pipe_ctx = NewInteractionContext pipe_conf pipe_conn (sqlconn.truncate pipe_db) pipe_db pipe_redis (\<lambda>cfg k d t w. (Inr (), w))"

lemma beside_simps [simp]:
  "fst (beside f w) = fst (f (fst w))" "fst (snd (beside f w)) = snd (f (fst w))" "snd (snd (beside f w)) = snd w"
  by (simp_all add: beside_def)

lemma pipe_implements: "implements pipe_redis (\<lambda>w. fst (fst w))"
  using ix_redis_implements by (simp add: implements_def pipe_redis_def agrees_def)

lemma pipe_session_on: "session_on pipe_session (\<lambda>w. fst (snd (fst w)))"
  by (auto simp: session_on_def pipe_session_def ix_session_def beside_def)

lemma pipe_services:
  "like_services (beside ix_nextID) (InteractionSvc.truncate pipe_ctx) (\<lambda>w. fst (fst w)) (\<lambda>w. fst (snd (fst w))) pipe_session"
  unfolding like_services_def
proof (intro conjI allI)
  fix fn :: "pipe_world like_session \<Rightarrow> pipe_world \<Rightarrow> (bool \<times> unit res) \<times> pipe_world" and w
  show "case fn pipe_session w of
      ((b, Inr _), w1) \<Rightarrow> lcTransact (is_LikeRepo (InteractionSvc.truncate pipe_ctx)) fn w = ((b, Inr ()), w1)
    | ((b, Inl e), w1) \<Rightarrow> (\<exists>w2. lcTransact (is_LikeRepo (InteractionSvc.truncate pipe_ctx)) fn w = ((b, Inl e), w2) \<and>
        fst (snd (fst w2)) = fst (snd (fst w)) \<and> fst (fst w2) = fst (fst w))"
    unfolding pipe_ctx_def NewInteractionContext_def Let_def InteractionSvc.defs
    by (auto simp: pipe_conn_def split: prod.split sum.split) (metis prod.collapse)
next
  show "fst (fst (snd (lsExec pipe_session sql args w))) = fst (fst w)" for sql args w
    by (simp add: pipe_session_def ix_session_def split: list.split likearg.split option.split)
next
  show "implements (lc_redis (is_LikeCache (InteractionSvc.truncate pipe_ctx))) (\<lambda>w. fst (fst w))"
    by (simp add: pipe_ctx_def NewInteractionContext_def InteractionSvc.defs NewLikeCache_def Let_def pipe_implements)
qed (simp_all add: pipe_ctx_def NewInteractionContext_def InteractionSvc.defs NewLikeCache_def NewProducer_def
      pipe_session_on ix_nextID_def pipe_redis_def ix_redis_def ix_store_def Let_def)


lemma pipe_world_laws:
  "pipe_laws pipe_env pipe_ctx pipe_db (\<lambda>w. fst (fst w)) (\<lambda>w. fst (snd (fst w))) pipe_session snd"
  unfolding pipe_laws_def
proof (intro conjI)
  show "like_services (xe_nextID pipe_env) (InteractionSvc.truncate pipe_ctx) (\<lambda>w. fst (fst w)) (\<lambda>w. fst (snd (fst w)))
      pipe_session"
    using pipe_services by (simp add: pipe_env_def)
  show "count_columns pipe_db (\<lambda>w. fst (fst w)) (\<lambda>w. fst (snd (fst w))) snd"
    by (auto simp: count_columns_def pipe_db_def Let_def fun_eq_iff)
qed (simp_all add: pipe_env_def pipe_ctx_def NewInteractionContext_def NewLikeCache_def redis_frame_def pipe_redis_def
      ix_redis_def ix_store_def Let_def)

text \<open>
  User 3 likes post 8 and the counter says so; the relation set is gone, and the column says 5. The
  batch consumer meets a message for post 8 and writes 0.
\<close>

definition pipe_world0 :: pipe_world where
  "pipe_world0 = (([buildCountKey 1 8 \<mapsto> RStr (show_int 1)], [(8, 3) \<mapsto> \<lparr>like_Id = 1, like_Type = 1, like_TargetId = 8,
     like_UserId = 3, like_Status = 1, like_Liketime = 0, like_Unliketime = None\<rparr>], 5), \<lambda>tbl i. 5)"

definition pipe_run :: "pipe_world ix_state \<times> pipe_world" where
  "pipe_run = fold (service_step pipe_env pipe_conf pipe_ctx) [XExpire (buildRelationKey 1 8), XKafka Tick]
     (ix_start pipe_ctx, pipe_world0)"

definition pipe_job :: "pipe_world ix_state \<times> pipe_world" where
  "pipe_job = service_step pipe_env pipe_conf pipe_ctx (XKafka (Fetch (Inr 8))) pipe_run"

lemma pipe_sync:
  "snd (syncSingleTarget (sqlconn.truncate pipe_db) (NewLikeCache pipe_redis) 1 8 pipe_world0) =
     (fst pipe_world0, \<lambda>tbl j. if updateCountSQL ''posts'' = updateCountSQL tbl \<and> j = 8 then 0 else 5)"
  by (simp add: syncSingleTarget_def GetLikeCount_def GetLikeRelationCount_def NewLikeCache_def pipe_redis_def ix_redis_def
      ix_store_def beside_def st_get_def st_scard_def st_members_def tableName_def execErr_def pipe_db_def sqlconn.defs
      pipe_world0_def ParseInt_show_int is_int64_def Let_def fun_eq_iff)

lemma pipe_job_writes: "snd (snd pipe_run) ''posts'' 8 = 5 \<and> snd (snd pipe_job) ''posts'' 8 = 0"
proof -
  have run: "pipe_run = (ix_start pipe_ctx, pipe_world0)"
    by (simp add: pipe_run_def pipe_world0_def pipe_env_def ix_start_def fun_upd_twist)
  have t: "parseTarget (pair_text 1 8) = Some (1, 8)"
    using parse_target_text [of "(1, 8)"] by (simp add: target_text_def in_range_def is_int32_def is_int64_def)
  have ctx: "ks_db (ic_LikeSyncer pipe_ctx) = sqlconn.truncate pipe_db" "ks_likeCache (ic_LikeSyncer pipe_ctx) = NewLikeCache pipe_redis"
    by (simp_all add: pipe_ctx_def NewInteractionContext_def NewKafkaLikeCountSyncer_def Let_def)
  have "snd pipe_job = snd (syncSingleTarget (sqlconn.truncate pipe_db) (NewLikeCache pipe_redis) 1 8 pipe_world0)"
    by (simp add: pipe_job_def run ix_start_def pipe_env_def pipe_conf_def DecodeLikeMessage_def processBatch_def
        ProcessBatch_def Let_def t ctx)
  then show ?thesis unfolding run pipe_sync by (simp add: pipe_world0_def)
qed


end
