(* ===== verification/KafkaTiming.thy ===== *)
theory KafkaTiming
  imports Kafka
begin

text \<open>
  The batch consumer on a clock (\<open>interaction/internal/kafka/consumer.go\<close>): which events its loop
  meets when messages arrive at given times. The batch timer is looked at only between two fetches,
  and a fetch blocks until there is a message.
\<close>

section \<open>The loop on a clock\<close>

text \<open>
  Times are nanoseconds since the ticker was made. It fires every \<open>T\<close> and its channel holds one tick,
  so at \<open>t\<close> there is a tick to receive when it has fired since the last receipt at \<open>u\<close>.
\<close>

definition ticked :: "int \<Rightarrow> int \<Rightarrow> int \<Rightarrow> bool" where
  "ticked T u t \<longleftrightarrow> u div T < t div T"

text \<open>
  The events of the loop at time \<open>t\<close>, for the results \<open>FetchMessage\<close> will have and when it has them: a
  pending tick is taken first, otherwise the loop fetches and waits; after a failed fetch it sleeps 50
  milliseconds. Taking a tick takes no time, so another cannot be pending. With no further
  result the fetch does not return.
\<close>

fun timed_events :: "int \<Rightarrow> (int \<times> 'raw res) list \<Rightarrow> int \<Rightarrow> int \<Rightarrow> 'raw consumer_event list" where
  "timed_events T [] t u = (if ticked T u t then [Tick] else [])"
| "timed_events T ((a, r) # as) t u =
     (let t' = max t a + (case r of Inl err \<Rightarrow> 50000000 | Inr msg \<Rightarrow> 0)
      in if ticked T u t then Tick # Fetch r # timed_events T as t' t
         else Fetch r # timed_events T as t' u)"

section \<open>Waiting for the next message\<close>

lemma timed_next: "\<exists>evs. timed_events T (as @ [(a, r)]) t u = timed_events T as t u @ Fetch r # evs"
  by (induction T as t u rule: timed_events.induct) (auto simp: Let_def)

definition in_period :: "int \<Rightarrow> int \<Rightarrow> int \<times> 'raw res \<Rightarrow> bool" where
  "in_period T p x \<longleftrightarrow> fst x div T = p \<and> \<not> isl (snd x)"

definition before_period :: "int \<Rightarrow> int \<Rightarrow> int \<times> 'raw res \<Rightarrow> bool" where
  "before_period T p x \<longleftrightarrow> fst x div T < p \<and> \<not> isl (snd x)"

text \<open>Within one period of the ticker there is no further tick.\<close>

lemma timed_same_period:
  assumes "list_all (in_period T p) as" "t div T = p" "u div T = p"
  shows "timed_events T as t u = map (Fetch \<circ> snd) as"
  using assms
proof (induction as arbitrary: t)
  case (Cons x as)
  obtain a r where x: "x = (a, Inr r)" using Cons.prems(1) by (cases x; cases "snd x") (auto simp: in_period_def)
  have "max t a div T = p" using Cons.prems(1,2) x by (auto simp: in_period_def max_def)
  with Cons x show ?case by (simp add: ticked_def)
qed (simp add: ticked_def)

text \<open>What arrives before a period leaves the loop before it.\<close>

lemma timed_before:
  fixes c :: "('raw, 'w) Consumer"
  assumes "list_all (before_period T p) as" "t div T < p" "u div T < p"
  shows "\<exists>evs t' u'. timed_events T (as @ ys) t u = evs @ timed_events T ys t' u' \<and> t' div T < p \<and> u' div T < p
    \<and> CtxDone \<notin> set evs \<and> taken C c evs = taken C c (map (Fetch \<circ> snd) as)"
  using assms
proof (induction as arbitrary: t u)
  case Nil
  then show ?case by (intro exI [of _ "[]"]) auto
next
  case (Cons x as)
  obtain a r where x: "x = (a, Inr r)" using Cons.prems(1) by (cases x; cases "snd x") (auto simp: before_period_def)
  let ?t = "max t a" and ?u = "if ticked T u t then t else u"
  have T: "?t div T < p" "?u div T < p" using Cons.prems x by (auto simp: before_period_def max_def)
  from Cons.prems(1) have "list_all (before_period T p) as" by simp
  from Cons.IH [OF this T] obtain evs t' u' where I:
    "timed_events T (as @ ys) ?t ?u = evs @ timed_events T ys t' u'" "t' div T < p" "u' div T < p"
    "CtxDone \<notin> set evs" "taken C c evs = taken C c (map (Fetch \<circ> snd) as)" by blast
  let ?evs = "(if ticked T u t then [Tick] else []) @ Fetch (Inr r) # evs"
  have "timed_events T ((x # as) @ ys) t u = ?evs @ timed_events T ys t' u'" using I(1) x by (auto simp: Let_def)
  moreover have "taken C c ?evs = taken C c (map (Fetch \<circ> snd) (x # as))" using I(5) x by (auto split: sum.split)
  moreover have "CtxDone \<notin> set ?evs" using I(4) by auto
  ultimately show ?case using I(2,3) by blast
qed

lemma taken_append: "CtxDone \<notin> set xs \<Longrightarrow> taken C c (xs @ ys) = taken C c xs @ taken C c ys"
  by (induction C c xs rule: taken.induct) (auto split: sum.split)

text \<open>The first message of a period makes the tick before it visible, the others of the period do not.\<close>

lemma timed_around:
  fixes c :: "('raw, 'w) Consumer"
  assumes "0 < T"
    and "list_all (before_period T (fst x div T)) pre" "\<not> isl (snd x)" "list_all (in_period T (fst x div T)) rest"
    and "0 < fst x div T"
  shows "\<exists>evs. timed_events T (pre @ x # rest) 0 0 = evs @ Tick # map (Fetch \<circ> snd) rest
    \<and> CtxDone \<notin> set evs \<and> taken C c evs = taken C c (map (Fetch \<circ> snd) (pre @ [x]))"
proof -
  obtain a r where x: "x = (a, Inr r)" using assms(3) by (cases x; cases "snd x") auto
  have "0 div T < a div T" using assms(5) x by simp
  from timed_before [OF assms(2) [unfolded x fst_conv] this this, of "x # rest" C c] obtain evs t u where I:
    "timed_events T (pre @ x # rest) 0 0 = evs @ timed_events T (x # rest) t u" "t div T < a div T" "u div T < a div T"
    "CtxDone \<notin> set evs" "taken C c evs = taken C c (map (Fetch \<circ> snd) pre)" by blast
  let ?u = "if ticked T u t then t else u"
  have "t \<le> a" using I(2) zdiv_mono1 [OF _ assms(1), of a t] by linarith
  then have u: "?u div T < a div T" "max t a div T = a div T" using I(2,3) by (auto simp: max_def)
  have rest: "timed_events T rest (max t a) ?u = Tick # map (Fetch \<circ> snd) rest"
  proof (cases rest)
    case Nil
    then show ?thesis using u by (simp add: ticked_def)
  next
    case (Cons y ys)
    with assms(4) x have same: "timed_events T rest (max t a) (max t a) = map (Fetch \<circ> snd) rest"
      by (intro timed_same_period [of T "a div T"]) (simp_all add: u(2))
    have tk: "ticked T ?u (max t a)" "\<not> ticked T (max t a) (max t a)" using u by (simp_all add: ticked_def)
    obtain b q where y: "y = (b, q)" by fastforce
    from same tk(2) have "Fetch q # timed_events T ys (max (max t a) b + (case q of Inl e \<Rightarrow> 50000000 | Inr m \<Rightarrow> 0)) (max t a)
        = map (Fetch \<circ> snd) rest" by (simp add: Cons y Let_def)
    with tk(1) show ?thesis by (simp add: Cons y Let_def del: ticked_def)
  qed
  let ?evs = "evs @ (if ticked T u t then [Tick] else []) @ [Fetch (Inr r)]"
  have "CtxDone \<notin> set (map (Fetch \<circ> snd) pre)" by auto
  with I(4,5) have "taken C c ?evs = taken C c (map (Fetch \<circ> snd) (pre @ [x]))"
    by (simp add: taken_append x)
  moreover have "timed_events T (pre @ x # rest) 0 0 = ?evs @ Tick # map (Fetch \<circ> snd) rest"
    using I(1) rest x by (simp add: Let_def split: if_splits)
  ultimately show ?thesis using I(4) by (intro exI [of _ ?evs]) simp
qed

text \<open>A run without the end of the context goes on, and fewer messages than a batch are only held.\<close>

lemma batches_go_on:
  "CtxDone \<notin> set evs \<Longrightarrow> \<not> fst (consumeBatches C c n handler batch evs w)"
  by (induction C c n handler batch evs w rule: consumeBatches.induct) (auto simp: Let_def split: sum.split)

definition decodes :: "like_codec \<Rightarrow> ('raw \<Rightarrow> string) \<Rightarrow> 'raw res \<Rightarrow> bool" where
  "decodes C val r \<longleftrightarrow> (case r of Inl e \<Rightarrow> False | Inr raw \<Rightarrow> \<not> isl (DecodeLikeMessage C (val raw)))"

lemma batches_hold:
  assumes "list_all (decodes C (con_value c)) rs" "int (length batch + length rs) < n"
  shows "consumeBatches C c n handler batch (map Fetch rs) w = (False, batch @ taken C c (map Fetch rs), w)"
  using assms
proof (induction rs arbitrary: batch)
  case (Cons r rs)
  then obtain raw m where r: "r = Inr raw" "DecodeLikeMessage C (con_value c raw) = Inr m"
    by (auto simp: decodes_def isl_def split: sum.splits) (metis sum.exhaust)
  with Cons.prems Cons.IH [of "batch @ [m]"] show ?case by (simp add: Let_def)
qed simp

lemma taken_length: "length (taken C c evs) \<le> length evs"
  by (induction C c evs rule: taken.induct) (auto split: sum.split)

lemma tick_empties:
  assumes "CtxDone \<notin> set evs"
  obtains w' where "consumeBatches C c n handler batch (evs @ [Tick]) w = (False, [], w')"
proof -
  obtain e b w1 where 1: "consumeBatches C c n handler batch evs w = (e, b, w1)" by (metis prod_cases3)
  with batches_go_on [OF assms, of C c n handler batch w] have "\<not> e" by simp
  with batch_loop.loop_append [of C c n handler evs "[Tick]" "(batch, w)"] 1 that show ?thesis
    by (cases "b = []") auto
qed

text \<open>
  C11: The last messages wait for the next one: the batch timer does not bound how long a message is
  held. Whatever arrived before, when messages arrive in a new period of the timer, the
  first of them lets the loop see the tick and everything up to it is handed over; but the others, if
  they do not fill a batch, stay in hand - in order, not lost - and the loop is back in a fetch that
  returns only with the next message, so until then, however long it takes, the likes they stand for
  are not synchronised.
\<close>

theorem last_messages_wait:
  assumes "0 < T" "list_all (before_period T (fst x div T)) pre" "\<not> isl (snd x)"
    and "list_all (in_period T (fst x div T)) rest" "0 < fst x div T"
    and "list_all (decodes C val) (map snd rest)" "int (length rest) < n"
    and "consumeBatches C (recorder val) n (logging fails) [] (timed_events T (pre @ x # rest) 0 0) ([], []) =
      (ended, held, batches, commits)"
  shows "\<not> ended
    \<and> held = taken C (recorder val) (map (Fetch \<circ> snd) rest) \<and> length held = length rest
    \<and> concat batches = taken C (recorder val) (map (Fetch \<circ> snd) (pre @ [x]))
    \<and> (\<forall>a r. \<exists>evs. timed_events T ((pre @ x # rest) @ [(a, r)]) 0 0 = timed_events T (pre @ x # rest) 0 0 @ Fetch r # evs)"
proof -
  let ?c = "recorder val :: ('a, LikeMessage list list \<times> 'a list) Consumer"
  from timed_around [OF assms(1-5), of C ?c] obtain evs where evs:
    "timed_events T (pre @ x # rest) 0 0 = evs @ Tick # map (Fetch \<circ> snd) rest" "CtxDone \<notin> set evs"
    "taken C ?c evs = taken C ?c (map (Fetch \<circ> snd) (pre @ [x]))" by blast
  have n: "1 \<le> n" using assms(7) by linarith
  obtain w' where first: "consumeBatches C ?c n (logging fails) [] (evs @ [Tick]) ([], []) = (False, [], w')"
    by (rule tick_empties [OF evs(2)])
  from consumeBatches_run [OF n _ _ this] n evs(2,3) have bs: "concat (fst w') = taken C ?c (map (Fetch \<circ> snd) (pre @ [x]))"
    by (simp add: taken_append)
  have "consumeBatches C ?c n (logging fails) [] (map Fetch (map snd rest)) w' = (False, taken C ?c (map Fetch (map snd rest)), w')"
    using batches_hold [of C ?c "map snd rest" "[]" n] assms(6,7) by (simp add: recorder_def)
  with batch_loop.loop_append [of C ?c n "logging fails" "evs @ [Tick]" "map (Fetch \<circ> snd) rest" "([], [], [])"] first evs(1) assms(8)
  have run: "\<not> ended" "held = taken C ?c (map (Fetch \<circ> snd) rest)" "batches = fst w'"
    by (auto simp: comp_def)
  have "length (taken C ?c (map Fetch rs)) = length rs" if "list_all (decodes C val) rs" for rs
    using that by (induction rs) (auto simp: decodes_def recorder_def split: sum.splits)
  from this [OF assms(6)] run(2) have "length held = length rest" by (simp add: comp_def)
  with run bs timed_next show ?thesis by blast
qed

text \<open>The configured five seconds: one like in the first period, two in the second.\<close>

abbreviation (input) "five \<equiv> 5000000000 :: int"

theorem last_messages_wait_witness:
  "\<exists>held batches commits. consumeBatches demo_codec (recorder (\<lambda>r. r)) 100 (logging (\<lambda>_. False)) []
      (timed_events five [(1000000000, Inr ''a''), (7000000000, Inr ''b''), (7100000000, Inr ''c'')] 0 0) ([], []) =
      (False, held, batches, commits)
    \<and> map lm_Id held = [''c''] \<and> map lm_Id (concat batches) = [''a'', ''b'']"
proof -
  obtain ended held batches commits where r: "consumeBatches demo_codec (recorder (\<lambda>r. r)) 100 (logging (\<lambda>_. False)) []
      (timed_events five ([(1000000000, Inr ''a'')] @ (7000000000, Inr ''b'') # [(7100000000, Inr ''c'')]) 0 0) ([], []) =
      (ended, held, batches, commits)"
    using prod_cases4 by blast
  have "list_all (before_period five (fst (7000000000 :: int, Inr ''b'' :: string res) div five)) [(1000000000, Inr ''a'')]"
    "list_all (in_period five (fst (7000000000 :: int, Inr ''b'' :: string res) div five)) [(7100000000, Inr ''c'')]"
    "list_all (decodes demo_codec (\<lambda>r. r)) (map snd [(7100000000 :: int, Inr ''c'')])"
    by (simp_all add: before_period_def in_period_def decodes_def demo_codec_def DecodeLikeMessage_def)
  from last_messages_wait [OF _ this(1) _ this(2) _ this(3) _ r] r show ?thesis
    by (simp add: demo_codec_def recorder_def DecodeLikeMessage_def)
qed

end
