(* ===== verification/Snowflake.thy ===== *)
theory Snowflake
  imports GoLib "HOL-Library.Word"
begin

unbundle bit_operations_syntax

text \<open>
  The snowflake id generator (\<open>post/pkg/snowid/snowflake.go\<close>, of which
  \<open>interaction/pkg/snowid/snowflake.go\<close> is a copy). An \<open>int64\<close> is a \<open>64 word\<close> read as two's
  complement: Go's \<open><\<close> is \<open><s\<close>, \<open>>>\<close> is \<open>signed_drop_bit\<close>. The wall clock is a function from
  the number of a reading to its value in milliseconds, so that every \<open>time.Now()\<close> of the code
  is a reading of its own, and the busy wait at the end of an exhausted millisecond is a loop
  over readings that may not end.
\<close>

section \<open>Constants and the layout of an id\<close>

type_synonym i64w = "64 word"

definition epoch :: i64w where
  "epoch = 1704067200000"

definition nodeIDBits :: nat where
  "nodeIDBits = 10"

definition sequenceBits :: nat where
  "sequenceBits = 12"

definition maxNodeID :: i64w where
  "maxNodeID = (- 1) XOR push_bit nodeIDBits (- 1)"

definition maxSequence :: i64w where
  "maxSequence = (- 1) XOR push_bit sequenceBits (- 1)"

definition nodeIDShift :: nat where
  "nodeIDShift = sequenceBits"

definition timestampShift :: nat where
  "timestampShift = sequenceBits + nodeIDBits"

record Snowflake =
  nodeID :: i64w
  sequence :: i64w
  lastTime :: i64w

lemma snow_consts [simp]:
  "maxNodeID = mask 10" "maxSequence = mask 12" "nodeIDShift = 12" "timestampShift = 22"
  by (simp_all add: maxNodeID_def maxSequence_def nodeIDShift_def timestampShift_def
      nodeIDBits_def sequenceBits_def mask_eq_exp_minus_1)

text \<open>The expression of the last two lines of \<open>Generate\<close> and the three of \<open>Parse\<close>.\<close>

definition compose :: "i64w \<Rightarrow> i64w \<Rightarrow> i64w \<Rightarrow> i64w" where
  "compose now node sq = push_bit timestampShift now OR push_bit nodeIDShift node OR sq"

definition Parse :: "i64w \<Rightarrow> i64w \<times> i64w \<times> i64w" where
  "Parse i = (signed_drop_bit timestampShift i + epoch,
              signed_drop_bit nodeIDShift i AND maxNodeID,
              i AND maxSequence)"

section \<open>Generating ids\<close>

text \<open>The busy wait: read the clock until it has passed \<open>last\<close>.\<close>

partial_function (option) spin :: "(nat \<Rightarrow> i64w) \<Rightarrow> i64w \<Rightarrow> nat \<Rightarrow> i64w \<Rightarrow> (i64w \<times> nat) option" where
  "spin clk lst i now =
     (if now \<le>s lst then spin clk lst (Suc i) (clk i - epoch) else Some (now, i))"

text \<open>
  \<open>Generate clk i s\<close> runs with the clock at reading \<open>i\<close>. The result is \<open>None\<close> if the busy
  wait never ends, else the id or error, the new state and the next reading.
\<close>

definition Generate :: "(nat \<Rightarrow> i64w) \<Rightarrow> nat \<Rightarrow> Snowflake \<Rightarrow> (i64w res \<times> Snowflake \<times> nat) option" where
  "Generate clk i s =
     (let now = clk i - epoch in
      if now <s lastTime s then Some (Inl (Errorf ''clock moved backwards''), s, Suc i)
      else if now = lastTime s then
        (let sq = (sequence s + 1) AND maxSequence in
         if sq = 0 then
           (case spin clk (lastTime s) (Suc i) now of
              None \<Rightarrow> None
            | Some (now', j) \<Rightarrow>
                Some (Inr (compose now' (nodeID s) sq), s\<lparr>sequence := sq, lastTime := now'\<rparr>, j))
         else Some (Inr (compose now (nodeID s) sq), s\<lparr>sequence := sq, lastTime := now\<rparr>, Suc i))
      else Some (Inr (compose now (nodeID s) 0), s\<lparr>sequence := 0, lastTime := now\<rparr>, Suc i))"

definition New :: "i64w \<Rightarrow> Snowflake res" where
  "New n = (if n <s 0 \<or> maxNodeID <s n then Inl ErrInvalidNodeID
            else Inr \<lparr>nodeID = n, sequence = 0, lastTime = 0\<rparr>)"

text \<open>
  The package variables: \<open>defaultNode\<close> is \<open>nil\<close> until \<open>once.Do\<close> has run, so one option
  holds both. \<open>Init\<close> returns its error (if any) and the new package state.
\<close>

definition Init :: "i64w \<Rightarrow> Snowflake option \<Rightarrow> err option \<times> Snowflake option" where
  "Init n dflt =
     (if n <s 0 \<or> maxNodeID <s n then (Some ErrInvalidNodeID, dflt)
      else (None, (case dflt of
                     None \<Rightarrow> Some \<lparr>nodeID = n, sequence = 0, lastTime = 0\<rparr>
                   | Some s \<Rightarrow> Some s)))"

definition NextID :: "(nat \<Rightarrow> i64w) \<Rightarrow> nat \<Rightarrow> Snowflake option \<Rightarrow>
    (i64w res \<times> Snowflake option \<times> nat) option" where
  "NextID clk i dflt = (case dflt of
       None \<Rightarrow> Some (Inl (Errorf ''snowflake not initialized, call Init() first''), None, i)
     | Some s \<Rightarrow> map_option (\<lambda>(r, s', j). (r, Some s', j)) (Generate clk i s))"

section \<open>Layout lemmas\<close>

definition fits :: "nat \<Rightarrow> i64w \<Rightarrow> bool" where
  "fits n w \<longleftrightarrow> take_bit n w = w"

lemma fits_bit: "fits n w \<Longrightarrow> n \<le> k \<Longrightarrow> \<not> bit w k"
  by (metis bit_take_bit_iff fits_def leD)

lemma fits_iff: "n < 64 \<Longrightarrow> fits n w \<longleftrightarrow> uint w < 2 ^ n"
  by (simp add: fits_def word_uint_eq_iff unsigned_take_bit_eq take_bit_int_eq_self_iff)

lemma compose_plus:
  assumes "fits 10 n" "fits 12 q"
  shows "compose t n q = push_bit 22 t + push_bit 12 n + q"
proof -
  have high: "\<not> bit n (k - 12)" if "22 \<le> k" for k
    using that by (intro fits_bit [OF assms(1)]) simp
  have "push_bit 22 t AND push_bit 12 n = (0 :: i64w)"
    by (rule bit_eqI) (auto simp: bit_simps high)
  then have 1: "push_bit 22 t + push_bit 12 n = push_bit 22 t OR push_bit 12 n"
    by (rule disjunctive_add_eq_or)
  have low: "\<not> bit q k" if "12 \<le> k" for k
    using that by (rule fits_bit [OF assms(2)])
  have "(push_bit 22 t OR push_bit 12 n) AND q = (0 :: i64w)"
    by (rule bit_eqI) (auto simp: bit_simps low)
  then have "(push_bit 22 t OR push_bit 12 n) + q = (push_bit 22 t OR push_bit 12 n) OR q"
    by (rule disjunctive_add_eq_or)
  with 1 show ?thesis by (simp add: compose_def or.assoc)
qed

lemma uint_compose:
  assumes "fits 41 t" "fits 10 n" "fits 12 q"
  shows "uint (compose t n q) = uint t * 2 ^ 22 + uint n * 2 ^ 12 + uint q"
proof -
  have b: "uint t < 2 ^ 41" "uint n < 2 ^ 10" "uint q < 2 ^ 12"
    using assms by (simp_all add: fits_iff)
  have t: "uint (push_bit 22 t) = uint t * 2 ^ 22"
    using b by (simp add: push_bit_eq_mult uint_word_ariths)
  have n: "uint (push_bit 12 n) = uint n * 2 ^ 12"
    using b by (simp add: push_bit_eq_mult uint_word_ariths)
  from b show ?thesis
    by (simp add: compose_plus assms uint_word_ariths(1) t n del: push_bit_numeral_minus_1)
qed

lemma Parse_compose:
  assumes "fits 41 t" "fits 10 n" "fits 12 q"
  shows "Parse (compose t n q) = (t + epoch, n, q)"
proof -
  have t: "\<not> bit t k" if "41 \<le> k" for k using assms(1) that by (rule fits_bit)
  have n: "\<not> bit n k" if "10 \<le> k" for k using assms(2) that by (rule fits_bit)
  have q: "\<not> bit q k" if "12 \<le> k" for k using assms(3) that by (rule fits_bit)
  have less: "k < 10" if "bit n k" for k using n [of k] that by (meson not_le)
  have qless: "k < 12" if "bit q k" for k using q [of k] that by (meson not_le)
  have 1: "signed_drop_bit 22 (compose t n q) = t"
    by (rule bit_eqI) (auto simp: compose_def bit_simps t n q)
  have 2: "signed_drop_bit 12 (compose t n q) AND mask 10 = n"
    by (rule bit_eqI) (auto simp: compose_def bit_simps n q dest: less)
  have 3: "compose t n q AND mask 12 = q"
    by (rule bit_eqI) (auto simp: compose_def bit_simps q dest: qless)
  from 1 2 3 show ?thesis by (simp add: Parse_def)
qed

lemma sint_small: "uint w < 2 ^ 63 \<Longrightarrow> sint w = uint (w :: i64w)"
proof -
  assume "uint w < 2 ^ 63"
  moreover have "- (2 ^ 63) \<le> uint w" by (rule order_trans [OF _ uint_ge_0]) simp
  ultimately show ?thesis
    by (simp only: sint_uint) (simp add: signed_take_bit_int_eq_self_iff)
qed

lemma fits41_sint: "fits 41 w \<Longrightarrow> sint w = uint w"
  by (rule sint_small) (simp add: fits_iff)

lemma sint_compose:
  assumes "fits 41 t" "fits 10 n" "fits 12 q"
  shows "sint (compose t n q) = uint t * 2 ^ 22 + uint n * 2 ^ 12 + uint q"
  using assms uint_compose [OF assms] by (subst sint_small) (simp_all add: fits_iff)

lemma next_seq:
  assumes "fits 12 q" "(q + 1) AND mask 12 \<noteq> 0"
  shows "fits 12 ((q + 1) AND mask 12)" "uint q < uint ((q + 1) AND mask 12)"
proof -
  show "fits 12 ((q + 1) AND mask 12)"
    by (simp add: fits_def flip: take_bit_eq_mask)
  have b: "uint q < 4096" using assms(1) by (simp add: fits_iff)
  then have "uint (take_bit 12 (q + 1)) = (uint q + 1) mod 4096"
    by (simp add: unsigned_take_bit_eq uint_word_ariths flip: take_bit_eq_mod)
       (simp add: take_bit_eq_mod)
  then have "uint ((q + 1) AND mask 12) = (uint q + 1) mod 4096"
    by (simp only: take_bit_eq_mask)
  moreover from this assms(2) have "(uint q + 1) mod 4096 \<noteq> 0"
    by (metis unsigned_eq_0_iff)
  ultimately show "uint q < uint ((q + 1) AND mask 12)"
    using b by (cases "uint q = 4095") auto
qed

section \<open>The invariant, and what one call does\<close>

definition sf_inv :: "Snowflake \<Rightarrow> bool" where
  "sf_inv s \<longleftrightarrow> fits 10 (nodeID s) \<and> fits 12 (sequence s) \<and> fits 41 (lastTime s)"

text \<open>The clock stays within the 41 bits of a timestamp: from 2024 to about 2093.\<close>

definition clock_ok :: "(nat \<Rightarrow> i64w) \<Rightarrow> bool" where
  "clock_ok clk \<longleftrightarrow> (\<forall>i. fits 41 (clk i - epoch))"

lemma spin_result:
  assumes "spin clk lst i now = Some (now', j)"
  shows "\<not> now' \<le>s lst" "i \<le> j" "now' = (if j = i then now else clk (j - 1) - epoch)"
proof -
  have "\<not> fst r \<le>s lst \<and> i \<le> snd r \<and> fst r = (if snd r = i then now else clk (snd r - 1) - epoch)"
    if "spin clk lst i now = Some r" for r
  proof (rule spin.raw_induct [where P = "\<lambda>clk lst i now r. \<not> fst r \<le>s lst \<and> i \<le> snd r \<and>
        fst r = (if snd r = i then now else clk (snd r - 1) - epoch)", OF _ that])
    fix f clk lst i now r
    assume IH: "\<And>clk lst i now r. f clk lst i now = Some r \<Longrightarrow> \<not> fst r \<le>s lst \<and> i \<le> snd r \<and>
        fst r = (if snd r = i then now else clk (snd r - 1) - epoch)"
      and eq: "(if now \<le>s lst then f clk lst (Suc i) (clk i - epoch) else Some (now, i)) = Some r"
    show "\<not> fst r \<le>s lst \<and> i \<le> snd r \<and>
        fst r = (if snd r = i then now else clk (snd r - 1) - epoch)"
    proof (cases "now \<le>s lst")
      case True
      with eq have "f clk lst (Suc i) (clk i - epoch) = Some r" by simp
      from IH [OF this] show ?thesis by auto
    next
      case False
      with eq show ?thesis by auto
    qed
  qed
  from this [OF assms] show "\<not> now' \<le>s lst" "i \<le> j"
    "now' = (if j = i then now else clk (j - 1) - epoch)" unfolding fst_conv snd_conv by blast+
qed

lemma spin_terminates:
  "\<not> clk (i + k) - epoch \<le>s lst \<Longrightarrow> \<exists>r. spin clk lst i now = Some r"
proof (induction k arbitrary: i now)
  case 0
  then show ?case by (subst spin.simps) (simp add: spin.simps [of clk lst "Suc i"])
next
  case (Suc k)
  then have "\<not> clk (Suc i + k) - epoch \<le>s lst" by simp
  from Suc.IH [OF this] show ?case by (subst spin.simps) simp
qed

lemma Generate_issue:
  assumes gen: "Generate clk i s = Some (Inr x, s', j)" and inv: "sf_inv s" and clk: "clock_ok clk"
  shows "sf_inv s'" "nodeID s' = nodeID s" "x = compose (lastTime s') (nodeID s') (sequence s')"
    "uint (lastTime s) < uint (lastTime s') \<or>
     (lastTime s' = lastTime s \<and> uint (sequence s) < uint (sequence s'))"
    "i < j" "lastTime s' = clk (j - 1) - epoch"
proof -
  define now where "now = clk i - epoch"
  have tm: "fits 41 (clk k - epoch)" for k using clk by (simp add: clock_ok_def)
  have nback: "\<not> now <s lastTime s"
    using gen by (auto simp: Generate_def now_def Let_def)
  consider (same) "now = lastTime s" "(sequence s + 1) AND mask 12 \<noteq> 0"
    | (wrap) "now = lastTime s" "(sequence s + 1) AND mask 12 = 0"
    | (later) "now \<noteq> lastTime s" by blast
  then have "sf_inv s' \<and> nodeID s' = nodeID s \<and> x = compose (lastTime s') (nodeID s') (sequence s') \<and>
    (uint (lastTime s) < uint (lastTime s') \<or>
     (lastTime s' = lastTime s \<and> uint (sequence s) < uint (sequence s'))) \<and>
    i < j \<and> lastTime s' = clk (j - 1) - epoch"
  proof cases
    case same
    with gen nback inv next_seq [of "sequence s"] show ?thesis
      by (auto simp: Generate_def Let_def now_def sf_inv_def)
  next
    case wrap
    with gen nback obtain now' where sp: "spin clk (lastTime s) (Suc i) now = Some (now', j)"
      and s': "s' = s\<lparr>sequence := 0, lastTime := now'\<rparr>" and x: "x = compose now' (nodeID s) 0"
      by (auto simp: Generate_def Let_def now_def split: option.splits)
    note res = spin_result [OF sp]
    have now': "now' = clk (j - 1) - epoch" using res by (auto simp: now_def)
    with tm have "fits 41 now'" by simp
    with inv s' x res now' show ?thesis
      by (auto simp: sf_inv_def word_sle_eq fits41_sint fits_def)
  next
    case later
    with nback inv tm have "uint (lastTime s) < uint now"
      by (auto simp: word_sless_alt sf_inv_def fits41_sint now_def word_uint_eq_iff less_le)
    with later gen nback inv tm show ?thesis
      by (auto simp: Generate_def Let_def now_def sf_inv_def fits_def)
  qed
  then show "sf_inv s'" "nodeID s' = nodeID s" "x = compose (lastTime s') (nodeID s') (sequence s')"
    "uint (lastTime s) < uint (lastTime s') \<or>
     (lastTime s' = lastTime s \<and> uint (sequence s) < uint (sequence s'))"
    "i < j" "lastTime s' = clk (j - 1) - epoch"
    by blast+
qed

lemma Generate_error:
  "Generate clk i s = Some (Inl e, s', j) \<Longrightarrow> s' = s"
  by (auto simp: Generate_def Let_def split: if_splits option.splits)

section \<open>The interface the repositories use\<close>

text \<open>
  Both repositories draw primary keys from \<open>NextID\<close>. What they rely on is the contract of the
  locale: a successful call returns an id above the rank of the state, which becomes the new rank,
  and a failed call leaves the rank alone. \<open>id_run nx n s\<close> makes \<open>n\<close> calls and collects the ids.
\<close>

fun id_run :: "('s \<Rightarrow> (int res \<times> 's) option) \<Rightarrow> nat \<Rightarrow> 's \<Rightarrow> (int list \<times> 's) option" where
  "id_run nx 0 s = Some ([], s)"
| "id_run nx (Suc n) s = (case nx s of
       None \<Rightarrow> None
     | Some (Inl e, s') \<Rightarrow> id_run nx n s'
     | Some (Inr i, s') \<Rightarrow> map_option (\<lambda>(is, t). (i # is, t)) (id_run nx n s'))"

locale id_source =
  fixes nx :: "'s \<Rightarrow> (int res \<times> 's) option"
    and ok :: "'s \<Rightarrow> bool"
    and rank :: "'s \<Rightarrow> int"
  assumes issue: "ok s \<Longrightarrow> nx s = Some (Inr i, s') \<Longrightarrow> ok s' \<and> rank s < i \<and> rank s' = i"
    and refuse: "ok s \<Longrightarrow> nx s = Some (Inl e, s') \<Longrightarrow> ok s' \<and> rank s' = rank s"
begin

lemma run_increasing: "ok s \<Longrightarrow> id_run nx n s = Some (is, t) \<Longrightarrow> sorted_wrt (<) (rank s # is)"
proof (induction n arbitrary: s "is")
  case 0
  then show ?case by simp
next
  case (Suc n)
  from Suc.prems(2) obtain r s' where nx: "nx s = Some (r, s')"
    by (auto split: option.splits)
  show ?case
  proof (cases r)
    case (Inl e)
    with Suc.prems nx have "id_run nx n s' = Some (is, t)" by simp
    with Suc.IH [of s' "is"] refuse [OF Suc.prems(1)] nx Inl show ?thesis by simp
  next
    case (Inr i)
    with Suc.prems nx obtain js where js: "id_run nx n s' = Some (js, t)" "is = i # js"
      by auto
    from issue [OF Suc.prems(1)] nx Inr have "ok s'" "rank s < i" "rank s' = i" by auto
    with Suc.IH [OF _ js(1)] js(2) show ?thesis by auto
  qed
qed

lemma run_distinct: "ok s \<Longrightarrow> id_run nx n s = Some (is, t) \<Longrightarrow> distinct is"
  using run_increasing by (fastforce simp: strict_sorted_iff)

end

text \<open>The generator as such a source: its state is the struct and the clock position.\<close>

definition sf_next :: "(nat \<Rightarrow> i64w) \<Rightarrow> Snowflake \<times> nat \<Rightarrow> (int res \<times> Snowflake \<times> nat) option" where
  "sf_next clk st = (case Generate clk (snd st) (fst st) of
       None \<Rightarrow> None
     | Some (Inl e, s', j) \<Rightarrow> Some (Inl e, s', j)
     | Some (Inr x, s', j) \<Rightarrow> Some (Inr (sint x), s', j))"

definition sf_ok :: "(nat \<Rightarrow> i64w) \<Rightarrow> Snowflake \<times> nat \<Rightarrow> bool" where
  "sf_ok clk st \<longleftrightarrow> sf_inv (fst st) \<and> clock_ok clk"

definition sf_rank :: "Snowflake \<times> nat \<Rightarrow> int" where
  "sf_rank st = sint (compose (lastTime (fst st)) (nodeID (fst st)) (sequence (fst st)))"

lemma sint_compose_less:
  assumes "fits 41 t" "fits 41 t'" "fits 10 n" "fits 12 q" "fits 12 q'"
    and "uint t < uint t' \<or> (t' = t \<and> uint q < uint q')"
  shows "sint (compose t n q) < sint (compose t' n q')"
proof -
  have q: "uint q < 4096" using assms by (simp add: fits_iff)
  from assms(6) have "uint t * 4194304 + uint q < uint t' * 4194304 + uint q'"
  proof
    assume "uint t < uint t'"
    then have "(uint t + 1) * 4194304 \<le> uint t' * 4194304" by (intro mult_right_mono) simp_all
    then have "uint t * 4194304 + 4194304 \<le> uint t' * 4194304" by simp
    with q uint_ge_0 [of q'] show ?thesis by linarith
  qed simp
  with assms show ?thesis by (simp add: sint_compose)
qed

interpretation snow: id_source "sf_next clk" "sf_ok clk" sf_rank for clk
proof
  fix s s' :: "Snowflake \<times> nat" and i
  assume ok: "sf_ok clk s" and nx: "sf_next clk s = Some (Inr i, s')"
  then obtain x where g: "Generate clk (snd s) (fst s) = Some (Inr x, fst s', snd s')"
    and i: "i = sint x"
    by (auto simp: sf_next_def split: option.splits sum.splits prod.splits)
  from ok have inv: "sf_inv (fst s)" "clock_ok clk" by (simp_all add: sf_ok_def)
  note iss = Generate_issue [OF g inv]
  from inv(1) iss sint_compose_less show "sf_ok clk s' \<and> sf_rank s < i \<and> sf_rank s' = i"
    by (simp add: sf_ok_def sf_rank_def sf_inv_def inv(2) i)
next
  fix s s' :: "Snowflake \<times> nat" and e
  assume "sf_ok clk s" and "sf_next clk s = Some (Inl e, s')"
  then show "sf_ok clk s' \<and> sf_rank s' = sf_rank s"
    by (auto simp: sf_next_def sf_ok_def sf_rank_def dest!: Generate_error
        split: option.splits sum.splits prod.splits)
qed

lemma New_inv: "New n = Inr s \<Longrightarrow> sf_inv s"
proof -
  assume new: "New n = Inr s"
  then have "\<not> n <s 0" "\<not> mask 10 <s n" by (auto simp: New_def split: if_splits)
  then have "0 \<le> sint n" "sint n \<le> 1023"
    by (simp_all add: word_sless_alt mask_eq_exp_minus_1)
  then have "uint n \<le> 1023"
    using uint_sint [of n] by (simp add: take_bit_int_eq_self)
  with new show ?thesis
    by (auto simp: New_def sf_inv_def fits_iff split: if_splits)
qed

section \<open>Properties\<close>

text \<open>
  C7: The ids one node issues are positive, distinct and strictly increasing, over any number of
  calls, across failed calls, exhausted milliseconds and repeated clock readings.
\<close>

theorem snowflake_ids_increasing:
  assumes new: "New n = Inr s" and clk: "clock_ok clk"
    and run: "id_run (sf_next clk) k (s, i) = Some (ids, t)"
  shows "sorted_wrt (<) ids \<and> distinct ids \<and> list_all (\<lambda>x. 0 < x) ids"
proof -
  have ok: "sf_ok clk (s, i)" using New_inv [OF new] clk by (simp add: sf_ok_def)
  from New_inv [OF new] have "0 \<le> sf_rank (s, i)"
    by (simp add: sf_rank_def sf_inv_def sint_compose)
  with snow.run_increasing [OF ok run] snow.run_distinct [OF ok run] show ?thesis
    by (force simp: list_all_iff)
qed

definition demo_clock :: "nat \<Rightarrow> i64w" where
  "demo_clock i = epoch + (if i < 3 then 5 else 6)"

lemma demo_clock_ok: "clock_ok demo_clock"
  by (simp add: clock_ok_def demo_clock_def fits_def)

lemma demo_new: "New 1 = Inr \<lparr>nodeID = 1, sequence = 0, lastTime = 0\<rparr>"
  by (simp add: New_def word_sless_alt mask_eq_exp_minus_1)

lemma demo_run:
  "id_run (sf_next demo_clock) (Suc (Suc (Suc (Suc 0)))) (\<lparr>nodeID = 1, sequence = 0, lastTime = 0\<rparr>, 0) =
    Some ([20975616, 20975617, 20975618, 25169920], \<lparr>nodeID = 1, sequence = 0, lastTime = 6\<rparr>, 4)"
  by (simp add: sf_next_def Generate_def demo_clock_def compose_def Let_def
      mask_eq_exp_minus_1 word_sless_alt)

theorem snowflake_ids_increasing_witness:
  "sorted_wrt (<) [20975616, 20975617, 20975618, 25169920 :: int] \<and>
   distinct [20975616, 20975617, 20975618, 25169920 :: int] \<and>
   list_all (\<lambda>x. 0 < x) [20975616, 20975617, 20975618, 25169920 :: int]"
  by (rule snowflake_ids_increasing [OF demo_new demo_clock_ok demo_run])

text \<open>
  An id decodes to what made it: \<open>Parse\<close> returns the node that issued the id, the sequence
  number the node is left with, and the very clock reading (in Unix milliseconds) it was stamped with.
\<close>

theorem snowflake_parse_roundtrip:
  assumes "Generate clk i s = Some (Inr x, s', j)" "sf_inv s" "clock_ok clk"
  shows "Parse x = (clk (j - 1), nodeID s, sequence s')"
  using Generate_issue [OF assms] by (simp add: sf_inv_def Parse_compose)

lemma demo_generate:
  "Generate demo_clock 0 \<lparr>nodeID = 3, sequence = 0, lastTime = 5\<rparr> =
    Some (Inr 20983809, \<lparr>nodeID = 3, sequence = 1, lastTime = 5\<rparr>, 1)"
  by (simp add: Generate_def demo_clock_def compose_def Let_def mask_eq_exp_minus_1)

lemma demo_inv: "sf_inv \<lparr>nodeID = 3, sequence = 0, lastTime = 5\<rparr>"
  by (simp add: sf_inv_def fits_def)

theorem snowflake_parse_roundtrip_witness:
  "Parse 20983809 = (1704067200005, 3, 1)"
  using snowflake_parse_roundtrip [OF demo_generate demo_inv demo_clock_ok]
  by (simp add: demo_clock_def epoch_def)

text \<open>
  Two nodes never issue the same id, whatever their clocks read: the post service
  (node 1) and the interaction service (node 3) need no coordination.
\<close>

theorem snowflake_nodes_disjoint:
  assumes "Generate clk i s = Some (Inr x, s', j)" "Generate clk' i' r = Some (Inr y, r', j')"
    and "sf_inv s" "sf_inv r" "clock_ok clk" "clock_ok clk'" and "nodeID s \<noteq> nodeID r"
  shows "x \<noteq> y"
proof
  assume "x = y"
  have "Parse x = (clk (j - 1), nodeID s, sequence s')"
    using Generate_issue [OF assms(1,3,5)] by (simp add: sf_inv_def Parse_compose)
  moreover have "Parse y = (clk' (j' - 1), nodeID r, sequence r')"
    using Generate_issue [OF assms(2,4,6)] by (simp add: sf_inv_def Parse_compose)
  ultimately show False using \<open>x = y\<close> assms(7) by simp
qed

lemma demo_generate1:
  "Generate demo_clock 0 \<lparr>nodeID = 1, sequence = 0, lastTime = 5\<rparr> =
    Some (Inr 20975617, \<lparr>nodeID = 1, sequence = 1, lastTime = 5\<rparr>, 1)"
  by (simp add: Generate_def demo_clock_def compose_def Let_def mask_eq_exp_minus_1)

theorem snowflake_nodes_disjoint_witness: "(20983809 :: i64w) \<noteq> 20975617"
  by (rule snowflake_nodes_disjoint [OF demo_generate demo_generate1 demo_inv _ demo_clock_ok
      demo_clock_ok]) (simp_all add: sf_inv_def fits_def)

text \<open>
  C8: \<open>Generate\<close> returns as soon as the clock ever passes the last timestamp: the busy wait of an
  exhausted millisecond ends. It fails exactly when the first reading is before that timestamp,
  and then the state is as before.
\<close>

theorem snowflake_generate_terminates:
  assumes "\<not> clk (Suc i + k) - epoch \<le>s lastTime s"
  shows "\<exists>r s' j. Generate clk i s = Some (r, s', j) \<and>
    (case r of Inl e \<Rightarrow> clk i - epoch <s lastTime s \<and> s' = s
             | Inr x \<Rightarrow> \<not> clk i - epoch <s lastTime s)"
proof -
  obtain now' j where "spin clk (lastTime s) (Suc i) (clk i - epoch) = Some (now', j)"
    using spin_terminates [of clk "Suc i" k "lastTime s" "clk i - epoch"] assms by auto
  then show ?thesis by (auto simp: Generate_def Let_def)
qed

theorem snowflake_generate_terminates_witness:
  "\<exists>r s' j. Generate demo_clock 0 \<lparr>nodeID = 1, sequence = 4095, lastTime = 5\<rparr> = Some (r, s', j) \<and>
    (case r of Inl e \<Rightarrow> demo_clock 0 - epoch <s 5 \<and> s' = \<lparr>nodeID = 1, sequence = 4095, lastTime = 5\<rparr>
             | Inr x \<Rightarrow> \<not> demo_clock 0 - epoch <s 5)"
proof -
  have "\<not> demo_clock (Suc 0 + 3) - epoch \<le>s lastTime \<lparr>nodeID = 1, sequence = 4095, lastTime = 5\<rparr>"
    by (simp add: demo_clock_def word_sle_eq)
  from snowflake_generate_terminates [of demo_clock 0 3, OF this] show ?thesis
    by (simp only: Snowflake.select_convs)
qed

end
