(* ===== verification/Startup.thy ===== *)
theory Startup
  imports PostSystem Snowflake
begin

text \<open>
  How the post service comes up (\<open>post/cmd/server/main.go\<close>, the first half of
  \<open>post/internal/svc/servicecontext.go\<close>) and the scheduler of the hourly job (\<open>post/internal/cron\<close>).
  The flag and file libraries, the MySQL driver, the cron library and the RPC server are arguments or
  end the model. The interaction service sets up its ids in the same way.
\<close>

section \<open>Opening the database\<close>

record MySQLConfig =
  DataSource :: string
  MaxOpenConns :: int
  MaxIdleConns :: int
  ConnMaxLifetime :: int
  ConnMaxIdleTime :: int

text \<open>
  The driver: parsing a data source name and printing it again, opening a pool, and its four settings,
  which configure the pool and return nothing.
\<close>

record 'w mysql_lib =
  myParseDSN :: "string \<Rightarrow> string res"
  myOpen :: "string \<Rightarrow> 'w \<Rightarrow> 'w post_sqlconn res \<times> 'w"
  mySetMaxOpenConns :: "int \<Rightarrow> 'w \<Rightarrow> 'w"
  mySetMaxIdleConns :: "int \<Rightarrow> 'w \<Rightarrow> 'w"
  mySetConnMaxLifetime :: "int \<Rightarrow> 'w \<Rightarrow> 'w"
  mySetConnMaxIdleTime :: "int \<Rightarrow> 'w \<Rightarrow> 'w"

text \<open>\<open>panic(err)\<close>\<close>

definition panics :: "err \<Rightarrow> err" where
  "panics e = (case e of Panic m \<Rightarrow> Panic m | _ \<Rightarrow> Panic ''panic(err)'')"

definition openDB :: "'w mysql_lib \<Rightarrow> MySQLConfig \<Rightarrow> 'w \<Rightarrow> 'w post_sqlconn res \<times> 'w" where
  "openDB M c w =
     (case myParseDSN M (DataSource c) of
        Inl err \<Rightarrow> (Inl (panics err), w)
      | Inr dsn \<Rightarrow>
          (case myOpen M dsn w of
             (Inl err, w1) \<Rightarrow> (Inl (panics err), w1)
           | (Inr db, w1) \<Rightarrow>
               (Inr db,
                mySetConnMaxIdleTime M (seconds (ConnMaxIdleTime c))
                 (mySetConnMaxLifetime M (seconds (ConnMaxLifetime c))
                  (mySetMaxIdleConns M (MaxIdleConns c)
                   (mySetMaxOpenConns M (MaxOpenConns c) w1))))))"

section \<open>The service\<close>

record PostServiceConfig =
  psc_MySQL :: MySQLConfig
  psc_Conf :: PostConfig

text \<open>
  All of \<open>NewServiceContext\<close>. \<open>MustNewRedis\<close> ends the process when the configuration is bad: a panic
  here. The context starts two goroutines before it is returned.
\<close>

datatype post_job = WarmupAfter int | ViewSyncEvery int

definition NewPostServiceContext ::
  "'f bloom_lib \<Rightarrow> (int \<Rightarrow> 'w \<Rightarrow> 'w bigcache res \<times> 'w) \<Rightarrow> 'w mysql_lib \<Rightarrow> ('w \<Rightarrow> 'w redis res \<times> 'w) \<Rightarrow>
   PostServiceConfig \<Rightarrow> 'w \<Rightarrow> (('f, 'w) PostSvc \<times> post_job list) res \<times> 'w" where
  "NewPostServiceContext L newBigCache M newRedis c w =
     (case openDB M (psc_MySQL c) w of
        (Inl e, w1) \<Rightarrow> (Inl e, w1)
      | (Inr db, w1) \<Rightarrow>
          (case newRedis w1 of
             (Inl e, w2) \<Rightarrow> (Inl (panics e), w2)
           | (Inr R, w2) \<Rightarrow>
               (case NewServiceContext L newBigCache (psc_Conf c) db R w2 of
                  (Inl e, w3) \<Rightarrow> (Inl e, w3)
                | (Inr s, w3) \<Rightarrow> (Inr (s, [WarmupAfter (2 * second), ViewSyncEvery (5 * 60 * second)]), w3))))"

text \<open>\<open>Stop\<close> of the context closes the syncer's channel; closing it twice is a run-time panic.\<close>

definition close_chan :: "bool \<Rightarrow> unit res \<times> bool" where
  "close_chan shut = (if shut then (Inl (Panic ''close of closed channel''), True) else (Inr (), True))"

definition ServiceContext_Stop :: "('f, 'w) PostSvc \<Rightarrow> bool \<Rightarrow> unit res \<times> bool" where
  "ServiceContext_Stop s shut =
     (case svc_ViewCountSync s of None \<Rightarrow> (Inr (), shut) | Some v \<Rightarrow> close_chan shut)"

section \<open>The scheduler\<close>

text \<open>
  The cron library runs the jobs registered with it while it is started. The scheduler registers one
  job; the error of \<open>AddFunc\<close> is not looked at.
\<close>

record 'c cron_lib =
  cronNew :: 'c
  cronAddFunc :: "string \<Rightarrow> 'c \<Rightarrow> unit res \<times> 'c"
  cronStart :: "'c \<Rightarrow> 'c"
  cronStop :: "'c \<Rightarrow> 'c"

record ('c, 'w) CronScheduler =
  cs_postRepo :: "'w postRepository"
  cs_hotPostSvc :: "'w HotPostService"
  cs_cron :: 'c
  cs_closed :: bool

definition NewCronScheduler :: "'c cron_lib \<Rightarrow> 'w postRepository \<Rightarrow> 'w HotPostService \<Rightarrow> ('c, 'w) CronScheduler" where
  "NewCronScheduler K postRepo hotPostSvc =
     \<lparr>cs_postRepo = postRepo, cs_hotPostSvc = hotPostSvc, cs_cron = cronNew K, cs_closed = False\<rparr>"

definition CronScheduler_Start :: "'c cron_lib \<Rightarrow> ('c, 'w) CronScheduler \<Rightarrow> ('c, 'w) CronScheduler" where
  "CronScheduler_Start K s = s\<lparr>cs_cron := cronStart K (snd (cronAddFunc K ''0 * * * *'' (cs_cron s)))\<rparr>"

definition CronScheduler_Stop :: "'c cron_lib \<Rightarrow> ('c, 'w) CronScheduler \<Rightarrow> unit res \<times> ('c, 'w) CronScheduler" where
  "CronScheduler_Stop K s =
     (let s1 = s\<lparr>cs_cron := cronStop K (cs_cron s)\<rparr>;
          (r, shut) = close_chan (cs_closed s1)
      in (r, s1\<lparr>cs_closed := shut\<rparr>))"

section \<open>main\<close>

text \<open>
  What \<open>main\<close> does before it serves: the id generator of the process, then the context. An error of
  \<open>Init\<close> is a panic.
\<close>

definition init_or_panic :: "i64w \<Rightarrow> Snowflake option \<Rightarrow> Snowflake option res" where
  "init_or_panic n d = (case Init n d of (Some err, d') \<Rightarrow> Inl (panics err) | (None, d') \<Rightarrow> Inr d')"

definition post_main ::
  "'f bloom_lib \<Rightarrow> (int \<Rightarrow> 'w \<Rightarrow> 'w bigcache res \<times> 'w) \<Rightarrow> 'w mysql_lib \<Rightarrow> ('w \<Rightarrow> 'w redis res \<times> 'w) \<Rightarrow>
   PostServiceConfig \<Rightarrow> 'w \<Rightarrow> (Snowflake option \<times> ('f, 'w) PostSvc \<times> post_job list) res \<times> 'w" where
  "post_main L newBigCache M newRedis c w =
     (case init_or_panic 1 None of
        Inl e \<Rightarrow> (Inl e, w)
      | Inr node \<Rightarrow>
          (case NewPostServiceContext L newBigCache M newRedis c w of
             (Inl e, w1) \<Rightarrow> (Inl e, w1)
           | (Inr (s, jobs), w1) \<Rightarrow> (Inr (node, s, jobs), w1)))"

definition interaction_node :: "Snowflake option res" where
  "interaction_node = init_or_panic 3 None"

section \<open>Ids of a process\<close>

text \<open>\<open>NextID\<close> as an id source on the package variables and the clock.\<close>

definition pkg_next :: "(nat \<Rightarrow> i64w) \<Rightarrow> Snowflake option \<times> nat \<Rightarrow> (int res \<times> Snowflake option \<times> nat) option" where
  "pkg_next clk st = (case NextID clk (snd st) (fst st) of
       None \<Rightarrow> None
     | Some (Inl e, d, j) \<Rightarrow> Some (Inl e, d, j)
     | Some (Inr x, d, j) \<Rightarrow> Some (Inr (sint x), d, j))"

lemma pkg_next_node:
  "pkg_next clk (Some s, i) = map_option (\<lambda>(r, s', j). (r, Some s', j)) (sf_next clk (s, i))"
  by (auto simp: pkg_next_def sf_next_def NextID_def split: option.split sum.split)

lemma pkg_run_node:
  "id_run (pkg_next clk) n (Some s, i) = map_option (\<lambda>(ids, t, j). (ids, Some t, j)) (id_run (sf_next clk) n (s, i))"
proof (induction n arbitrary: s i)
  case (Suc n)
  show ?case
  proof (cases "sf_next clk (s, i)")
    case (Some x)
    obtain r s' j where x: "x = (r, s', j)" by (cases x) auto
    show ?thesis
      by (cases r) (simp_all add: pkg_next_node Some x Suc.IH option.map_comp comp_def case_prod_unfold)
  qed (simp add: pkg_next_node)
qed simp

definition node_of :: "i64w \<Rightarrow> i64w" where
  "node_of x = fst (snd (Parse x))"

lemma run_node:
  assumes "sf_inv s" "clock_ok clk" "id_run (sf_next clk) n (s, i) = Some (ids, t)" "x \<in> set ids"
  shows "\<exists>w. x = sint w \<and> node_of w = nodeID s"
  using assms(1,3,4)
proof (induction n arbitrary: s i ids)
  case (Suc n)
  from Suc.prems(2) obtain r s' j where nx: "sf_next clk (s, i) = Some (r, s', j)"
    by (auto split: option.splits)
  have ok: "sf_ok clk (s, i)" using Suc.prems(1) assms(2) by (simp add: sf_ok_def)
  show ?case
  proof (cases r)
    case (Inl e)
    have "s' = s" using nx Inl by (auto simp: sf_next_def dest!: Generate_error split: option.splits sum.splits prod.splits)
    with Suc nx Inl show ?thesis by simp
  next
    case (Inr y)
    with nx obtain v where g: "Generate clk i s = Some (Inr v, s', j)" "y = sint v"
      by (auto simp: sf_next_def split: option.splits sum.splits)
    note iss = Generate_issue [OF g(1) Suc.prems(1) assms(2)]
    have v: "node_of v = nodeID s" using iss(1-3) by (simp add: node_of_def sf_inv_def Parse_compose)
    from Suc.prems(2,3) nx Inr obtain js where "id_run (sf_next clk) n (s', j) = Some (js, t)" "x = y \<or> x \<in> set js"
      by auto
    with Suc.IH [OF iss(1)] iss(2) v g(2) show ?thesis by auto
  qed
qed simp

text \<open>
  C6: Posts and likes share one id space: however often the post service and the interaction
  service ask for ids, with clocks of their own and through failed calls, the ids each process hands
  out after its main has run are increasing and no id is handed out by both, because main gives them
  nodes 1 and 3.
\<close>

theorem services_never_share_ids:
  assumes "post_main L newBigCache M newRedis c w = (Inr (node, s, jobs), w')" "interaction_node = Inr node'"
    and "clock_ok clk" "clock_ok clk'"
    and "id_run (pkg_next clk) n (node, i) = Some (ps, t)" "id_run (pkg_next clk') m (node', i') = Some (ls, t')"
  shows "sorted_wrt (<) ps \<and> sorted_wrt (<) ls \<and> distinct (ps @ ls)"
proof -
  have Ini: "init_or_panic k None = Inr (Some \<lparr>nodeID = k, sequence = 0, lastTime = 0\<rparr>)"
    "New k = Inr \<lparr>nodeID = k, sequence = 0, lastTime = 0\<rparr>" if "k = 1 \<or> k = 3" for k
    using that by (auto simp: init_or_panic_def Init_def New_def word_sless_alt mask_eq_exp_minus_1)
  have node: "node = Some \<lparr>nodeID = 1, sequence = 0, lastTime = 0\<rparr>" "node' = Some \<lparr>nodeID = 3, sequence = 0, lastTime = 0\<rparr>"
    using assms(1,2) Ini by (auto simp: post_main_def interaction_node_def split: sum.splits prod.splits)
  from assms(5,6) node obtain u u' where run:
    "id_run (sf_next clk) n (\<lparr>nodeID = 1, sequence = 0, lastTime = 0\<rparr>, i) = Some (ps, u)"
    "id_run (sf_next clk') m (\<lparr>nodeID = 3, sequence = 0, lastTime = 0\<rparr>, i') = Some (ls, u')"
    by (auto simp: pkg_run_node)
  have inv: "sf_inv \<lparr>nodeID = 1, sequence = 0, lastTime = 0\<rparr>" "sf_inv \<lparr>nodeID = 3, sequence = 0, lastTime = 0\<rparr>"
    using Ini(2) New_inv by blast+
  have inc: "sorted_wrt (<) (sf_rank (s0, k) # ids)" if "sf_inv s0" "clock_ok cl" "id_run (sf_next cl) l (s0, k) = Some (ids, v)"
    for s0 cl l k ids v
    by (rule snow.run_increasing [OF _ that(3)]) (simp add: sf_ok_def that)
  have "set ps \<inter> set ls = {}"
  proof (rule ccontr)
    assume "set ps \<inter> set ls \<noteq> {}"
    then obtain x where x: "x \<in> set ps" "x \<in> set ls" by blast
    from run_node [OF inv(1) assms(3) run(1) x(1)] run_node [OF inv(2) assms(4) run(2) x(2)]
    show False by (auto dest!: signed_word_eqI)
  qed
  with inc [OF inv(1) assms(3) run(1)] inc [OF inv(2) assms(4) run(2)] show ?thesis
    by (auto simp: strict_sorted_iff)
qed

definition demo_mysql :: "'w mysql_lib" where
  "demo_mysql = \<lparr>myParseDSN = Inr, myOpen = (\<lambda>dsn w. (Inr demo_db, w)), mySetMaxOpenConns = (\<lambda>n w. w),
     mySetMaxIdleConns = (\<lambda>n w. w), mySetConnMaxLifetime = (\<lambda>n w. w), mySetConnMaxIdleTime = (\<lambda>n w. w)\<rparr>"

definition demo_conf :: PostServiceConfig where
  "demo_conf = \<lparr>psc_MySQL = \<lparr>DataSource = ''dsn'', MaxOpenConns = 100, MaxIdleConns = 10, ConnMaxLifetime = 3600,
     ConnMaxIdleTime = 600\<rparr>, psc_Conf = demo_cfg\<rparr>"

lemma demo_init:
  "init_or_panic 1 None = Inr (Some \<lparr>nodeID = 1, sequence = 0, lastTime = 0\<rparr>)"
  "interaction_node = Inr (Some \<lparr>nodeID = 3, sequence = 0, lastTime = 0\<rparr>)"
  by (simp_all add: init_or_panic_def interaction_node_def Init_def word_sless_alt mask_eq_exp_minus_1)

lemma demo_main:
  "post_main list_bloom (\<lambda>ttl w. (Inr empty_bigcache, w)) demo_mysql (\<lambda>w. (Inr ok_redis, w)) demo_conf (0 :: int) =
     (Inr (Some \<lparr>nodeID = 1, sequence = 0, lastTime = 0\<rparr>, demo_ctx demo_db,
        [WarmupAfter (2 * second), ViewSyncEvery (5 * 60 * second)]), 0)"
  by (simp add: post_main_def demo_init NewPostServiceContext_def openDB_def demo_mysql_def demo_conf_def demo_ctx_new)

lemma demo_run3:
  "id_run (sf_next demo_clock) (Suc (Suc 0)) (\<lparr>nodeID = 3, sequence = 0, lastTime = 0\<rparr>, 0) =
    Some ([20983808, 20983809], \<lparr>nodeID = 3, sequence = 1, lastTime = 5\<rparr>, 2)"
  by (simp add: sf_next_def Generate_def demo_clock_def compose_def Let_def mask_eq_exp_minus_1 word_sless_alt)

theorem services_never_share_ids_witness:
  "distinct ([20975616, 20975617, 20975618, 25169920] @ [20983808, 20983809 :: int])"
proof -
  note R = demo_run demo_run3
  have P: "id_run (pkg_next demo_clock) (Suc (Suc (Suc (Suc 0)))) (Some \<lparr>nodeID = 1, sequence = 0, lastTime = 0\<rparr>, 0) =
      Some ([20975616, 20975617, 20975618, 25169920], Some \<lparr>nodeID = 1, sequence = 0, lastTime = 6\<rparr>, 4)"
    "id_run (pkg_next demo_clock) (Suc (Suc 0)) (Some \<lparr>nodeID = 3, sequence = 0, lastTime = 0\<rparr>, 0) =
      Some ([20983808, 20983809], Some \<lparr>nodeID = 3, sequence = 1, lastTime = 5\<rparr>, 2)"
    by (simp_all only: pkg_run_node R option.map prod.case)
  from services_never_share_ids [OF demo_main demo_init(2) demo_clock_ok demo_clock_ok P] show ?thesis by blast
qed

end
