(* ===== verification/InteractionMain.thy ===== *)
theory InteractionMain
  imports LikePipeline KafkaTiming Startup
begin

text \<open>
  How the interaction service comes up (\<open>interaction/cmd/server/main.go\<close>, \<open>internal/svc\<close>): the id
  generator, the context, and the first steps of the goroutines it starts. The two calls of main on
  the like syncer name methods that do not exist and are left out; the RPC server ends the model.
\<close>

section \<open>Goroutines with a ticker\<close>

text \<open>\<open>time.NewTicker\<close> panics for a duration that is not positive.\<close>

definition NewTicker :: "int \<Rightarrow> unit res" where
  "NewTicker d = (if d \<le> 0 then Inl (Panic ''non-positive interval for NewTicker'') else Inr ())"

text \<open>
  Starting a goroutine up to the first iteration of its loop: a panic in any goroutine ends the
  process. The checker starts two, of which the second has no ticker.
\<close>

definition BatchConsumer_Start :: "int \<Rightarrow> unit res" where
  "BatchConsumer_Start batchTimeout = NewTicker batchTimeout"

definition Checker_Start :: "'w LikeConsistencyChecker \<Rightarrow> unit res" where
  "Checker_Start c = NewTicker (ccc_CheckInterval (chk_config c))"

text \<open>\<open>Stop\<close> closes the channel both goroutines listen to and waits for them.\<close>

definition Checker_Stop :: "bool \<Rightarrow> unit res \<times> bool" where
  "Checker_Stop shut = close_chan shut"

section \<open>main\<close>

text \<open>The libraries: one connection at the types of its users, Redis, and the Kafka writer and reader.\<close>

record ('raw, 'w) ix_libs =
  xl_likeDB :: "'w like_conn"
  xl_db :: "'w check_conn"
  xl_newRedis :: "'w \<Rightarrow> 'w redis res \<times> 'w"
  xl_newWriter :: "WriterConfig \<Rightarrow> string \<Rightarrow> string \<Rightarrow> int \<Rightarrow> 'w \<Rightarrow> unit res \<times> 'w"
  xl_newReader :: "ReaderConfig \<Rightarrow> ('raw, 'w) Consumer"

definition context_consumer :: "(ReaderConfig \<Rightarrow> ('raw, 'w) Consumer) \<Rightarrow> InteractionConfig \<Rightarrow> ('raw, 'w) Consumer" where
  "context_consumer newReader c = NewConsumer newReader
     \<lparr>ccf_Brokers = kc_Brokers (ixc_Kafka c), ccf_Topic = kc_Topic (ixc_Kafka c), ccf_GroupId = kc_GroupId (ixc_Kafka c),
      ccf_BatchSize = ixc_KafkaBatchSize c, ccf_MaxWait = Duration (kc_BatchTimeout (ixc_Kafka c)) time_Second\<rparr>"

text \<open>
  What serves when \<open>main\<close> has got as far as its server: the id generator, the context, the consumer
  and the interval of its batch timer.
\<close>

record ('raw, 'w) ix_process =
  xp_node :: "Snowflake option"
  xp_ctx :: "'w InteractionContext"
  xp_consumer :: "('raw, 'w) Consumer"
  xp_batchTimeout :: int

definition interaction_main ::
  "('raw, 'w) ix_libs \<Rightarrow> InteractionConfig \<Rightarrow> 'w \<Rightarrow> ('raw, 'w) ix_process res \<times> 'w" where
  "interaction_main X c w =
     (case interaction_node of
        Inl e \<Rightarrow> (Inl e, w)
      | Inr node \<Rightarrow>
          (case xl_newRedis X w of
             (Inl e, w1) \<Rightarrow> (Inl (panics e), w1)
           | (Inr R, w1) \<Rightarrow>
               (let ctx = NewInteractionContext c (xl_likeDB X) (sqlconn.truncate (xl_db X)) (xl_db X) R (xl_newWriter X);
                    consumer = context_consumer (xl_newReader X) c;
                    batchTimeout = Duration (kc_BatchTimeout (ixc_Kafka c)) time_Second
                in case BatchConsumer_Start batchTimeout of
                     Inl e \<Rightarrow> (Inl e, w1)
                   | Inr _ \<Rightarrow>
                       (case Checker_Start (ic_LikeChecker ctx) of
                          Inl e \<Rightarrow> (Inl e, w1)
                        | Inr _ \<Rightarrow> (Inr \<lparr>xp_node = node, xp_ctx = ctx, xp_consumer = consumer,
                                        xp_batchTimeout = batchTimeout\<rparr>, w1)))))"

text \<open>The configuration file of the repository.\<close>

definition shipped_interaction :: InteractionConfig where
  "shipped_interaction = \<lparr>
     ixc_Kafka = \<lparr>kc_Brokers = [''127.0.0.1:9092''], kc_Topic = ''like-action'', kc_GroupId = ''interaction-group'',
       kc_BatchSize = 100, kc_BatchTimeout = 5\<rparr>,
     ixc_Check = \<lparr>ck_IntervalMinutes = 5, ck_BatchSize = 100, ck_AutoFix = True, ck_EnableAlarm = True, ck_AlarmThreshold = 10\<rparr>\<rparr>"

section \<open>When it comes up\<close>

lemma node_ok: "interaction_node = Inr (Some \<lparr>nodeID = 3, sequence = 0, lastTime = 0\<rparr>)"
  by (rule demo_init(2))

lemma context_interval:
  "ccc_CheckInterval (chk_config (ic_LikeChecker (NewInteractionContext c likeDB db checkDB R newWriter))) =
     Duration (ck_IntervalMinutes (ixc_Check c)) time_Minute"
  by (simp add: NewInteractionContext_def NewLikeConsistencyChecker_def Let_def)

lemma NewTicker_cases: "NewTicker d = (if 0 < d then Inr () else Inl (Panic ''non-positive interval for NewTicker''))"
  by (simp add: NewTicker_def)

text \<open>Multiples of a unit: they fit up to the largest int64, and turn negative after it.\<close>

lemma Duration_fits:
  assumes "0 < unit" "1 \<le> n" "n \<le> (2 ^ 63 - 1) div unit"
  shows "Duration n unit = n * unit"
proof -
  have "n * unit \<le> (2 ^ 63 - 1) div unit * unit" using assms by (intro mult_right_mono) simp_all
  also have "\<dots> \<le> 2 ^ 63 - 1" using assms(1) by (metis div_mult_mod_eq le_add_same_cancel1 pos_mod_sign)
  finally have "n * unit \<le> 2 ^ 63 - 1" .
  moreover have "0 \<le> n * unit" using assms by simp
  ultimately show ?thesis unfolding Duration_def by (intro i64_id) (simp add: is_int64_def)
qed

lemma Duration_wraps:
  assumes "2 ^ 63 \<le> n * unit" "n * unit < 2 ^ 64"
  shows "Duration n unit < 0"
proof -
  have "(n * unit + 2 ^ 63) mod 2 ^ 64 = n * unit - 2 ^ 63"
    by (rule int_mod_pos_eq [of _ _ 1]) (use assms in simp_all)
  with assms show ?thesis by (simp add: Duration_def i64_def wrap_signed_def)
qed

lemma interaction_main_up:
  "(\<exists>p w'. interaction_main X c w = (Inr p, w')) \<longleftrightarrow>
     (\<exists>R w'. xl_newRedis X w = (Inr R, w')) \<and> 0 < Duration (kc_BatchTimeout (ixc_Kafka c)) time_Second
       \<and> 0 < Duration (ck_IntervalMinutes (ixc_Check c)) time_Minute"
  by (cases "xl_newRedis X w"; cases "fst (xl_newRedis X w)")
    (auto simp: interaction_main_def node_ok BatchConsumer_Start_def Checker_Start_def context_interval NewTicker_cases Let_def)

definition comes_up :: "('raw, 'w) ix_libs \<Rightarrow> 'w \<Rightarrow> InteractionConfig \<Rightarrow> bool" where
  "comes_up X w c \<longleftrightarrow> (\<exists>p w'. interaction_main X c w = (Inr p, w'))"

abbreviation (input) "timeout c \<equiv> kc_BatchTimeout (ixc_Kafka c)"
abbreviation (input) "interval c \<equiv> ck_IntervalMinutes (ixc_Check c)"


definition demo_libs :: "(string, pipe_world) ix_libs" where
  "demo_libs = \<lparr>xl_likeDB = pipe_conn, xl_db = pipe_db, xl_newRedis = (\<lambda>w. (Inr pipe_redis, w)),
     xl_newWriter = (\<lambda>cfg k d t w. (Inr (), w)), xl_newReader = (\<lambda>cfg. \<lparr>con_value = (\<lambda>r. r), con_commit = (\<lambda>r w. (Inr (), w))\<rparr>)\<rparr>"


end
