(* ===== verification/Jwt.thy ===== *)
theory Jwt
  imports GoLib
begin

text \<open>
  Tokens: the claims the auth service and the gateway put into a JWT
  (\<open>auth/internal/pkg/jwt/jwt.go\<close>, \<open>api-gateway/internal/middleware/jwt.go\<close>), issuing and parsing them,
  and what the JWT library promises.
\<close>

section \<open>The library\<close>

text \<open>
  Both services embed \<open>RegisteredClaims\<close>. Its dates are pointers to times of whole seconds; the
  unused fields are left out.
\<close>

record JWTClaims =
  jc_UserID :: int
  jc_Username :: string
  jc_ExpiresAt :: "int option"
  jc_IssuedAt :: "int option"
  jc_NotBefore :: "int option"
  jc_Issuer :: string
  jc_Subject :: string

type_synonym Claims = JWTClaims

text \<open>\<open>token.Claims.(*JWTClaims)\<close> is \<open>None\<close> when the assertion fails.\<close>

record jwt_token =
  tok_Claims :: "JWTClaims option"
  tok_Valid :: bool

text \<open>
  \<open>NewWithClaims(method, claims).SignedString(key)\<close> and \<open>ParseWithClaims\<close>, which hands the
  token's method to the key function and looks at the time, in nanoseconds.
\<close>

record jwtlib =
  jwtSign :: "string \<Rightarrow> JWTClaims \<Rightarrow> string \<Rightarrow> string res"
  jwtParse :: "string \<Rightarrow> (string \<Rightarrow> string res) \<Rightarrow> int \<Rightarrow> jwt_token res"

definition HS256 :: string where "HS256 = ''HS256''"

text \<open>\<open>token.Method.(*jwt.SigningMethodHMAC)\<close>.\<close>

definition is_HMAC :: "string \<Rightarrow> bool" where
  "is_HMAC alg \<longleftrightarrow> alg \<in> {HS256, ''HS384'', ''HS512''}"

text \<open>\<open>now.Add(time.Duration(seconds) * time.Second)\<close>: the product wraps in int64.\<close>

definition add_seconds :: "int \<Rightarrow> int \<Rightarrow> int" where
  "add_seconds now n = now + i64 (n * 1000000000)"

text \<open>\<open>jwt.NewNumericDate\<close> keeps whole seconds.\<close>

definition NewNumericDate :: "int \<Rightarrow> int option" where
  "NewNumericDate t = Some (t div 1000000000)"

text \<open>\<open>err.Error()\<close>. The library sentinels stand for several texts; these are their fixed parts.\<close>

fun err_text :: "err \<Rightarrow> string" where
  "err_text ErrPostNotFound = ''post not found''"
| "err_text ErrCircuitBreakerOpen = ''circuit breaker is open''"
| "err_text ErrCircuitOpen = ''circuit breaker is open''"
| "err_text ErrTooManyRequests = ''too many requests''"
| "err_text ErrLockAcquireFailed = ''failed to acquire lock''"
| "err_text ErrLockTimeout = ''lock wait timeout''"
| "err_text ErrInvalidNodeID = ''node ID must be between 0 and 1023''"
| "err_text ErrLogicPostNotFound = ''post not found''"
| "err_text ErrUnauthorized = ''unauthorized: missing or invalid token''"
| "err_text ErrMissingToken = ''missing authorization token''"
| "err_text ErrInvalidTokenFormat = ''invalid authorization header format''"
| "err_text ErrInvalidToken = ''invalid token''"
| "err_text ErrTokenExpired = ''token has expired''"
| "err_text ErrSqlNoRows = ''sql: no rows in result set''"
| "err_text ErrRedisNotFound = ''redis: nil''"
| "err_text ErrCtx = ''context canceled''"
| "err_text ErrStrconv = ''strconv: parsing''"
| "err_text (ErrLib s) = s"
| "err_text (Errorf s) = s"
| "err_text (Wrap m e) = m @ '': '' @ err_text e"
| "err_text (Panic s) = s"

section \<open>The gateway's tokens\<close>

definition Gateway_GenerateToken ::
  "jwtlib \<Rightarrow> int \<Rightarrow> int \<Rightarrow> string \<Rightarrow> string \<Rightarrow> int \<Rightarrow> string res" where
  "Gateway_GenerateToken J now userID username secret expireSeconds =
     jwtSign J HS256
       \<lparr>jc_UserID = userID, jc_Username = username,
        jc_ExpiresAt = NewNumericDate (add_seconds now expireSeconds),
        jc_IssuedAt = NewNumericDate now, jc_NotBefore = NewNumericDate now, jc_Issuer = [], jc_Subject = []\<rparr> secret"

definition Gateway_ParseToken :: "jwtlib \<Rightarrow> int \<Rightarrow> string \<Rightarrow> string \<Rightarrow> JWTClaims res" where
  "Gateway_ParseToken J now tokenString secret =
     (case jwtParse J tokenString (\<lambda>alg. if \<not> is_HMAC alg then Inl ErrInvalidToken else Inr secret) now of
        Inl err \<Rightarrow> Inl err
      | Inr token \<Rightarrow>
          (case tok_Claims token of
             None \<Rightarrow> Inl ErrInvalidToken
           | Some claims \<Rightarrow> if \<not> tok_Valid token then Inl ErrInvalidToken else Inr claims))"

section \<open>The auth service's tokens\<close>

definition Auth_GenerateToken ::
  "jwtlib \<Rightarrow> int \<Rightarrow> int \<Rightarrow> string \<Rightarrow> string \<Rightarrow> int \<Rightarrow> string res" where
  "Auth_GenerateToken J now userID username secret expire =
     jwtSign J HS256
       \<lparr>jc_UserID = userID, jc_Username = username,
        jc_ExpiresAt = NewNumericDate (add_seconds now expire),
        jc_IssuedAt = NewNumericDate now, jc_NotBefore = NewNumericDate now,
        jc_Issuer = ''auth-service'', jc_Subject = show_int userID\<rparr> secret"

definition Auth_ParseToken :: "jwtlib \<Rightarrow> int \<Rightarrow> string \<Rightarrow> string \<Rightarrow> Claims res" where
  "Auth_ParseToken J now tokenString secret =
     (case jwtParse J tokenString
             (\<lambda>alg. if \<not> is_HMAC alg then Inl (Errorf (''unexpected signing method: '' @ alg)) else Inr secret) now of
        Inl err \<Rightarrow> Inl err
      | Inr token \<Rightarrow>
          (case tok_Claims token of
             Some claims \<Rightarrow> if tok_Valid token then Inr claims else Inl (Errorf ''invalid token'')
           | None \<Rightarrow> Inl (Errorf ''invalid token'')))"

section \<open>What the library promises\<close>

text \<open>The dates of the claims at a time: not expired, issued and valid already.\<close>

definition current :: "JWTClaims \<Rightarrow> int \<Rightarrow> bool" where
  "current c now \<longleftrightarrow>
     (case jc_ExpiresAt c of None \<Rightarrow> True | Some e \<Rightarrow> now < e * 1000000000) \<and>
     (case jc_IssuedAt c of None \<Rightarrow> True | Some i \<Rightarrow> i * 1000000000 \<le> now) \<and>
     (case jc_NotBefore c of None \<Rightarrow> True | Some n \<Rightarrow> n * 1000000000 \<le> now)"

definition expired :: "JWTClaims \<Rightarrow> int \<Rightarrow> bool" where
  "expired c now \<longleftrightarrow> (case jc_ExpiresAt c of None \<Rightarrow> False | Some e \<Rightarrow> e * 1000000000 \<le> now)"

definition expired_msg :: string where "expired_msg = ''token is expired''"

text \<open>
  Documented behaviour of the library: \<open>dec\<close> reads the method and the claims of a text that is a
  token, \<open>sig\<close> is the verification of its signature under a key. The signature is checked
  first, with the key of the key function; then the dates. The message about expiry is
  given for expired claims only, and signing makes a text that verifies and decodes (for claims
  that JSON can carry, which \<open>plain\<close> are).
\<close>

definition jwt_laws ::
  "jwtlib \<Rightarrow> (string \<Rightarrow> (string \<times> JWTClaims) option) \<Rightarrow> (string \<Rightarrow> string \<Rightarrow> bool) \<Rightarrow> bool" where
  "jwt_laws J dec sig \<longleftrightarrow> (\<forall>t kf now.
     case dec t of
       None \<Rightarrow> \<exists>e. jwtParse J t kf now = Inl e
     | Some (alg, c) \<Rightarrow>
         (case kf alg of
            Inl _ \<Rightarrow> \<exists>e. jwtParse J t kf now = Inl e
          | Inr k \<Rightarrow>
              if \<not> sig t k then \<exists>e. jwtParse J t kf now = Inl e \<and> \<not> contains (err_text e) expired_msg
              else if current c now then jwtParse J t kf now = Inr \<lparr>tok_Claims = Some c, tok_Valid = True\<rparr>
              else \<exists>e. jwtParse J t kf now = Inl e \<and> (contains (err_text e) expired_msg \<longrightarrow> expired c now)))"

definition jwt_signs ::
  "jwtlib \<Rightarrow> (string \<Rightarrow> (string \<times> JWTClaims) option) \<Rightarrow> (string \<Rightarrow> string \<Rightarrow> bool) \<Rightarrow> (JWTClaims \<Rightarrow> bool) \<Rightarrow> bool" where
  "jwt_signs J dec sig plain \<longleftrightarrow>
     (\<forall>alg c k t. jwtSign J alg c k = Inr t \<longrightarrow> plain c \<longrightarrow> dec t = Some (alg, c) \<and> sig t k)"

lemma expired_later: "expired c now \<Longrightarrow> now \<le> now' \<Longrightarrow> \<not> current c now'"
  by (auto simp: expired_def current_def split: option.splits)

text \<open>Tokens both services accept: signed with the secret by HMAC, and current.\<close>

definition accepted ::
  "(string \<Rightarrow> (string \<times> JWTClaims) option) \<Rightarrow> (string \<Rightarrow> string \<Rightarrow> bool) \<Rightarrow> int \<Rightarrow> string \<Rightarrow> string \<Rightarrow> JWTClaims \<Rightarrow> bool" where
  "accepted dec sig now secret t c \<longleftrightarrow> (\<exists>alg. dec t = Some (alg, c) \<and> is_HMAC alg) \<and> sig t secret \<and> current c now"

text \<open>A parse whose key function gives the secret to the HMAC methods only.\<close>

lemma hmac_parse_iff:
  assumes "jwt_laws J dec sig" "\<And>alg. kf alg = (if \<not> is_HMAC alg then Inl (err alg) else Inr secret)"
  shows "(\<exists>tok. jwtParse J t kf now = Inr tok \<and> tok_Valid tok \<and> tok_Claims tok = Some c) \<longleftrightarrow>
    accepted dec sig now secret t c"
  using assms(1) [unfolded jwt_laws_def, rule_format, of t kf now]
  by (cases "dec t") (auto simp: accepted_def assms(2) split: if_splits)

lemma Gateway_ParseToken_iff:
  assumes "jwt_laws J dec sig"
  shows "Gateway_ParseToken J now t secret = Inr c \<longleftrightarrow> accepted dec sig now secret t c"
proof -
  let ?kf = "\<lambda>alg. if \<not> is_HMAC alg then Inl (ErrInvalidToken) else Inr secret"
  have "(\<exists>tok. jwtParse J t ?kf now = Inr tok \<and> tok_Valid tok \<and> tok_Claims tok = Some c) \<longleftrightarrow> accepted dec sig now secret t c"
    by (rule hmac_parse_iff [OF assms]) (rule refl)
  then show ?thesis
    unfolding Gateway_ParseToken_def by (cases "jwtParse J t ?kf now") (auto split: option.splits)
qed

lemma Auth_ParseToken_iff:
  assumes "jwt_laws J dec sig"
  shows "Auth_ParseToken J now t secret = Inr c \<longleftrightarrow> accepted dec sig now secret t c"
proof -
  let ?kf = "\<lambda>alg. if \<not> is_HMAC alg then Inl (Errorf (''unexpected signing method: '' @ alg)) else Inr secret"
  have "(\<exists>tok. jwtParse J t ?kf now = Inr tok \<and> tok_Valid tok \<and> tok_Claims tok = Some c) \<longleftrightarrow> accepted dec sig now secret t c"
    by (rule hmac_parse_iff [OF assms]) (rule refl)
  then show ?thesis
    unfolding Auth_ParseToken_def by (cases "jwtParse J t ?kf now") (auto split: option.splits)
qed

text \<open>The message about expiry comes from an expired token under the right secret only.\<close>

lemma Gateway_ParseToken_expired:
  assumes "jwt_laws J dec sig" "Gateway_ParseToken J now t secret = Inl e" "contains (err_text e) expired_msg"
    and "now \<le> now'"
  shows "\<not> accepted dec sig now' secret' t c"
proof
  assume a: "accepted dec sig now' secret' t c"
  then obtain alg where d: "dec t = Some (alg, c)" "is_HMAC alg" "current c now'"
    by (auto simp: accepted_def)
  let ?kf = "\<lambda>alg. if \<not> is_HMAC alg then Inl ErrInvalidToken else Inr secret"
  have "\<not> contains (err_text ErrInvalidToken) expired_msg" by (simp add: expired_msg_def)
  with assms(1) [unfolded jwt_laws_def, rule_format, of t ?kf now] assms(2,3) d have "expired c now"
    by (auto simp: Gateway_ParseToken_def split: if_splits)
  with expired_later assms(4) d(3) show False by blast
qed

text \<open>A lifetime that fits keeps a fresh token current until it ends.\<close>

lemma fresh_current:
  assumes "is_int64 (n * 1000000000)" "now \<le> t" "t < (now div 1000000000 + n) * 1000000000"
    and "jc_ExpiresAt c = NewNumericDate (add_seconds now n)" "jc_IssuedAt c = NewNumericDate now"
    and "jc_NotBefore c = NewNumericDate now"
  shows "current c t"
proof -
  have "(now + n * 1000000000) div 1000000000 = now div 1000000000 + n" by simp
  moreover have "now div 1000000000 * 1000000000 \<le> now" by presburger
  ultimately show ?thesis
    using assms by (simp add: current_def NewNumericDate_def add_seconds_def)
qed

section \<open>A library for examples\<close>

text \<open>It knows one token, over fixed claims and one secret.\<close>

definition one_dec :: "JWTClaims \<Rightarrow> string \<Rightarrow> (string \<times> JWTClaims) option" where
  "one_dec c t = (if t = ''tok'' then Some (HS256, c) else None)"

definition one_sig :: "string \<Rightarrow> string \<Rightarrow> bool" where
  "one_sig t k \<longleftrightarrow> t = ''tok'' \<and> k = ''s3cret''"

definition one_jwt :: "JWTClaims \<Rightarrow> jwtlib" where
  "one_jwt c = \<lparr>
     jwtSign = (\<lambda>alg c' k. if alg = HS256 \<and> c' = c \<and> k = ''s3cret'' then Inr ''tok'' else Inl (ErrLib ''key'')),
     jwtParse = (\<lambda>t kf now.
       case one_dec c t of
         None \<Rightarrow> Inl (ErrLib ''token contains an invalid number of segments'')
       | Some (alg, c) \<Rightarrow>
           (case kf alg of
              Inl e \<Rightarrow> Inl e
            | Inr k \<Rightarrow>
                if \<not> one_sig t k then Inl (ErrLib ''signature is invalid'')
                else if current c now then Inr \<lparr>tok_Claims = Some c, tok_Valid = True\<rparr>
                else if expired c now then Inl (ErrLib ''token is expired by 1s'')
                else Inl (ErrLib ''token is not valid yet'')))\<rparr>"

lemma one_jwt_laws: "jwt_laws (one_jwt c) (one_dec c) one_sig"
  by (auto simp: jwt_laws_def one_jwt_def one_dec_def expired_msg_def split: sum.split)

lemma one_jwt_signs: "jwt_signs (one_jwt c) (one_dec c) one_sig plain"
  by (auto simp: jwt_signs_def one_jwt_def one_dec_def one_sig_def)

end
