(* ===== verification/AuthService.thy ===== *)
theory AuthService
  imports External Jwt
begin

text \<open>
  The auth service: users table (\<open>auth/internal/repository\<close>), login and registration
  (\<open>auth/internal/logic\<close>), server and context (\<open>auth/internal/server\<close>, \<open>auth/internal/svc\<close>).
\<close>

section \<open>The user repository\<close>

record User =
  user_ID :: int
  user_Username :: string
  user_PasswordHash :: string
  user_Email :: string

record 'w auth_sqlconn = "'w sqlconn" +
  dbQueryUser :: "(User, 'w) query"

record 'w userRepository =
  ur_db :: "'w auth_sqlconn"

definition NewUserRepository :: "'w auth_sqlconn \<Rightarrow> 'w userRepository" where
  "NewUserRepository db = \<lparr>ur_db = db\<rparr>"

definition loginSQL :: string where
  "loginSQL = ''SELECT id, username, password_hash, email FROM users WHERE username=? AND password_hash=?''"

definition insertUserSQL :: string where
  "insertUserSQL = ''INSERT INTO users(username, password_hash, email) VALUES(?, ?, ?)''"

definition userByIDSQL :: string where
  "userByIDSQL = ''SELECT id, username, password_hash, email FROM users WHERE id=?''"

text \<open>The pointer is nil (\<open>None\<close>) only in \<open>FindByID\<close>.\<close>

definition FindByUsernameAndPassword ::
  "'w userRepository \<Rightarrow> string \<Rightarrow> string \<Rightarrow> 'w \<Rightarrow> User option res \<times> 'w" where
  "FindByUsernameAndPassword r username password w =
     (case dbQueryUser (ur_db r) loginSQL [SStr username, SStr password] w of
        (Inl err, w') \<Rightarrow> (Inl err, w')
      | (Inr user, w') \<Rightarrow> (Inr (Some user), w'))"

definition User_Create :: "'w userRepository \<Rightarrow> User \<Rightarrow> 'w \<Rightarrow> int res \<times> 'w" where
  "User_Create r user w =
     (case dbExec (ur_db r) insertUserSQL
             [SStr (user_Username user), SStr (user_PasswordHash user), SStr (user_Email user)] w of
        (Inl err, w') \<Rightarrow> (Inl err, w')
      | (Inr result, w') \<Rightarrow> (lastInsertId result, w'))"

definition User_FindByID :: "'w userRepository \<Rightarrow> int \<Rightarrow> 'w \<Rightarrow> User option res \<times> 'w" where
  "User_FindByID r i w =
     (case dbQueryUser (ur_db r) userByIDSQL [SInt i] w of
        (Inl err, w') \<Rightarrow> (if err = ErrSqlNoRows then (Inr None, w') else (Inl err, w'))
      | (Inr user, w') \<Rightarrow> (Inr (Some user), w'))"

section \<open>Login and registration\<close>

record UserInfo =
  ui_Id :: int
  ui_Username :: string
  ui_Email :: string

record AuthLoginResponse =
  lr_Token :: string
  lr_UserInfo :: UserInfo

record AuthRegisterRequest =
  rr_Username :: string
  rr_Password :: string
  rr_Email :: string

record AuthConfig =
  AccessSecret :: string
  AccessExpire :: int

record AuthMySQLConfig =
  amc_DataSource :: string

text \<open>The part of the configuration that is not the framework's.\<close>

record AuthServiceConfig =
  JwtAuth :: AuthConfig
  asc_MySQL :: AuthMySQLConfig

record 'w AuthSvc =
  as_Config :: AuthServiceConfig
  as_DB :: "'w auth_sqlconn"
  as_UserRepo :: "'w userRepository"

text \<open>\<open>sqlx.NewMysql\<close> connects with the first statement, so it cannot fail.\<close>

definition NewAuthServiceContext :: "(string \<Rightarrow> 'w auth_sqlconn) \<Rightarrow> AuthServiceConfig \<Rightarrow> 'w AuthSvc" where
  "NewAuthServiceContext newMysql c =
     (let db = newMysql (amc_DataSource (asc_MySQL c))
      in \<lparr>as_Config = c, as_DB = db, as_UserRepo = NewUserRepository db\<rparr>)"

text \<open>The end of each handler: a token and the answer with it.\<close>

definition LoginWithUser :: "('w \<Rightarrow> int) \<Rightarrow> jwtlib \<Rightarrow> 'w AuthSvc \<Rightarrow> User \<Rightarrow> 'w \<Rightarrow> AuthLoginResponse res \<times> 'w" where
  "LoginWithUser clk J s user w =
     (case Auth_GenerateToken J (clk w) (user_ID user) (user_Username user)
             (AccessSecret (JwtAuth (as_Config s))) (AccessExpire (JwtAuth (as_Config s))) of
        Inl err \<Rightarrow> (Inl err, w)
      | Inr token \<Rightarrow>
          (Inr \<lparr>lr_Token = token,
             lr_UserInfo = \<lparr>ui_Id = user_ID user, ui_Username = user_Username user, ui_Email = user_Email user\<rparr>\<rparr>, w))"

definition Auth_Login ::
  "('w \<Rightarrow> int) \<Rightarrow> jwtlib \<Rightarrow> 'w AuthSvc \<Rightarrow> string \<Rightarrow> string \<Rightarrow> 'w \<Rightarrow> AuthLoginResponse res \<times> 'w" where
  "Auth_Login clk J s username password w =
     (case FindByUsernameAndPassword (as_UserRepo s) username password w of
        (Inl err, w1) \<Rightarrow> (Inl err, w1)
      | (Inr None, w1) \<Rightarrow> (Inl (Errorf ''invalid username or password''), w1)
      | (Inr (Some user), w1) \<Rightarrow>
          (case Auth_GenerateToken J (clk w1) (user_ID user) (user_Username user)
                  (AccessSecret (JwtAuth (as_Config s))) (AccessExpire (JwtAuth (as_Config s))) of
             Inl err \<Rightarrow> (Inl err, w1)
           | Inr token \<Rightarrow>
               (Inr \<lparr>lr_Token = token,
                  lr_UserInfo = \<lparr>ui_Id = user_ID user, ui_Username = user_Username user,
                                 ui_Email = user_Email user\<rparr>\<rparr>, w1)))"

definition Auth_Register ::
  "('w \<Rightarrow> int) \<Rightarrow> jwtlib \<Rightarrow> 'w AuthSvc \<Rightarrow> AuthRegisterRequest \<Rightarrow> 'w \<Rightarrow> AuthLoginResponse res \<times> 'w" where
  "Auth_Register clk J s req w =
     (case User_Create (as_UserRepo s)
             \<lparr>user_ID = 0, user_Username = rr_Username req, user_PasswordHash = rr_Password req,
              user_Email = rr_Email req\<rparr> w of
        (Inl err, w1) \<Rightarrow> (Inl err, w1)
      | (Inr userID, w1) \<Rightarrow>
          (case Auth_GenerateToken J (clk w1) userID (rr_Username req)
                  (AccessSecret (JwtAuth (as_Config s))) (AccessExpire (JwtAuth (as_Config s))) of
             Inl err \<Rightarrow> (Inl err, w1)
           | Inr token \<Rightarrow>
               (Inr \<lparr>lr_Token = token,
                  lr_UserInfo = \<lparr>ui_Id = userID, ui_Username = rr_Username req, ui_Email = rr_Email req\<rparr>\<rparr>, w1)))"

datatype auth_rpc = RpcRegister AuthRegisterRequest | RpcLogin string string

fun AuthServer :: "('w \<Rightarrow> int) \<Rightarrow> jwtlib \<Rightarrow> 'w AuthSvc \<Rightarrow> auth_rpc \<Rightarrow> 'w \<Rightarrow> AuthLoginResponse res \<times> 'w" where
  "AuthServer clk J s (RpcRegister req) w = Auth_Register clk J s req w"
| "AuthServer clk J s (RpcLogin username password) w = Auth_Login clk J s username password w"

section \<open>The users table\<close>

text \<open>
  Documented behaviour of the three statements on the table of \<open>sql/user.sql\<close>, over a view of its rows:
  names and e-mails are unique, and texts are compared by the table's collation \<open>eq\<close>, which
  need not tell cases apart (it is \<open>utf8mb4_unicode_ci\<close>).
\<close>

definition users_table ::
  "'w auth_sqlconn \<Rightarrow> ('w \<Rightarrow> User list) \<Rightarrow> (string \<Rightarrow> string \<Rightarrow> bool) \<Rightarrow> bool" where
  "users_table db tb eq \<longleftrightarrow>
     (\<forall>n p w. dbQueryUser db loginSQL [SStr n, SStr p] w =
        (case filter (\<lambda>u. eq (user_Username u) n \<and> eq (user_PasswordHash u) p) (tb w) of
           [] \<Rightarrow> Inl ErrSqlNoRows | u # _ \<Rightarrow> Inr u, w)) \<and>
     (\<forall>n p m w. \<exists>r w'. dbExec db insertUserSQL [SStr n, SStr p, SStr m] w = (r, w') \<and>
        (case r of
           Inl _ \<Rightarrow> tb w' = tb w
         | Inr x \<Rightarrow> (\<forall>u \<in> set (tb w). \<not> eq (user_Username u) n) \<and>
             (\<exists>i. lastInsertId x = Inr i \<and> tb w' = tb w @
                [\<lparr>user_ID = i, user_Username = n, user_PasswordHash = p, user_Email = m\<rparr>])))"

definition collation :: "(string \<Rightarrow> string \<Rightarrow> bool) \<Rightarrow> bool" where
  "collation eq \<longleftrightarrow> reflp eq \<and> symp eq \<and> transp eq"

lemma users_loginD:
  assumes "users_table db tb eq"
  shows "dbQueryUser db loginSQL [SStr n, SStr p] w =
    (case filter (\<lambda>u. eq (user_Username u) n \<and> eq (user_PasswordHash u) p) (tb w) of
       [] \<Rightarrow> Inl ErrSqlNoRows | u # _ \<Rightarrow> Inr u, w)"
  using assms by (simp add: users_table_def)

lemma users_insertD:
  assumes "users_table db tb eq"
  obtains r w' where "dbExec db insertUserSQL [SStr n, SStr p, SStr m] w = (r, w')"
    "case r of Inl _ \<Rightarrow> tb w' = tb w
     | Inr x \<Rightarrow> (\<forall>u \<in> set (tb w). \<not> eq (user_Username u) n) \<and>
         (\<exists>i. lastInsertId x = Inr i \<and> tb w' = tb w @
            [\<lparr>user_ID = i, user_Username = n, user_PasswordHash = p, user_Email = m\<rparr>])"
  using assms [unfolded users_table_def, THEN conjunct2, rule_format, of n p m w] that by blast

lemma register_inserts:
  assumes "users_table (ur_db (as_UserRepo s)) tb eq" "Auth_Register clk J s req w = (Inr resp, w')"
  shows "ui_Username (lr_UserInfo resp) = rr_Username req"
    and "\<forall>u \<in> set (tb w). \<not> eq (user_Username u) (rr_Username req)"
    and "tb w' = tb w @ [\<lparr>user_ID = ui_Id (lr_UserInfo resp), user_Username = rr_Username req,
      user_PasswordHash = rr_Password req, user_Email = rr_Email req\<rparr>]"
proof -
  obtain r w1 where ins: "dbExec (ur_db (as_UserRepo s)) insertUserSQL
      [SStr (rr_Username req), SStr (rr_Password req), SStr (rr_Email req)] w = (r, w1)"
    and law: "case r of Inl _ \<Rightarrow> tb w1 = tb w
       | Inr x \<Rightarrow> (\<forall>u \<in> set (tb w). \<not> eq (user_Username u) (rr_Username req)) \<and>
           (\<exists>i. lastInsertId x = Inr i \<and> tb w1 = tb w @
              [\<lparr>user_ID = i, user_Username = rr_Username req, user_PasswordHash = rr_Password req,
                user_Email = rr_Email req\<rparr>])"
    by (rule users_insertD [OF assms(1)])
  obtain x where x: "r = Inr x"
    using assms(2) ins by (cases r) (simp_all add: Auth_Register_def User_Create_def)
  with law obtain i where i: "lastInsertId x = Inr i" "\<forall>u \<in> set (tb w). \<not> eq (user_Username u) (rr_Username req)"
    "tb w1 = tb w @ [\<lparr>user_ID = i, user_Username = rr_Username req, user_PasswordHash = rr_Password req,
      user_Email = rr_Email req\<rparr>]" by auto
  have cr: "User_Create (as_UserRepo s) \<lparr>user_ID = 0, user_Username = rr_Username req,
      user_PasswordHash = rr_Password req, user_Email = rr_Email req\<rparr> w = (Inr i, w1)"
    using ins x i(1) by (simp add: User_Create_def)
  obtain g where g: "Auth_GenerateToken J (clk w1) i (rr_Username req)
      (AccessSecret (JwtAuth (as_Config s))) (AccessExpire (JwtAuth (as_Config s))) = g" by simp
  then have "w' = w1 \<and> ui_Username (lr_UserInfo resp) = rr_Username req \<and> ui_Id (lr_UserInfo resp) = i"
    using assms(2) cr by (cases g) (auto simp: Auth_Register_def)
  with i show "ui_Username (lr_UserInfo resp) = rr_Username req"
    "\<forall>u \<in> set (tb w). \<not> eq (user_Username u) (rr_Username req)"
    "tb w' = tb w @ [\<lparr>user_ID = ui_Id (lr_UserInfo resp), user_Username = rr_Username req,
      user_PasswordHash = rr_Password req, user_Email = rr_Email req\<rparr>]"
    by simp_all
qed

section \<open>Who can log in\<close>

lemma Login_token:
  "Auth_Login clk J s n p w = (Inr resp, w') \<Longrightarrow>
   Auth_GenerateToken J (clk w') (ui_Id (lr_UserInfo resp)) (ui_Username (lr_UserInfo resp))
     (AccessSecret (JwtAuth (as_Config s))) (AccessExpire (JwtAuth (as_Config s))) = Inr (lr_Token resp)"
  by (auto simp: Auth_Login_def split: sum.splits prod.splits option.splits)

text \<open>
  C16: Registration then login: after a registration that succeeded, a login with a name and a password
  that the table's collation takes for the registered ones - the same ones, and with the collation of
  the schema also any change of case, because the password column holds the password itself - answers
  with a token for the registered user, and any other password is refused with the database's
  no-rows error, never with the message about invalid credentials.
\<close>

theorem register_then_login:
  assumes "users_table (ur_db (as_UserRepo s)) tb eq" "collation eq"
    and "Auth_Register clk J s req w = (Inr resp, w')"
    and "eq (rr_Username req) n"
  shows "Auth_Login clk J s n p w' =
    (if eq (rr_Password req) p
     then LoginWithUser clk J s
        \<lparr>user_ID = ui_Id (lr_UserInfo resp), user_Username = rr_Username req,
         user_PasswordHash = rr_Password req, user_Email = rr_Email req\<rparr> w'
     else (Inl ErrSqlNoRows, w'))"
proof -
  note R = register_inserts [OF assms(1,3)]
  let ?u = "\<lparr>user_ID = ui_Id (lr_UserInfo resp), user_Username = rr_Username req,
      user_PasswordHash = rr_Password req, user_Email = rr_Email req\<rparr>"
  note q = users_loginD [OF assms(1), of n p w']
  have old: "\<not> eq (user_Username u) n" if "u \<in> set (tb w)" for u
    using that R(2) assms(2,4) unfolding collation_def by (metis sympD transpD)
  have "filter (\<lambda>u. eq (user_Username u) n \<and> eq (user_PasswordHash u) p) (tb w') =
      (if eq (rr_Password req) p then [?u] else [])"
    using assms(4) old R(3) by simp
  with q show ?thesis
    by (simp add: Auth_Login_def LoginWithUser_def FindByUsernameAndPassword_def)
qed

text \<open>For examples: a table that compares texts without regard to the case of ASCII letters.\<close>

definition ci_eq :: "string \<Rightarrow> string \<Rightarrow> bool" where
  "ci_eq a b \<longleftrightarrow> map (\<lambda>c. if CHR ''A'' \<le> c \<and> c \<le> CHR ''Z'' then char_of (of_char c + 32 :: nat) else c) a =
     map (\<lambda>c. if CHR ''A'' \<le> c \<and> c \<le> CHR ''Z'' then char_of (of_char c + 32 :: nat) else c) b"

definition list_users :: "(User list) auth_sqlconn" where
  "list_users = \<lparr>
     dbExec = (\<lambda>sql args us. case args of
         [SStr n, SStr p, SStr m] \<Rightarrow>
           (if (\<exists>u \<in> set us. ci_eq (user_Username u) n) then (Inl (ErrLib ''Duplicate entry''), us)
            else (Inr \<lparr>rowsAffected = Inr 1, lastInsertId = Inr (int (length us) + 1)\<rparr>,
                  us @ [\<lparr>user_ID = int (length us) + 1, user_Username = n, user_PasswordHash = p, user_Email = m\<rparr>]))
       | _ \<Rightarrow> (Inl (ErrLib ''args''), us)),
     dbQueryInt = (\<lambda>sql args us. (Inl ErrSqlNoRows, us)),
     dbQueryUser = (\<lambda>sql args us. case args of
         [SStr n, SStr p] \<Rightarrow>
           (case filter (\<lambda>u. ci_eq (user_Username u) n \<and> ci_eq (user_PasswordHash u) p) us of
              [] \<Rightarrow> Inl ErrSqlNoRows | u # _ \<Rightarrow> Inr u, us)
       | _ \<Rightarrow> (Inl (ErrLib ''args''), us))\<rparr>"

lemma list_users_table: "users_table list_users (\<lambda>us. us) ci_eq"
  by (auto simp: users_table_def list_users_def)

lemma ci_collation: "collation ci_eq"
  by (auto simp: collation_def ci_eq_def intro!: reflpI sympI transpI)

definition demo_claims :: JWTClaims where
  "demo_claims = \<lparr>jc_UserID = 1, jc_Username = ''ann'', jc_ExpiresAt = Some 3700, jc_IssuedAt = Some 100,
     jc_NotBefore = Some 100, jc_Issuer = ''auth-service'', jc_Subject = ''1''\<rparr>"

definition demo_auth :: "User list AuthSvc" where
  "demo_auth = NewAuthServiceContext (\<lambda>dsn. list_users)
     \<lparr>JwtAuth = \<lparr>AccessSecret = ''s3cret'', AccessExpire = 3600\<rparr>, asc_MySQL = \<lparr>amc_DataSource = ''dsn''\<rparr>\<rparr>"

definition demo_register :: AuthRegisterRequest where
  "demo_register = \<lparr>rr_Username = ''ann'', rr_Password = ''Secret'', rr_Email = ''a@b''\<rparr>"

lemma demo_registers:
  "Auth_Register (\<lambda>w. 100000000000) (one_jwt demo_claims) demo_auth demo_register [] =
     (Inr \<lparr>lr_Token = ''tok'', lr_UserInfo = \<lparr>ui_Id = 1, ui_Username = ''ann'', ui_Email = ''a@b''\<rparr>\<rparr>,
      [\<lparr>user_ID = 1, user_Username = ''ann'', user_PasswordHash = ''Secret'', user_Email = ''a@b''\<rparr>])"
  by code_simp

lemma demo_auth_db: "ur_db (as_UserRepo demo_auth) = list_users"
  by (simp add: demo_auth_def NewAuthServiceContext_def NewUserRepository_def)

theorem register_then_login_witness:
  "fst (Auth_Login (\<lambda>w. 100000000000) (one_jwt demo_claims) demo_auth ''ANN'' ''SECRET''
      [\<lparr>user_ID = 1, user_Username = ''ann'', user_PasswordHash = ''Secret'', user_Email = ''a@b''\<rparr>]) =
    Inr \<lparr>lr_Token = ''tok'', lr_UserInfo = \<lparr>ui_Id = 1, ui_Username = ''ann'', ui_Email = ''a@b''\<rparr>\<rparr>"
proof -
  have e: "ci_eq (rr_Username demo_register) ''ANN''" "ci_eq (rr_Password demo_register) ''SECRET''" by code_simp+
  have t: "users_table (ur_db (as_UserRepo demo_auth)) (\<lambda>us. us) ci_eq"
    using list_users_table by (simp add: demo_auth_db)
  show ?thesis
    unfolding register_then_login [OF t ci_collation demo_registers e(1)] by code_simp
qed

end
