(* ===== verification/AuthClient.thy ===== *)
theory AuthClient
  imports AuthService
begin

text \<open>
  Calling the auth service: RPC clients and their configuration, the client package
  (\<open>auth/pkg/client/auth\<close>) and the manual test program (\<open>auth/test_client.go\<close>). The RPC library and
  the generated client are arguments.
\<close>

section \<open>RPC clients\<close>

text \<open>
  \<open>zrpc.RpcClientConf\<close> at the fields the configuration files set, the option \<open>WithTimeout\<close> in
  nanoseconds, and \<open>zrpc.Client\<close>, which gives access to its connection.
\<close>

record RpcClientConf =
  rc_Endpoints :: "string list"
  rc_Timeout :: int

record 'c zrpcClient =
  zc_Conn :: 'c

text \<open>The generated client of the auth service on a connection.\<close>

record 'w AuthRpcClient =
  arc_Register :: "AuthRegisterRequest \<Rightarrow> 'w \<Rightarrow> AuthLoginResponse res \<times> 'w"
  arc_Login :: "string \<Rightarrow> string \<Rightarrow> 'w \<Rightarrow> AuthLoginResponse res \<times> 'w"

section \<open>The client package\<close>

record 'c defaultAuth =
  da_cli :: "'c zrpcClient"

definition NewAuth :: "'c zrpcClient \<Rightarrow> 'c defaultAuth" where
  "NewAuth cli = \<lparr>da_cli = cli\<rparr>"

definition defaultAuth_Register ::
  "('c \<Rightarrow> 'w AuthRpcClient) \<Rightarrow> 'c defaultAuth \<Rightarrow> AuthRegisterRequest \<Rightarrow> 'w \<Rightarrow> AuthLoginResponse res \<times> 'w" where
  "defaultAuth_Register NewAuthClient m in' w =
     (let client = NewAuthClient (zc_Conn (da_cli m)) in arc_Register client in' w)"

definition defaultAuth_Login ::
  "('c \<Rightarrow> 'w AuthRpcClient) \<Rightarrow> 'c defaultAuth \<Rightarrow> string \<Rightarrow> string \<Rightarrow> 'w \<Rightarrow> AuthLoginResponse res \<times> 'w" where
  "defaultAuth_Login NewAuthClient m username password w =
     (let client = NewAuthClient (zc_Conn (da_cli m)) in arc_Login client username password w)"

section \<open>The test program\<close>

text \<open>What it prints: the answers of its three calls. It gives up when it cannot connect.\<close>

record smoke_run =
  sm_Register :: "AuthLoginResponse res"
  sm_Login :: "AuthLoginResponse res"
  sm_Invalid :: "AuthLoginResponse res"

definition smoke_request :: AuthRegisterRequest where
  "smoke_request = \<lparr>rr_Username = ''testuser123'', rr_Password = ''password123'',
     rr_Email = ''testuser123@example.com''\<rparr>"

definition smoke_main ::
  "(string \<Rightarrow> 'c res) \<Rightarrow> ('c \<Rightarrow> 'w AuthRpcClient) \<Rightarrow> 'w \<Rightarrow> smoke_run option \<times> 'w" where
  "smoke_main dial NewAuthClient w =
     (case dial ''localhost:8001'' of
        Inl err \<Rightarrow> (None, w)
      | Inr conn \<Rightarrow>
          (let client = NewAuthClient conn;
               (registerResp, w1) = arc_Register client smoke_request w;
               (loginResp, w2) = arc_Login client ''testuser123'' ''password123'' w1;
               (invalidResp, w3) = arc_Login client ''wronguser'' ''wrongpass'' w2
           in (Some \<lparr>sm_Register = registerResp, sm_Login = loginResp, sm_Invalid = invalidResp\<rparr>, w3)))"

text \<open>
  A client whose calls arrive at a server: an answer comes back as it is, an error comes back as some
  error, and nothing else changes.
\<close>

definition carried :: "('r res \<times> 'w) \<Rightarrow> ('r res \<times> 'w) \<Rightarrow> bool" where
  "carried s c \<longleftrightarrow> snd c = snd s \<and> (case fst s of Inr r \<Rightarrow> fst c = Inr r | Inl e \<Rightarrow> isl (fst c))"

definition delivers :: "'w AuthRpcClient \<Rightarrow> (auth_rpc \<Rightarrow> 'w \<Rightarrow> AuthLoginResponse res \<times> 'w) \<Rightarrow> bool" where
  "delivers client srv \<longleftrightarrow>
     (\<forall>req w. carried (srv (RpcRegister req) w) (arc_Register client req w)) \<and>
     (\<forall>n p w. carried (srv (RpcLogin n p) w) (arc_Login client n p w))"

lemma carried_Inr: "carried (Inr r, w) c \<longleftrightarrow> c = (Inr r, w)"
  by (cases c) (auto simp: carried_def)

lemma carried_Inl: "carried (Inl e, w) c \<longleftrightarrow> (\<exists>e'. c = (Inl e', w))"
  by (cases c) (auto simp: carried_def isl_def)

lemma carried_ok: "carried s (Inr r, w) \<Longrightarrow> s = (Inr r, w)"
  by (cases s; cases "fst s") (auto simp: carried_def)

lemmas carried_simps = carried_Inr carried_Inl

text \<open>A login reads only, and without a matching row it is refused.\<close>

lemma Login_refused:
  assumes "users_table (ur_db (as_UserRepo s)) tb eq" "\<forall>u \<in> set (tb w). \<not> eq (user_Username u) n"
  shows "Auth_Login clk J s n p w = (Inl ErrSqlNoRows, w)"
proof -
  have "filter (\<lambda>u. eq (user_Username u) n \<and> eq (user_PasswordHash u) p) (tb w) = []"
    using assms(2) by (simp add: filter_empty_conv)
  then show ?thesis
    by (simp add: Auth_Login_def FindByUsernameAndPassword_def users_loginD [OF assms(1)])
qed

lemma Register_taken:
  assumes "users_table (ur_db (as_UserRepo s)) tb eq" "u \<in> set (tb w)" "eq (user_Username u) (rr_Username req)"
  obtains e w' where "Auth_Register clk J s req w = (Inl e, w')" "tb w' = tb w"
proof -
  obtain r w' where "dbExec (ur_db (as_UserRepo s)) insertUserSQL
      [SStr (rr_Username req), SStr (rr_Password req), SStr (rr_Email req)] w = (r, w')" "isl r" "tb w' = tb w"
    by (rule users_insertD [OF assms(1), of "rr_Username req" "rr_Password req" "rr_Email req" w])
      (use assms(2,3) in \<open>auto split: sum.splits\<close>)
  then show ?thesis
    by (cases r) (auto simp: Auth_Register_def User_Create_def intro: that)
qed

definition signs_all :: "jwtlib \<Rightarrow> bool" where
  "signs_all J \<longleftrightarrow> (\<forall>c k. \<exists>t. jwtSign J HS256 c k = Inr t)"

lemma signs_allD: "signs_all J \<Longrightarrow> \<exists>t. Auth_GenerateToken J now i n k e = Inr t"
  by (simp add: signs_all_def Auth_GenerateToken_def)

text \<open>A registered user logs in with the registered name and password.\<close>

lemma Login_registered:
  assumes "users_table (ur_db (as_UserRepo s)) tb eq" "collation eq" "signs_all J"
    and "\<forall>u \<in> set us. \<not> eq (user_Username u) n"
    and "tb w = us @ [\<lparr>user_ID = i, user_Username = n, user_PasswordHash = p, user_Email = m\<rparr>]"
  obtains t where "Auth_Login clk J s n p w =
    (Inr \<lparr>lr_Token = t, lr_UserInfo = \<lparr>ui_Id = i, ui_Username = n, ui_Email = m\<rparr>\<rparr>, w)"
proof -
  have "eq n n" "eq p p" using assms(2) by (auto simp: collation_def dest: reflpD)
  moreover have "filter (\<lambda>u. eq (user_Username u) n \<and> eq (user_PasswordHash u) p) us = []"
    using assms(4) by (simp add: filter_empty_conv)
  ultimately have "FindByUsernameAndPassword (as_UserRepo s) n p w =
      (Inr (Some \<lparr>user_ID = i, user_Username = n, user_PasswordHash = p, user_Email = m\<rparr>), w)"
    by (simp add: FindByUsernameAndPassword_def users_loginD [OF assms(1)] assms(5))
  moreover obtain t where "Auth_GenerateToken J (clk w) i n
      (AccessSecret (JwtAuth (as_Config s))) (AccessExpire (JwtAuth (as_Config s))) = Inr t"
    using signs_allD [OF assms(3)] by blast
  ultimately show ?thesis by (intro that [of t]) (simp add: Auth_Login_def)
qed

text \<open>The two logins of the test program on a table whose last row is its user.\<close>

lemma smoke_logins:
  assumes "users_table (ur_db (as_UserRepo s)) tb eq" "collation eq" "signs_all J"
    and "\<forall>u \<in> set us. \<not> eq (user_Username u) ''testuser123''" "\<forall>u \<in> set us. \<not> eq (user_Username u) ''wronguser''"
    and "\<not> eq ''testuser123'' ''wronguser''"
    and "tb w = us @ [\<lparr>user_ID = i, user_Username = ''testuser123'', user_PasswordHash = ''password123'', user_Email = m\<rparr>]"
  obtains t where "Auth_Login clk J s ''testuser123'' ''password123'' w =
      (Inr \<lparr>lr_Token = t, lr_UserInfo = \<lparr>ui_Id = i, ui_Username = ''testuser123'', ui_Email = m\<rparr>\<rparr>, w)"
    "Auth_Login clk J s ''wronguser'' ''wrongpass'' w = (Inl ErrSqlNoRows, w)"
  by (rule Login_registered [OF assms(1,2,3,4,7), of clk])
    (use assms(5-7) in \<open>simp add: Login_refused [OF assms(1)] that\<close>)

text \<open>The calls of the test program when they arrive at the service.\<close>

lemma smoke_calls:
  assumes "delivers (newClient conn) (AuthServer clk J s)" "dial ''localhost:8001'' = Inr conn"
    and "Auth_Register clk J s smoke_request w = (ra, w1)" "Auth_Login clk J s ''testuser123'' ''password123'' w1 = (rb, w2)"
    and "Auth_Login clk J s ''wronguser'' ''wrongpass'' w2 = (rc, w3)"
  obtains ra' rb' rc' where
    "smoke_main dial newClient w = (Some \<lparr>sm_Register = ra', sm_Login = rb', sm_Invalid = rc'\<rparr>, w3)"
    "carried (ra, w1) (ra', w1)" "carried (rb, w2) (rb', w2)" "carried (rc, w3) (rc', w3)"
proof -
  obtain ra' u1 where a: "arc_Register (newClient conn) smoke_request w = (ra', u1)" by (metis surj_pair)
  have ca: "carried (ra, w1) (ra', u1)"
    using assms(1,3) a by (auto simp: delivers_def dest!: spec [of _ smoke_request] spec [of _ w])
  then have u1: "u1 = w1" by (simp add: carried_def)
  obtain rb' u2 where b: "arc_Login (newClient conn) ''testuser123'' ''password123'' w1 = (rb', u2)" by (metis surj_pair)
  have cb: "carried (rb, w2) (rb', u2)"
    using assms(1,4) b unfolding delivers_def by (metis AuthServer.simps(2))
  then have u2: "u2 = w2" by (simp add: carried_def)
  obtain rc' u3 where c: "arc_Login (newClient conn) ''wronguser'' ''wrongpass'' w2 = (rc', u3)" by (metis surj_pair)
  have cc: "carried (rc, w3) (rc', u3)"
    using assms(1,5) c unfolding delivers_def by (metis AuthServer.simps(2))
  then have "u3 = w3" by (simp add: carried_def)
  with that ca cb cc show ?thesis
    by (simp add: smoke_main_def assms(2) a b c u1 u2)
qed

text \<open>
  C17: The test program passes on every table that knows neither of its two names, and can be run again:
  when its registration is answered, the login that follows is answered for the registered user and the
  login with invalid credentials is refused; a second run is refused the registration, because the
  name is taken, and its logins end as before.
\<close>

theorem smoke_test_repeats:
  assumes "users_table (ur_db (as_UserRepo s)) tb eq" "collation eq" "signs_all J"
    and "delivers (newClient conn) (AuthServer clk J s)" "dial ''localhost:8001'' = Inr conn"
    and "\<forall>u \<in> set (tb w). \<not> eq (user_Username u) ''wronguser''" "\<not> eq ''testuser123'' ''wronguser''"
    and "smoke_main dial newClient w = (Some run, w')" "sm_Register run = Inr reg"
  shows "(\<exists>t. sm_Login run = Inr \<lparr>lr_Token = t, lr_UserInfo = lr_UserInfo reg\<rparr>) \<and> isl (sm_Invalid run)
    \<and> (\<exists>run' w''. smoke_main dial newClient w' = (Some run', w'') \<and> isl (sm_Register run')
         \<and> (\<exists>t. sm_Login run' = Inr \<lparr>lr_Token = t, lr_UserInfo = lr_UserInfo reg\<rparr>) \<and> isl (sm_Invalid run'))"
proof -
  note C = smoke_calls [of newClient conn clk J s dial, OF assms(4,5)]
  obtain ra w1 where a: "Auth_Register clk J s smoke_request w = (ra, w1)" by (metis surj_pair)
  obtain rb w2 where b: "Auth_Login clk J s ''testuser123'' ''password123'' w1 = (rb, w2)" by (metis surj_pair)
  obtain rc w3 where c: "Auth_Login clk J s ''wronguser'' ''wrongpass'' w2 = (rc, w3)" by (metis surj_pair)
  obtain ra' rb' rc' where r:
    "smoke_main dial newClient w = (Some \<lparr>sm_Register = ra', sm_Login = rb', sm_Invalid = rc'\<rparr>, w3)"
    "carried (ra, w1) (ra', w1)" "carried (rb, w2) (rb', w2)" "carried (rc, w3) (rc', w3)"
    by (rule C [OF a b c])
  from r(1) assms(8,9) have run: "run = \<lparr>sm_Register = Inr reg, sm_Login = rb', sm_Invalid = rc'\<rparr>" "w' = w3"
    "ra' = Inr reg" by auto
  from run(3) r(2) have reg: "Auth_Register clk J s smoke_request w = (Inr reg, w1)"
    using carried_ok a by metis
  obtain i where ui: "lr_UserInfo reg = \<lparr>ui_Id = i, ui_Username = ''testuser123'', ui_Email = ''testuser123@example.com''\<rparr>"
    using reg by (auto simp: Auth_Register_def smoke_request_def split: sum.splits prod.splits)
  define row where "row = \<lparr>user_ID = i, user_Username = ''testuser123'', user_PasswordHash = ''password123'',
    user_Email = ''testuser123@example.com''\<rparr>"
  have new: "\<forall>u \<in> set (tb w). \<not> eq (user_Username u) ''testuser123''" and tb1: "tb w1 = tb w @ [row]"
    using register_inserts(2,3) [OF assms(1) reg] by (simp_all add: smoke_request_def row_def ui)
  have logins: "\<exists>t. Auth_Login clk J s ''testuser123'' ''password123'' v = (Inr \<lparr>lr_Token = t, lr_UserInfo = lr_UserInfo reg\<rparr>, v)
      \<and> Auth_Login clk J s ''wronguser'' ''wrongpass'' v = (Inl ErrSqlNoRows, v)" if "tb v = tb w1" for v
    by (rule smoke_logins [OF assms(1,2,3) new assms(6,7) that [unfolded tb1 row_def], of clk])
      (auto simp: ui)
  from logins [OF refl] b obtain t where t: "rb = Inr \<lparr>lr_Token = t, lr_UserInfo = lr_UserInfo reg\<rparr>" "w2 = w1" by auto
  with logins [OF refl] c have e: "rc = Inl ErrSqlNoRows" "w3 = w1" by auto
  have first: "(\<exists>t. sm_Login run = Inr \<lparr>lr_Token = t, lr_UserInfo = lr_UserInfo reg\<rparr>) \<and> isl (sm_Invalid run)"
    using r(3,4) t e by (auto simp: run carried_simps)
  have "eq ''testuser123'' ''testuser123''" using assms(2) by (auto simp: collation_def dest: reflpD)
  then obtain e' v where a2: "Auth_Register clk J s smoke_request w1 = (Inl e', v)" "tb v = tb w1"
    by (rule_tac Register_taken [OF assms(1), of row w1 smoke_request clk J])
      (simp_all add: tb1 row_def smoke_request_def)
  from logins [OF a2(2)] obtain t' where
    l2: "Auth_Login clk J s ''testuser123'' ''password123'' v = (Inr \<lparr>lr_Token = t', lr_UserInfo = lr_UserInfo reg\<rparr>, v)"
      "Auth_Login clk J s ''wronguser'' ''wrongpass'' v = (Inl ErrSqlNoRows, v)" by blast
  obtain ra'' rb'' rc'' where
    "smoke_main dial newClient w1 = (Some \<lparr>sm_Register = ra'', sm_Login = rb'', sm_Invalid = rc''\<rparr>, v)"
    "carried (Inl e' :: AuthLoginResponse res, v) (ra'', v)"
    "carried (Inr \<lparr>lr_Token = t', lr_UserInfo = lr_UserInfo reg\<rparr>, v) (rb'', v)"
    "carried (Inl ErrSqlNoRows :: AuthLoginResponse res, v) (rc'', v)"
    by (rule C [OF a2(1) l2])
  with first show ?thesis by (auto simp: carried_simps run(2) e(2))
qed

text \<open>For examples: a library that signs everything, and the service behind a client of its own.\<close>

definition any_jwt :: jwtlib where
  "any_jwt = \<lparr>jwtSign = (\<lambda>alg c k. Inr (show_int (jc_UserID c) @ CHR ''.'' # k)), jwtParse = (\<lambda>t kf now. Inl (ErrLib ''not used''))\<rparr>"

definition served :: "('w \<Rightarrow> int) \<Rightarrow> jwtlib \<Rightarrow> 'w AuthSvc \<Rightarrow> unit \<Rightarrow> 'w AuthRpcClient" where
  "served clk J s conn = \<lparr>arc_Register = (\<lambda>req. AuthServer clk J s (RpcRegister req)),
     arc_Login = (\<lambda>n p. AuthServer clk J s (RpcLogin n p))\<rparr>"

lemma served_delivers: "delivers (served clk J s conn) (AuthServer clk J s)"
  by (simp add: delivers_def served_def carried_def split: sum.split)

definition smoke_demo :: "User list \<Rightarrow> smoke_run option \<times> User list" where
  "smoke_demo = smoke_main (\<lambda>a. Inr ()) (served (\<lambda>w. 100000000000) any_jwt demo_auth)"

lemma smoke_demo_first:
  "smoke_demo [] = (Some \<lparr>sm_Register = Inr \<lparr>lr_Token = ''1.s3cret'', lr_UserInfo = \<lparr>ui_Id = 1,
        ui_Username = ''testuser123'', ui_Email = ''testuser123@example.com''\<rparr>\<rparr>,
      sm_Login = Inr \<lparr>lr_Token = ''1.s3cret'', lr_UserInfo = \<lparr>ui_Id = 1,
        ui_Username = ''testuser123'', ui_Email = ''testuser123@example.com''\<rparr>\<rparr>,
      sm_Invalid = Inl ErrSqlNoRows\<rparr>,
     [\<lparr>user_ID = 1, user_Username = ''testuser123'', user_PasswordHash = ''password123'',
       user_Email = ''testuser123@example.com''\<rparr>])"
  by code_simp

theorem smoke_test_repeats_witness:
  "\<exists>run w'. smoke_demo [] = (Some run, w') \<and> isl (sm_Invalid run) \<and>
     (\<exists>run' w''. smoke_demo w' = (Some run', w'') \<and> isl (sm_Register run') \<and> \<not> isl (sm_Login run'))"
proof -
  have t: "users_table (ur_db (as_UserRepo demo_auth)) (\<lambda>us. us) ci_eq"
    using list_users_table by (simp add: demo_auth_db)
  have sg: "signs_all any_jwt" by (simp add: signs_all_def any_jwt_def)
  have ne: "\<not> ci_eq ''testuser123'' ''wronguser''" by code_simp
  note T = smoke_test_repeats [OF t ci_collation sg served_delivers [of "\<lambda>w. 100000000000" any_jwt demo_auth "()"] _ _ ne
      smoke_demo_first [unfolded smoke_demo_def]]
  show ?thesis unfolding smoke_demo_def
    using smoke_demo_first [unfolded smoke_demo_def] T by fastforce
qed

end
