(* ===== verification/Gateway.thy ===== *)
theory Gateway
  imports PostLogic AuthClient
begin

text \<open>
  The HTTP gateway (\<open>api-gateway\<close>): the token middleware, the context keys, the logic behind each
  route, the handlers with their route table, and the service context.
\<close>

section \<open>Requests, responses and the service context\<close>

text \<open>\<open>context.WithValue\<close> entries: the gateway stores an int64 and a string.\<close>

datatype ctxval = CInt int | CStr string

definition UserIDKey :: string where "UserIDKey = ''userID''"
definition UsernameKey :: string where "UsernameKey = ''username''"

definition GetUserIDKey :: string where "GetUserIDKey = UserIDKey"
definition GetUsernameKey :: string where "GetUsernameKey = UsernameKey"

text \<open>What the gateway reads of an \<open>http.Request\<close>; a missing header or query value is empty.\<close>

record HttpRequest =
  hr_Header :: "string \<Rightarrow> string"
  hr_PathValue :: "string \<Rightarrow> string"
  hr_Query :: "string \<Rightarrow> string"
  hr_Path :: string
  hr_Body :: string
  hr_Ctx :: "string \<rightharpoonup> ctxval"

record RegisterRequest =
  reg_Username :: string
  reg_Password :: string
  reg_Email :: string

record LoginRequest =
  log_Username :: string
  log_Password :: string

record LoginResponse =
  lresp_Token :: string
  lresp_ID :: int
  lresp_Username :: string
  lresp_Email :: string

record GwCreatePostRequest =
  gcp_Title :: string
  gcp_Content :: string

record PostResponse =
  presp_ID :: int
  presp_Title :: string
  presp_Content :: string
  presp_Author :: string

record SearchRequest =
  sr_Keyword :: string
  sr_Type :: string
  sr_Page :: int
  sr_Size :: int

record LikeRequest =
  like_PostID :: int

record CommentRequest =
  creq_PostID :: int
  creq_Content :: string

record FollowRequest =
  freq_UserID :: int

record GetPostDetailResponse =
  gpd_ID :: int
  gpd_UserID :: int
  gpd_CommunityID :: int
  gpd_Username :: string
  gpd_Title :: string
  gpd_Content :: string
  gpd_Tags :: "string list"
  gpd_LikeCount :: int
  gpd_CommentCount :: int
  gpd_ViewCount :: int
  gpd_CreatedAt :: int
  gpd_UpdatedAt :: int

text \<open>
  Answers: the typed responses, the search response (whose list is always empty) and the ad-hoc
  maps of the handlers, whose values are integers, texts and empty lists.
\<close>

datatype jval = JInt int | JStr string | JEmptyList

datatype payload =
    PLogin LoginResponse
  | PPost PostResponse
  | PDetail GetPostDetailResponse
  | PSearch int
  | PMap "(string \<times> jval) list"

datatype HttpResponse = ErrorCtx err | OkJsonCtx payload

type_synonym 'w HandlerFunc = "HttpRequest \<Rightarrow> 'w \<Rightarrow> HttpResponse \<times> 'w"

text \<open>\<open>httpx.Parse\<close> of go-zero at the request types of the gateway.\<close>

record httpx =
  parseRegister :: "HttpRequest \<Rightarrow> RegisterRequest res"
  parseLogin :: "HttpRequest \<Rightarrow> LoginRequest res"
  parseCreatePost :: "HttpRequest \<Rightarrow> GwCreatePostRequest res"
  parseSearch :: "HttpRequest \<Rightarrow> SearchRequest res"
  parseLike :: "HttpRequest \<Rightarrow> LikeRequest res"
  parseComment :: "HttpRequest \<Rightarrow> CommentRequest res"
  parseFollow :: "HttpRequest \<Rightarrow> FollowRequest res"

record JWTConfig =
  jwt_Secret :: string
  jwt_Expire :: int
  jwt_PrevSecret :: string
  jwt_PrevExpire :: int

text \<open>The generated client of the post service, at the two calls the gateway makes.\<close>

record 'w PostClient =
  pcCreatePost :: "CreatePostRequest \<Rightarrow> 'w \<Rightarrow> PostInfo option res \<times> 'w"
  pcGetPost :: "int \<Rightarrow> int \<Rightarrow> 'w \<Rightarrow> (PostInfo option \<times> CommentInfo list) res \<times> 'w"

text \<open>The RPC library: dialling with a configuration and an optional timeout, and the post client on a connection.\<close>

record ('c, 'w) rpclib =
  rpcNewClient :: "RpcClientConf \<Rightarrow> int option \<Rightarrow> 'w \<Rightarrow> 'c zrpcClient res \<times> 'w"
  rpcNewPostClient :: "'c \<Rightarrow> 'w PostClient"

record GwConfig =
  gc_Auth :: RpcClientConf
  gc_Post :: RpcClientConf
  gc_Search :: RpcClientConf
  gc_Interaction :: RpcClientConf
  gc_JWT :: JWTConfig

text \<open>
  The clients are nil (\<open>None\<close>) when connecting failed at start; the search, interaction and auth
  clients are never called.
\<close>

record ('c, 'w) GwSvc =
  gw_Config :: GwConfig
  gw_AuthRpc :: "'c defaultAuth option"
  gw_PostRpc :: "'w PostClient option"
  gw_SearchRpc :: "'c zrpcClient option"
  gw_InteractionRpc :: "'c zrpcClient option"

abbreviation gw_JWT :: "('c, 'w) GwSvc \<Rightarrow> JWTConfig" where
  "gw_JWT s \<equiv> gc_JWT (gw_Config s)"

definition newAuthClient :: "('c, 'w) rpclib \<Rightarrow> RpcClientConf \<Rightarrow> 'w \<Rightarrow> 'c defaultAuth option \<times> 'w" where
  "newAuthClient L conf w =
     (case rpcNewClient L conf None w of
        (Inl err, w1) \<Rightarrow> (None, w1)
      | (Inr client, w1) \<Rightarrow> (Some (NewAuth client), w1))"

definition newPostClient :: "('c, 'w) rpclib \<Rightarrow> RpcClientConf \<Rightarrow> 'w \<Rightarrow> 'w PostClient option \<times> 'w" where
  "newPostClient L conf w =
     (case rpcNewClient L conf (Some (second * 30)) w of
        (Inl err, w1) \<Rightarrow> (None, w1)
      | (Inr client, w1) \<Rightarrow> (Some (rpcNewPostClient L (zc_Conn client)), w1))"

definition newRpcClient :: "('c, 'w) rpclib \<Rightarrow> RpcClientConf \<Rightarrow> 'w \<Rightarrow> 'c zrpcClient option \<times> 'w" where
  "newRpcClient L conf w =
     (case rpcNewClient L conf None w of
        (Inl err, w1) \<Rightarrow> (None, w1)
      | (Inr client, w1) \<Rightarrow> (Some client, w1))"

definition NewGwServiceContext :: "('c, 'w) rpclib \<Rightarrow> GwConfig \<Rightarrow> 'w \<Rightarrow> ('c, 'w) GwSvc \<times> 'w" where
  "NewGwServiceContext L c w =
     (let (auth, w1) = newAuthClient L (gc_Auth c) w;
          (post, w2) = newPostClient L (gc_Post c) w1;
          (search, w3) = newRpcClient L (gc_Search c) w2;
          (interaction, w4) = newRpcClient L (gc_Interaction c) w3
      in (\<lparr>gw_Config = c, gw_AuthRpc = auth, gw_PostRpc = post, gw_SearchRpc = search,
           gw_InteractionRpc = interaction\<rparr>, w4))"

lemma NewGwServiceContext_config: "gw_Config (fst (NewGwServiceContext L c w)) = c"
  by (simp add: NewGwServiceContext_def Let_def split: prod.split)

section \<open>The token middleware\<close>

text \<open>
  The two parses of a token happen at the times \<open>now\<close> and \<open>now'\<close>. A request that passes is handed
  on with the claims in its context.
\<close>

definition bearer_token :: "string \<Rightarrow> string res" where
  "bearer_token authHeader =
     (if authHeader = [] then Inl ErrMissingToken
      else (case split2 CHR '' '' authHeader of
              [scheme, tokenString] \<Rightarrow>
                (if scheme \<noteq> ''Bearer'' then Inl ErrInvalidTokenFormat else Inr tokenString)
            | _ \<Rightarrow> Inl ErrInvalidTokenFormat))"

definition check_token :: "jwtlib \<Rightarrow> JWTConfig \<Rightarrow> int \<Rightarrow> int \<Rightarrow> string \<Rightarrow> JWTClaims res" where
  "check_token J c now now' tokenString =
     (case Gateway_ParseToken J now tokenString (jwt_Secret c) of
        Inr claims \<Rightarrow> Inr claims
      | Inl err \<Rightarrow>
          (if contains (err_text err) ''token is expired''
           then (if jwt_PrevSecret c \<noteq> []
                 then (case Gateway_ParseToken J now' tokenString (jwt_PrevSecret c) of
                         Inl _ \<Rightarrow> Inl ErrTokenExpired
                       | Inr claims \<Rightarrow> Inr claims)
                 else Inl ErrTokenExpired)
           else Inl ErrInvalidToken))"

definition with_user :: "HttpRequest \<Rightarrow> JWTClaims \<Rightarrow> HttpRequest" where
  "with_user r claims = r\<lparr>hr_Ctx := (hr_Ctx r)(GetUserIDKey \<mapsto> CInt (jc_UserID claims),
                                              GetUsernameKey \<mapsto> CStr (jc_Username claims))\<rparr>"

definition JWTAuthMiddleware ::
  "jwtlib \<Rightarrow> JWTConfig \<Rightarrow> int \<Rightarrow> int \<Rightarrow> 'w HandlerFunc \<Rightarrow> 'w HandlerFunc" where
  "JWTAuthMiddleware J c now now' nxt r w =
     (case bearer_token (hr_Header r ''Authorization'') of
        Inl err \<Rightarrow> (ErrorCtx err, w)
      | Inr tokenString \<Rightarrow>
          (case check_token J c now now' tokenString of
             Inl err \<Rightarrow> (ErrorCtx err, w)
           | Inr claims \<Rightarrow> nxt (with_user r claims) w))"

text \<open>The same two functions stand in \<open>middleware/jwt.go\<close> and in \<open>logic/utils.go\<close>.\<close>

definition GetUserIDFromContext :: "(string \<rightharpoonup> ctxval) \<Rightarrow> int option" where
  "GetUserIDFromContext ctx = (case ctx GetUserIDKey of Some (CInt userID) \<Rightarrow> Some userID | _ \<Rightarrow> None)"

definition GetUsernameFromContext :: "(string \<rightharpoonup> ctxval) \<Rightarrow> string option" where
  "GetUsernameFromContext ctx = (case ctx GetUsernameKey of Some (CStr username) \<Rightarrow> Some username | _ \<Rightarrow> None)"

text \<open>\<open>username, _ := GetUsernameFromContext(ctx)\<close>: the zero value when it is missing.\<close>

definition username_of :: "(string \<rightharpoonup> ctxval) \<Rightarrow> string" where
  "username_of ctx = (case GetUsernameFromContext ctx of None \<Rightarrow> [] | Some n \<Rightarrow> n)"

section \<open>Logic\<close>

text \<open>The Chinese texts of the answers, as UTF-8 bytes.\<close>

definition bytes :: "nat list \<Rightarrow> string" where
  "bytes ns = map char_of ns"

definition msg_registered :: string where
  "msg_registered = bytes [230, 179, 168, 229, 134, 140, 230, 136, 144, 229, 138, 159]"

definition msg_deleted :: string where
  "msg_deleted = bytes [229, 136, 160, 233, 153, 164, 230, 136, 144, 229, 138, 159]"

definition msg_liked :: string where
  "msg_liked = bytes [231, 130, 185, 232, 181, 158, 230, 136, 144, 229, 138, 159]"

definition msg_unliked :: string where
  "msg_unliked = bytes [229, 143, 150, 230, 182, 136, 231, 130, 185, 232, 181, 158, 230, 136, 144, 229, 138, 159]"

definition msg_commented :: string where
  "msg_commented = bytes [232, 175, 132, 232, 174, 186, 230, 136, 144, 229, 138, 159]"

definition msg_followed :: string where
  "msg_followed = bytes [229, 133, 179, 230, 179, 168, 230, 136, 144, 229, 138, 159]"

definition msg_unfollowed :: string where
  "msg_unfollowed = bytes [229, 143, 150, 230, 182, 136, 229, 133, 179, 230, 179, 168, 230, 136, 144, 229, 138, 159]"

definition msg_sample_title :: string where
  "msg_sample_title = bytes [231, 164, 186, 228, 190, 139, 229, 184, 150, 229, 173, 144]"

definition msg_sample_content :: string where
  "msg_sample_content = bytes [232, 191, 153, 230, 152, 175, 229, 184, 150, 229, 173, 144, 229, 134, 133, 229, 174, 185]"

definition Gw_Register :: "jwtlib \<Rightarrow> int \<Rightarrow> ('c, 'w) GwSvc \<Rightarrow> RegisterRequest \<Rightarrow> payload res" where
  "Gw_Register J now s req =
     (case Gateway_GenerateToken J now 1 (reg_Username req) (jwt_Secret (gw_JWT s)) (jwt_Expire (gw_JWT s)) of
        Inl err \<Rightarrow> Inl err
      | Inr token \<Rightarrow> Inr (PMap [(''message'', JStr msg_registered), (''user_id'', JInt 1),
          (''username'', JStr (reg_Username req)), (''token'', JStr token)]))"

definition Gw_Login :: "jwtlib \<Rightarrow> int \<Rightarrow> ('c, 'w) GwSvc \<Rightarrow> LoginRequest \<Rightarrow> payload res" where
  "Gw_Login J now s req =
     (case Gateway_GenerateToken J now 1 (log_Username req) (jwt_Secret (gw_JWT s)) (jwt_Expire (gw_JWT s)) of
        Inl err \<Rightarrow> Inl err
      | Inr token \<Rightarrow> Inr (PLogin \<lparr>lresp_Token = token, lresp_ID = 1, lresp_Username = log_Username req,
          lresp_Email = ''demo@example.com''\<rparr>))"

definition Gw_CreatePost ::
  "('c, 'w) GwSvc \<Rightarrow> (string \<rightharpoonup> ctxval) \<Rightarrow> GwCreatePostRequest \<Rightarrow> 'w \<Rightarrow> payload res \<times> 'w" where
  "Gw_CreatePost s ctx req w =
     (case GetUserIDFromContext ctx of
        None \<Rightarrow> (Inl ErrUnauthorized, w)
      | Some userID \<Rightarrow>
          (case gw_PostRpc s of
             None \<Rightarrow> (Inl (Panic ''nil post client''), w)
           | Some rpc \<Rightarrow>
               (case pcCreatePost rpc \<lparr>cp_UserId = userID, cp_CommunityId = 0, cp_Title = gcp_Title req,
                       cp_Content = gcp_Content req, cp_Tags = []\<rparr> w of
                  (Inl err, w1) \<Rightarrow> (Inl err, w1)
                | (Inr None, w1) \<Rightarrow> (Inl (Panic ''nil post''), w1)
                | (Inr (Some post), w1) \<Rightarrow>
                    (Inr (PPost \<lparr>presp_ID = pi_Id post, presp_Title = pi_Title post,
                                  presp_Content = pi_Content post, presp_Author = username_of ctx\<rparr>), w1))))"

definition Gw_DeletePost :: "(string \<rightharpoonup> ctxval) \<Rightarrow> int \<Rightarrow> payload res" where
  "Gw_DeletePost ctx i =
     (case GetUserIDFromContext ctx of
        None \<Rightarrow> Inl ErrUnauthorized
      | Some userID \<Rightarrow> Inr (PMap [(''message'', JStr msg_deleted), (''post_id'', JInt i)]))"

definition Gw_GetPost :: "int \<Rightarrow> payload res" where
  "Gw_GetPost i = Inr (PPost \<lparr>presp_ID = i, presp_Title = msg_sample_title,
     presp_Content = msg_sample_content, presp_Author = ''demo-user''\<rparr>)"

definition Gw_ListPosts :: "int \<Rightarrow> int \<Rightarrow> payload res" where
  "Gw_ListPosts page pageSize = Inr (PMap [(''total'', JInt 100), (''page'', JInt page),
     (''size'', JInt pageSize), (''list'', JEmptyList)])"

definition Gw_GetPostDetail :: "('c, 'w) GwSvc \<Rightarrow> int \<Rightarrow> 'w \<Rightarrow> payload res \<times> 'w" where
  "Gw_GetPostDetail s i w =
     (case gw_PostRpc s of
        None \<Rightarrow> (Inl (Panic ''nil post client''), w)
      | Some rpc \<Rightarrow>
          (case pcGetPost rpc i 0 w of
             (Inl err, w1) \<Rightarrow> (Inl err, w1)
           | (Inr (None, _), w1) \<Rightarrow> (Inl (Panic ''nil post''), w1)
           | (Inr (Some p, _), w1) \<Rightarrow>
               (Inr (PDetail \<lparr>gpd_ID = pi_Id p, gpd_UserID = pi_UserId p, gpd_CommunityID = pi_CommunityId p,
                  gpd_Username = pi_Username p, gpd_Title = pi_Title p, gpd_Content = pi_Content p,
                  gpd_Tags = pi_Tags p, gpd_LikeCount = pi_LikeCount p, gpd_CommentCount = pi_CommentCount p,
                  gpd_ViewCount = pi_ViewCount p, gpd_CreatedAt = pi_CreatedAt p,
                  gpd_UpdatedAt = pi_UpdatedAt p\<rparr>), w1)))"

definition Gw_Search :: "SearchRequest \<Rightarrow> payload res" where
  "Gw_Search req = Inr (PSearch 0)"

definition Gw_Like :: "(string \<rightharpoonup> ctxval) \<Rightarrow> LikeRequest \<Rightarrow> payload res" where
  "Gw_Like ctx req =
     (case GetUserIDFromContext ctx of
        None \<Rightarrow> Inl ErrUnauthorized
      | Some userID \<Rightarrow> Inr (PMap [(''message'', JStr msg_liked), (''post_id'', JInt (like_PostID req))]))"

definition Gw_Unlike :: "(string \<rightharpoonup> ctxval) \<Rightarrow> LikeRequest \<Rightarrow> payload res" where
  "Gw_Unlike ctx req =
     (case GetUserIDFromContext ctx of
        None \<Rightarrow> Inl ErrUnauthorized
      | Some userID \<Rightarrow> Inr (PMap [(''message'', JStr msg_unliked), (''post_id'', JInt (like_PostID req))]))"

definition Gw_Comment :: "(string \<rightharpoonup> ctxval) \<Rightarrow> CommentRequest \<Rightarrow> payload res" where
  "Gw_Comment ctx req =
     (case GetUserIDFromContext ctx of
        None \<Rightarrow> Inl ErrUnauthorized
      | Some userID \<Rightarrow> Inr (PMap [(''message'', JStr msg_commented), (''post_id'', JInt (creq_PostID req)),
          (''content'', JStr (creq_Content req)), (''comment_id'', JInt 1)]))"

definition Gw_Follow :: "(string \<rightharpoonup> ctxval) \<Rightarrow> FollowRequest \<Rightarrow> payload res" where
  "Gw_Follow ctx req =
     (case GetUserIDFromContext ctx of
        None \<Rightarrow> Inl ErrUnauthorized
      | Some userID \<Rightarrow> Inr (PMap [(''message'', JStr msg_followed), (''user_id'', JInt (freq_UserID req))]))"

definition Gw_Unfollow :: "(string \<rightharpoonup> ctxval) \<Rightarrow> FollowRequest \<Rightarrow> payload res" where
  "Gw_Unfollow ctx req =
     (case GetUserIDFromContext ctx of
        None \<Rightarrow> Inl ErrUnauthorized
      | Some userID \<Rightarrow> Inr (PMap [(''message'', JStr msg_unfollowed), (''user_id'', JInt (freq_UserID req))]))"

definition Gw_GetFollowers :: "int \<Rightarrow> int \<Rightarrow> int \<Rightarrow> payload res" where
  "Gw_GetFollowers userID page pageSize = Inr (PMap [(''total'', JInt 0), (''list'', JEmptyList)])"

definition Gw_GetFollowing :: "int \<Rightarrow> int \<Rightarrow> int \<Rightarrow> payload res" where
  "Gw_GetFollowing userID page pageSize = Inr (PMap [(''total'', JInt 0), (''list'', JEmptyList)])"

section \<open>Handlers and routes\<close>

text \<open>
  A path parameter: go-zero keeps it where \<open>r.PathValue\<close> does not look, so a query value of the
  same name comes first, then the fourth part of the path of a posts route.
\<close>

definition path_part :: "HttpRequest \<Rightarrow> string" where
  "path_part r =
     (let pathParts = split_on CHR ''/'' (trim_char CHR ''/'' (hr_Path r))
      in if 4 \<le> length pathParts \<and> pathParts ! 2 = ''posts'' then pathParts ! 3 else [])"

definition getPathInt64 :: "HttpRequest \<Rightarrow> string \<Rightarrow> int res" where
  "getPathInt64 r k =
     (let v1 = hr_PathValue r k;
          v2 = (if v1 = [] then hr_Query r k else v1);
          v3 = (if v2 = [] then path_part r else v2)
      in if v3 = [] then Inl (Errorf (''missing path parameter: '' @ k))
         else (case ParseInt v3 of
                 Inl err \<Rightarrow> Inl (Errorf (''invalid path parameter '' @ k @ '': '' @ err_text err))
               | Inr result \<Rightarrow> Inr result))"

text \<open>The end of every handler.\<close>

definition respond :: "payload res \<Rightarrow> HttpResponse" where
  "respond r = (case r of Inl err \<Rightarrow> ErrorCtx err | Inr resp \<Rightarrow> OkJsonCtx resp)"

definition RegisterHandlerFunc :: "httpx \<Rightarrow> jwtlib \<Rightarrow> int \<Rightarrow> ('c, 'w) GwSvc \<Rightarrow> 'w HandlerFunc" where
  "RegisterHandlerFunc H J now s r w =
     (case parseRegister H r of
        Inl err \<Rightarrow> (ErrorCtx err, w)
      | Inr req \<Rightarrow> (respond (Gw_Register J now s req), w))"

definition LoginHandlerFunc :: "httpx \<Rightarrow> jwtlib \<Rightarrow> int \<Rightarrow> ('c, 'w) GwSvc \<Rightarrow> 'w HandlerFunc" where
  "LoginHandlerFunc H J now s r w =
     (case parseLogin H r of
        Inl err \<Rightarrow> (ErrorCtx err, w)
      | Inr req \<Rightarrow> (respond (Gw_Login J now s req), w))"

definition CreatePostHandlerFunc :: "httpx \<Rightarrow> ('c, 'w) GwSvc \<Rightarrow> 'w HandlerFunc" where
  "CreatePostHandlerFunc H s r w =
     (case parseCreatePost H r of
        Inl err \<Rightarrow> (ErrorCtx err, w)
      | Inr req \<Rightarrow> (case Gw_CreatePost s (hr_Ctx r) req w of (resp, w1) \<Rightarrow> (respond resp, w1)))"

definition DeletePostHandlerFunc :: "'w HandlerFunc" where
  "DeletePostHandlerFunc r w =
     (case getPathInt64 r ''id'' of
        Inl err \<Rightarrow> (ErrorCtx err, w)
      | Inr i \<Rightarrow> (respond (Gw_DeletePost (hr_Ctx r) i), w))"

definition SearchHandlerFunc :: "httpx \<Rightarrow> 'w HandlerFunc" where
  "SearchHandlerFunc H r w =
     (case parseSearch H r of
        Inl err \<Rightarrow> (ErrorCtx err, w)
      | Inr req \<Rightarrow> (respond (Gw_Search req), w))"

definition LikeHandlerFunc :: "httpx \<Rightarrow> 'w HandlerFunc" where
  "LikeHandlerFunc H r w =
     (case parseLike H r of
        Inl err \<Rightarrow> (ErrorCtx err, w)
      | Inr req \<Rightarrow> (respond (Gw_Like (hr_Ctx r) req), w))"

definition CommentHandlerFunc :: "httpx \<Rightarrow> 'w HandlerFunc" where
  "CommentHandlerFunc H r w =
     (case parseComment H r of
        Inl err \<Rightarrow> (ErrorCtx err, w)
      | Inr req \<Rightarrow> (respond (Gw_Comment (hr_Ctx r) req), w))"

definition FollowHandlerFunc :: "httpx \<Rightarrow> 'w HandlerFunc" where
  "FollowHandlerFunc H r w =
     (case parseFollow H r of
        Inl err \<Rightarrow> (ErrorCtx err, w)
      | Inr req \<Rightarrow> (respond (Gw_Follow (hr_Ctx r) req), w))"

definition GetPostDetailHandlerFunc :: "('c, 'w) GwSvc \<Rightarrow> 'w HandlerFunc" where
  "GetPostDetailHandlerFunc s r w =
     (case getPathInt64 r ''id'' of
        Inl err \<Rightarrow> (ErrorCtx err, w)
      | Inr i \<Rightarrow> (case Gw_GetPostDetail s i w of (resp, w1) \<Rightarrow> (respond resp, w1)))"

text \<open>
  The route table: method, path pattern and handler. The router that matches a request against
  the patterns is go-zero's.
\<close>

record 'w Route =
  rt_Method :: string
  rt_Path :: string
  rt_Handler :: "'w HandlerFunc"

definition RegisterHandler ::
  "httpx \<Rightarrow> jwtlib \<Rightarrow> int \<Rightarrow> int \<Rightarrow> ('c, 'w) GwSvc \<Rightarrow> 'w Route list" where
  "RegisterHandler H J now now' s =
     (let auth = JWTAuthMiddleware J (gw_JWT s) now now' in
      [\<lparr>rt_Method = ''POST'', rt_Path = ''/api/v1/auth/register'', rt_Handler = RegisterHandlerFunc H J now s\<rparr>,
       \<lparr>rt_Method = ''POST'', rt_Path = ''/api/v1/auth/login'', rt_Handler = LoginHandlerFunc H J now s\<rparr>,
       \<lparr>rt_Method = ''GET'', rt_Path = ''/api/v1/search'', rt_Handler = SearchHandlerFunc H\<rparr>,
       \<lparr>rt_Method = ''POST'', rt_Path = ''/api/v1/posts'', rt_Handler = auth (CreatePostHandlerFunc H s)\<rparr>,
       \<lparr>rt_Method = ''GET'', rt_Path = ''/api/v1/posts/:id'', rt_Handler = GetPostDetailHandlerFunc s\<rparr>,
       \<lparr>rt_Method = ''DELETE'', rt_Path = ''/api/v1/posts/:id'', rt_Handler = auth DeletePostHandlerFunc\<rparr>,
       \<lparr>rt_Method = ''POST'', rt_Path = ''/api/v1/interaction/like'', rt_Handler = auth (LikeHandlerFunc H)\<rparr>,
       \<lparr>rt_Method = ''POST'', rt_Path = ''/api/v1/interaction/comment'', rt_Handler = auth (CommentHandlerFunc H)\<rparr>,
       \<lparr>rt_Method = ''POST'', rt_Path = ''/api/v1/interaction/follow'', rt_Handler = auth (FollowHandlerFunc H)\<rparr>])"

section \<open>Who gets past the middleware\<close>

lemma bearer_token_iff: "bearer_token h = Inr t \<longleftrightarrow> h = ''Bearer '' @ t"
proof
  assume l: "bearer_token h = Inr t"
  then have "CHR '' '' \<in> set h"
    using length_split2 [of "CHR '' ''" h] by (auto simp: bearer_token_def split: if_splits list.splits)
  then obtain a b where h: "h = a @ CHR '' '' # b" "CHR '' '' \<notin> set a" by (metis split_list_first)
  with l have "a = ''Bearer''" "b = t"
    by (auto simp: bearer_token_def split2_append split: if_splits)
  with h show "h = ''Bearer '' @ t" by simp
next
  assume "h = ''Bearer '' @ t"
  moreover have "split2 CHR '' '' (''Bearer'' @ CHR '' '' # t) = [''Bearer'', t]"
    by (rule split2_append) simp
  ultimately show "bearer_token h = Inr t" by (simp add: bearer_token_def)
qed

lemma check_token_iff:
  assumes "jwt_laws J dec sig" "now \<le> now'"
  shows "check_token J c now now' t = Inr cl \<longleftrightarrow> accepted dec sig now (jwt_Secret c) t cl"
proof (cases "Gateway_ParseToken J now t (jwt_Secret c)")
  case (Inr cl')
  with Gateway_ParseToken_iff [OF assms(1), of now t "jwt_Secret c"] show ?thesis
    by (simp add: check_token_def)
next
  case (Inl e)
  then have no: "\<not> accepted dec sig now (jwt_Secret c) t cl"
    using Gateway_ParseToken_iff [OF assms(1), of now t "jwt_Secret c" cl] by simp
  have "check_token J c now now' t \<noteq> Inr cl"
  proof (cases "contains (err_text e) ''token is expired''")
    case True
    then have "\<not> accepted dec sig now' (jwt_PrevSecret c) t cl"
      using Gateway_ParseToken_expired [OF assms(1) Inl _ assms(2)] by (simp add: expired_msg_def)
    then have "Gateway_ParseToken J now' t (jwt_PrevSecret c) \<noteq> Inr cl"
      by (simp add: Gateway_ParseToken_iff [OF assms(1)])
    with Inl True show ?thesis by (auto simp: check_token_def split: sum.split)
  qed (simp add: check_token_def Inl)
  with no show ?thesis by simp
qed

definition good_token ::
  "(string \<Rightarrow> (string \<times> JWTClaims) option) \<Rightarrow> (string \<Rightarrow> string \<Rightarrow> bool) \<Rightarrow> int \<Rightarrow> JWTConfig \<Rightarrow> HttpRequest \<Rightarrow> JWTClaims \<Rightarrow> bool" where
  "good_token dec sig now c r cl \<longleftrightarrow>
     (\<exists>t. hr_Header r ''Authorization'' = ''Bearer '' @ t \<and> accepted dec sig now (jwt_Secret c) t cl)"

lemma middleware_passes:
  assumes "jwt_laws J dec sig" "now \<le> now'" "good_token dec sig now c r cl"
  shows "JWTAuthMiddleware J c now now' nxt r w = nxt (with_user r cl) w"
proof -
  from assms(3) obtain t where t: "bearer_token (hr_Header r ''Authorization'') = Inr t"
    "check_token J c now now' t = Inr cl"
    by (auto simp: good_token_def bearer_token_iff check_token_iff [OF assms(1,2)])
  then show ?thesis by (simp add: JWTAuthMiddleware_def)
qed

lemma middleware_stops:
  assumes "jwt_laws J dec sig" "now \<le> now'" "\<And>cl. \<not> good_token dec sig now c r cl"
  obtains e where "\<And>nxt w. JWTAuthMiddleware J c now now' nxt r w = (ErrorCtx e, w)"
proof (cases "bearer_token (hr_Header r ''Authorization'')")
  case (Inl e)
  then show ?thesis by (intro that [of e]) (simp add: JWTAuthMiddleware_def)
next
  case (Inr t)
  show ?thesis
  proof (cases "check_token J c now now' t")
    case (Inl e)
    with Inr show ?thesis by (intro that [of e]) (simp add: JWTAuthMiddleware_def)
  next
    case (Inr cl)
    with \<open>bearer_token _ = Inr t\<close> assms(3) [of cl] show ?thesis
      by (auto simp: good_token_def bearer_token_iff check_token_iff [OF assms(1,2)])
  qed
qed

lemma middleware_refuses:
  "jwt_laws J dec sig \<Longrightarrow> now \<le> now' \<Longrightarrow> (\<And>cl. \<not> good_token dec sig now c r cl) \<Longrightarrow>
   \<exists>e. \<forall>nxt w. JWTAuthMiddleware J c now now' nxt r w = (ErrorCtx e, w)"
  using middleware_stops [of J dec sig now now' c r] by metis

text \<open>
  C13: The middleware hands a request on exactly when its header is "Bearer " and a token that is signed
  by HMAC with the current secret and current at the time of the check, and it hands it on with the
  user id and name of that token in the context; every other request is answered with an error and
  reaches no handler. The previous secret never matters: a token signed with it is refused although the
  configuration names it for rotation, because the fallback runs only for tokens that have expired.
\<close>

theorem middleware_admits_iff:
  assumes "jwt_laws J dec sig" "now \<le> now'"
  shows "(\<forall>cl nxt w. good_token dec sig now c r cl \<longrightarrow>
            JWTAuthMiddleware J c now now' nxt r w = nxt (with_user r cl) w)
    \<and> ((\<forall>cl. \<not> good_token dec sig now c r cl) \<longrightarrow>
         (\<exists>e. \<forall>nxt w. JWTAuthMiddleware J c now now' nxt r w = (ErrorCtx e, w)))
    \<and> JWTAuthMiddleware J c now now' = JWTAuthMiddleware J (c\<lparr>jwt_PrevSecret := []\<rparr>) now now'"
proof (intro conjI allI impI)
  show "JWTAuthMiddleware J c now now' nxt r w = nxt (with_user r cl) w" if "good_token dec sig now c r cl" for cl nxt w
    by (rule middleware_passes [OF assms that])
  show "\<exists>e. \<forall>nxt w. JWTAuthMiddleware J c now now' nxt r w = (ErrorCtx e, w)" if "\<forall>cl. \<not> good_token dec sig now c r cl"
    using middleware_refuses [OF assms] that by blast
  have "check_token J c now now' t = check_token J (c\<lparr>jwt_PrevSecret := []\<rparr>) now now' t" for t
  proof (cases "Gateway_ParseToken J now t (jwt_Secret c)")
    case (Inl e)
    have "Gateway_ParseToken J now' t (jwt_PrevSecret c) \<noteq> Inr cl" if "contains (err_text e) ''token is expired''" for cl
      using Gateway_ParseToken_expired [OF assms(1) Inl _ assms(2)] that
      by (simp add: expired_msg_def Gateway_ParseToken_iff [OF assms(1)])
    with Inl show ?thesis by (auto simp: check_token_def split: sum.split)
  qed (simp add: check_token_def)
  then have "check_token J c now now' = check_token J (c\<lparr>jwt_PrevSecret := []\<rparr>) now now'" by (rule ext)
  then show "JWTAuthMiddleware J c now now' = JWTAuthMiddleware J (c\<lparr>jwt_PrevSecret := []\<rparr>) now now'"
    by (intro ext) (simp only: JWTAuthMiddleware_def)
qed

text \<open>For examples: one token, one request.\<close>

definition gw_claims :: JWTClaims where
  "gw_claims = \<lparr>jc_UserID = 7, jc_Username = ''ann'', jc_ExpiresAt = Some 200, jc_IssuedAt = Some 100,
     jc_NotBefore = Some 100, jc_Issuer = [], jc_Subject = []\<rparr>"

definition gw_config :: JWTConfig where
  "gw_config = \<lparr>jwt_Secret = ''s3cret'', jwt_Expire = 100, jwt_PrevSecret = ''old'', jwt_PrevExpire = 0\<rparr>"

definition gw_request :: HttpRequest where
  "gw_request = \<lparr>hr_Header = (\<lambda>h. if h = ''Authorization'' then ''Bearer tok'' else []),
     hr_PathValue = (\<lambda>k. []), hr_Query = (\<lambda>k. []), hr_Path = ''/api/v1/posts/42'', hr_Body = [], hr_Ctx = Map.empty\<rparr>"

lemma gw_good_token:
  "good_token (one_dec gw_claims) one_sig 150000000000 gw_config gw_request gw_claims"
  by (simp add: good_token_def gw_request_def accepted_def one_dec_def one_sig_def gw_config_def gw_claims_def
      current_def is_HMAC_def)

lemma gw_no_token:
  "\<not> good_token (one_dec gw_claims) one_sig 150000000000 gw_config (gw_request\<lparr>hr_Header := (\<lambda>h. ''Bearer x'')\<rparr>) cl"
  by (simp add: good_token_def accepted_def one_dec_def)

abbreviation "gw_bad_request \<equiv> gw_request\<lparr>hr_Header := (\<lambda>h. ''Bearer x'')\<rparr>"

theorem middleware_admits_iff_witness:
  "(\<forall>nxt w. JWTAuthMiddleware (one_jwt gw_claims) gw_config 150000000000 150000000001 nxt gw_request w =
      (nxt (with_user gw_request gw_claims) (w :: int) :: HttpResponse \<times> int))
   \<and> (\<exists>e. \<forall>nxt w. JWTAuthMiddleware (one_jwt gw_claims) gw_config 150000000000 150000000001 nxt
         gw_bad_request w = (ErrorCtx e, w :: int))"
proof -
  have le: "(150000000000 :: int) \<le> 150000000001" by simp
  note T = middleware_admits_iff [OF one_jwt_laws le, of gw_claims gw_config]
  show ?thesis
    by (intro conjI allI T [of gw_request, THEN conjunct1, rule_format] gw_good_token
      T [of gw_bad_request, THEN conjunct2, THEN conjunct1, rule_format] gw_no_token)
qed

section \<open>What the routes do\<close>

lemmas handler_defs = RegisterHandlerFunc_def LoginHandlerFunc_def SearchHandlerFunc_def DeletePostHandlerFunc_def
  LikeHandlerFunc_def CommentHandlerFunc_def FollowHandlerFunc_def

lemma middleware_keeps:
  assumes "\<And>r w. snd (nxt r w) = w"
  shows "snd (JWTAuthMiddleware J c now now' nxt r w) = w"
  using assms by (auto simp: JWTAuthMiddleware_def split: sum.split)

lemma handlers_keep:
  "snd (RegisterHandlerFunc H J now s r w) = w" "snd (LoginHandlerFunc H J now s r w) = w"
  "snd (SearchHandlerFunc H r w) = w" "snd (DeletePostHandlerFunc r w) = w" "snd (LikeHandlerFunc H r w) = w"
  "snd (CommentHandlerFunc H r w) = w" "snd (FollowHandlerFunc H r w) = w"
  by (simp_all add: handler_defs split: sum.split)

text \<open>
  C14: Only two routes reach a service: every route other than creating a post and reading one leaves the
  rest of the system as it was, so likes, comments, follows and deletions sent through the gateway are
  answered and lost; and without a good token every route outside registration, login, search and
  reading a post is answered with an error.
\<close>

theorem gateway_routes_guarded:
  fixes rt :: "'w Route"
  assumes "jwt_laws J dec sig" "now \<le> now'" "rt \<in> set (RegisterHandler H J now now' s)"
  shows "((rt_Method rt, rt_Path rt) \<notin> {(''POST'', ''/api/v1/posts''), (''GET'', ''/api/v1/posts/:id'')} \<longrightarrow>
            (\<forall>w. snd (rt_Handler rt r w) = w))
    \<and> ((rt_Method rt, rt_Path rt) \<notin> {(''POST'', ''/api/v1/auth/register''), (''POST'', ''/api/v1/auth/login''),
            (''GET'', ''/api/v1/search''), (''GET'', ''/api/v1/posts/:id'')} \<longrightarrow>
          (\<forall>cl. \<not> good_token dec sig now (gw_JWT s) r cl) \<longrightarrow>
          (\<exists>e. \<forall>w. rt_Handler rt r w = (ErrorCtx e, w)))"
proof (intro conjI impI allI)
  show "snd (rt_Handler rt r w) = w"
    if "(rt_Method rt, rt_Path rt) \<notin> {(''POST'', ''/api/v1/posts''), (''GET'', ''/api/v1/posts/:id'')}" for w
    using assms(3) that
    by (auto simp: RegisterHandler_def Let_def handlers_keep intro!: middleware_keeps)
  show "\<exists>e. \<forall>w. rt_Handler rt r w = (ErrorCtx e, w)"
    if "(rt_Method rt, rt_Path rt) \<notin> {(''POST'', ''/api/v1/auth/register''), (''POST'', ''/api/v1/auth/login''),
            (''GET'', ''/api/v1/search''), (''GET'', ''/api/v1/posts/:id'')}"
      and no: "\<forall>cl. \<not> good_token dec sig now (gw_JWT s) r cl"
  proof -
    from middleware_stops [OF assms(1,2)] no obtain e where
      e: "\<And>nxt w. JWTAuthMiddleware J (gw_JWT s) now now' nxt r (w :: 'w) = (ErrorCtx e, w)" by metis
    from assms(3) that(1) have "\<exists>nxt. rt_Handler rt = JWTAuthMiddleware J (gw_JWT s) now now' nxt"
      by (auto simp: RegisterHandler_def Let_def)
    with e show ?thesis by auto
  qed
qed

lemma getPathInt64_with_user: "getPathInt64 (with_user r cl) k = getPathInt64 r k"
proof -
  have "path_part (with_user r cl) = path_part r" "hr_PathValue (with_user r cl) = hr_PathValue r"
    "hr_Query (with_user r cl) = hr_Query r"
    by (simp_all add: path_part_def with_user_def)
  then show ?thesis by (simp only: getPathInt64_def)
qed

lemmas context_defs = GetUserIDFromContext_def GetUsernameFromContext_def username_of_def with_user_def
  GetUserIDKey_def GetUsernameKey_def UserIDKey_def UsernameKey_def

text \<open>
  Deleting through the gateway deletes nothing: with a good token and a readable id the route
  answers that the post was deleted, whatever the id and whoever owns the post, and changes nothing.
\<close>

theorem gateway_delete_is_answered:
  assumes "jwt_laws J dec sig" "now \<le> now'" "good_token dec sig now c r cl" "getPathInt64 r ''id'' = Inr i"
  shows "JWTAuthMiddleware J c now now' DeletePostHandlerFunc r w =
    (OkJsonCtx (PMap [(''message'', JStr msg_deleted), (''post_id'', JInt i)]), w)"
proof -
  have "getPathInt64 (with_user r cl) ''id'' = Inr i"
    by (simp add: getPathInt64_with_user assms(4))
  moreover have "GetUserIDFromContext (hr_Ctx (with_user r cl)) = Some (jc_UserID cl)"
    by (simp add: context_defs)
  ultimately show ?thesis
    unfolding middleware_passes [OF assms(1-3)] by (simp add: DeletePostHandlerFunc_def Gw_DeletePost_def respond_def)
qed

lemma trim_char_id: "s \<noteq> [] \<Longrightarrow> hd s \<noteq> c \<Longrightarrow> last s \<noteq> c \<Longrightarrow> trim_char c s = s"
proof -
  assume s: "s \<noteq> []" "hd s \<noteq> c" "last s \<noteq> c"
  then have "dropWhile (\<lambda>x. x = c) s = s" "dropWhile (\<lambda>x. x = c) (rev s) = rev s"
    by (simp_all add: dropWhile_eq_self_iff hd_rev)
  then show ?thesis by (simp add: trim_char_def)
qed

lemma show_int_no_slash: "CHR ''/'' \<notin> set (show_int n)"
  using show_int_chars [of "CHR ''/''" n] by (auto simp: is_digit_def)

lemma posts_path_part:
  assumes "hr_Path r = ''/api/v1/posts/'' @ show_int n"
  shows "path_part r = show_int n"
proof -
  let ?p = "''api/v1/posts/'' @ show_int n"
  have "last (show_int n) \<noteq> CHR ''/''"
    using show_int_no_slash last_in_set [OF show_int_nonempty] by metis
  then have "last ?p \<noteq> CHR ''/''" by simp
  then have "trim_char CHR ''/'' ?p = ?p" by (intro trim_char_id) simp_all
  then have "trim_char CHR ''/'' (hr_Path r) = ?p" using assms by (simp add: trim_char_def)
  moreover have "split_on CHR ''/'' ?p = [''api'', ''v1'', ''posts'', show_int n]"
    by (simp add: split_on_none show_int_no_slash)
  ultimately show ?thesis by (simp add: path_part_def)
qed

lemma path_id:
  assumes "hr_Path r = ''/api/v1/posts/'' @ show_int n" "is_int64 n" "hr_PathValue r ''id'' = []" "hr_Query r ''id'' = []"
  shows "getPathInt64 r ''id'' = Inr n"
  using assms(2-4) by (simp add: getPathInt64_def posts_path_part [OF assms(1)])

text \<open>
  The path id: on a path /api/v1/posts/n with n an int64 the handlers read n, but a query value
  named id wins over the path, so DELETE /api/v1/posts/42?id=9 acts on post 9.
\<close>

theorem path_id_overridden:
  assumes "hr_Path r = ''/api/v1/posts/'' @ show_int n" "is_int64 n" "hr_PathValue r ''id'' = []"
    and "hr_Query r ''id'' \<in> {[], show_int q}" "is_int64 q"
  shows "getPathInt64 r ''id'' = Inr (if hr_Query r ''id'' = [] then n else q)"
  using assms(2-5) path_id [OF assms(1-3)]
  by (cases "hr_Query r ''id'' = []") (simp_all add: getPathInt64_def)

lemma gw_path_id: "getPathInt64 gw_request ''id'' = Inr 42"
proof -
  have "show_int 42 = ''42''" by code_simp
  then show ?thesis by (intro path_id) (simp_all add: gw_request_def is_int64_def)
qed

theorem gateway_delete_is_answered_witness:
  "JWTAuthMiddleware (one_jwt gw_claims) gw_config 150000000000 150000000001 DeletePostHandlerFunc gw_request (0 :: int) =
    (OkJsonCtx (PMap [(''message'', JStr msg_deleted), (''post_id'', JInt 42)]), 0)"
  by (rule gateway_delete_is_answered [OF one_jwt_laws _ gw_good_token gw_path_id]) simp

theorem path_id_overridden_witness:
  "getPathInt64 (gw_request\<lparr>hr_Query := (\<lambda>k. ''9'')\<rparr>) ''id'' = Inr 9"
proof -
  have "show_int 42 = ''42''" "show_int 9 = ''9''" by code_simp+
  then show ?thesis
    using path_id_overridden [of "gw_request\<lparr>hr_Query := (\<lambda>k. ''9'')\<rparr>" 42 9]
    by (simp add: gw_request_def is_int64_def)
qed

section \<open>The gateway's own tokens\<close>

text \<open>A token signed with the gateway's secret passes while its dates are current.\<close>

lemma signed_token_good:
  assumes "jwt_signs J dec sig plain" "jwtSign J HS256 cl (jwt_Secret c) = Inr t" "plain cl" "current cl now"
    and "hr_Header r ''Authorization'' = ''Bearer '' @ t"
  shows "good_token dec sig now c r cl"
  using assms by (auto simp: jwt_signs_def good_token_def accepted_def is_HMAC_def)

text \<open>
  Login at the gateway checks nothing: whatever the name and the password, a login that is answered
  carries a token for user 1, the same for every password, and until its lifetime is over the
  middleware lets the bearer in as user 1 under the name of the request.
\<close>

theorem gateway_login_checks_nothing:
  assumes "jwt_laws J dec sig" "jwt_signs J dec sig plain" "\<forall>cl. jc_Username cl = log_Username req \<longrightarrow> plain cl"
    and "Gw_Login J now0 s req = Inr (PLogin resp)"
    and "hr_Header r ''Authorization'' = ''Bearer '' @ lresp_Token resp"
    and "is_int64 (jwt_Expire (gw_JWT s) * 1000000000)" "now0 \<le> now" "now \<le> now'"
    and "now < (now0 div 1000000000 + jwt_Expire (gw_JWT s)) * 1000000000"
  shows "Gw_Login J now0 s (req\<lparr>log_Password := p\<rparr>) = Inr (PLogin resp)
    \<and> (\<exists>cl. jc_UserID cl = 1 \<and> jc_Username cl = log_Username req \<and>
         (\<forall>nxt w. JWTAuthMiddleware J (gw_JWT s) now now' nxt r w = nxt (with_user r cl) w))"
proof -
  define cl where "cl = \<lparr>jc_UserID = 1, jc_Username = log_Username req,
    jc_ExpiresAt = NewNumericDate (add_seconds now0 (jwt_Expire (gw_JWT s))),
    jc_IssuedAt = NewNumericDate now0, jc_NotBefore = NewNumericDate now0, jc_Issuer = [], jc_Subject = []\<rparr>"
  have cl: "jc_UserID cl = 1" "jc_Username cl = log_Username req" by (simp_all add: cl_def)
  have "jwtSign J HS256 cl (jwt_Secret (gw_JWT s)) = Inr (lresp_Token resp)"
    using assms(4) by (auto simp: Gw_Login_def Gateway_GenerateToken_def cl_def split: sum.splits)
  moreover have "current cl now"
    by (rule fresh_current [OF assms(6,7,9)]) (simp_all add: cl_def)
  ultimately have good: "good_token dec sig now (gw_JWT s) r cl"
    using signed_token_good [OF assms(2) _ _ _ assms(5)] assms(3) cl by blast
  have "Gw_Login J now0 s (req\<lparr>log_Password := p\<rparr>) = Inr (PLogin resp)"
    using assms(4) by (auto simp: Gw_Login_def split: sum.splits)
  then show ?thesis
    by (intro conjI exI [of _ cl] allI middleware_passes [OF assms(1,8) good] cl)
qed

definition gw_login_claims :: JWTClaims where
  "gw_login_claims = gw_claims\<lparr>jc_UserID := 1\<rparr>"

text \<open>A configuration whose post service has no endpoint, so that its client stays nil.\<close>

definition gw_lib :: "'w PostClient \<Rightarrow> (unit, 'w) rpclib" where
  "gw_lib pc = \<lparr>rpcNewClient = (\<lambda>c t w. (if rc_Endpoints c = [] then Inl (ErrLib ''refused'') else Inr \<lparr>zc_Conn = ()\<rparr>, w)),
     rpcNewPostClient = (\<lambda>conn. pc)\<rparr>"

definition gw_conf :: "string list \<Rightarrow> GwConfig" where
  "gw_conf posts = \<lparr>gc_Auth = \<lparr>rc_Endpoints = [''a''], rc_Timeout = 0\<rparr>, gc_Post = \<lparr>rc_Endpoints = posts, rc_Timeout = 0\<rparr>,
     gc_Search = \<lparr>rc_Endpoints = [''s''], rc_Timeout = 0\<rparr>, gc_Interaction = \<lparr>rc_Endpoints = [''i''], rc_Timeout = 0\<rparr>,
     gc_JWT = gw_config\<rparr>"

definition gw_demo :: "'w PostClient \<Rightarrow> 'w \<Rightarrow> string list \<Rightarrow> (unit, 'w) GwSvc" where
  "gw_demo pc w posts = fst (NewGwServiceContext (gw_lib pc) (gw_conf posts) w)"

lemma gw_demo_JWT [simp]: "gw_JWT (gw_demo pc w posts) = gw_config"
  by (simp add: gw_demo_def NewGwServiceContext_config gw_conf_def)

lemma gw_demo_PostRpc [simp]: "gw_PostRpc (gw_demo pc w posts) = (if posts = [] then None else Some pc)"
  by (simp add: gw_demo_def NewGwServiceContext_def Let_def newAuthClient_def newPostClient_def newRpcClient_def
      gw_lib_def gw_conf_def)

definition gw_svc :: "(unit, int) GwSvc" where
  "gw_svc = gw_demo \<lparr>pcCreatePost = (\<lambda>req w. (Inl ErrCtx, w)), pcGetPost = (\<lambda>i u w. (Inl ErrCtx, w))\<rparr> 0 []"

definition gw_login_request :: LoginRequest where
  "gw_login_request = \<lparr>log_Username = ''ann'', log_Password = ''x''\<rparr>"

lemma gw_logs_in:
  "Gw_Login (one_jwt gw_login_claims) 100000000000 gw_svc gw_login_request =
     Inr (PLogin \<lparr>lresp_Token = ''tok'', lresp_ID = 1, lresp_Username = ''ann'', lresp_Email = ''demo@example.com''\<rparr>)"
  by code_simp

theorem gateway_login_checks_nothing_witness:
  "\<exists>cl. jc_UserID cl = 1 \<and> jc_Username cl = ''ann'' \<and>
     (\<forall>nxt w. JWTAuthMiddleware (one_jwt gw_login_claims) gw_config 150000000000 150000000000 nxt gw_request (w :: int) =
        (nxt (with_user gw_request cl) w :: HttpResponse \<times> int))"
proof -
  have svc: "gw_JWT gw_svc = gw_config" by (simp add: gw_svc_def)
  let ?resp = "\<lparr>lresp_Token = ''tok'', lresp_ID = 1, lresp_Username = ''ann'', lresp_Email = ''demo@example.com''\<rparr>"
  have hdr: "hr_Header gw_request ''Authorization'' = ''Bearer '' @ lresp_Token ?resp" by (simp add: gw_request_def)
  have life: "is_int64 (jwt_Expire (gw_JWT gw_svc) * 1000000000)"
    "(150000000000 :: int) < (100000000000 div 1000000000 + jwt_Expire (gw_JWT gw_svc)) * 1000000000"
    by (simp_all add: svc gw_config_def is_int64_def)
  have "log_Username gw_login_request = ''ann''" by (simp add: gw_login_request_def)
  with gateway_login_checks_nothing [OF one_jwt_laws one_jwt_signs [where plain = "\<lambda>_. True"] _ gw_logs_in hdr life(1) _ _ life(2),
      of 150000000000, THEN conjunct2]
  show ?thesis by (simp add: svc)
qed

theorem gateway_routes_guarded_witness:
  "\<forall>H. \<exists>e. \<forall>w. JWTAuthMiddleware (one_jwt gw_claims) gw_config 150000000000 150000000000 (LikeHandlerFunc H)
     gw_bad_request (w :: int) = (ErrorCtx e, w)"
proof
  fix H
  have svc: "gw_JWT gw_svc = gw_config" by (simp add: gw_svc_def)
  let ?rt = "\<lparr>rt_Method = ''POST'', rt_Path = ''/api/v1/interaction/like'',
    rt_Handler = JWTAuthMiddleware (one_jwt gw_claims) (gw_JWT gw_svc) 150000000000 150000000000 (LikeHandlerFunc H)\<rparr>"
  have rt: "?rt \<in> set (RegisterHandler H (one_jwt gw_claims) 150000000000 150000000000 gw_svc)"
    by (simp add: RegisterHandler_def Let_def)
  from gateway_routes_guarded [OF one_jwt_laws order_refl rt, of gw_bad_request] gw_no_token
  show "\<exists>e. \<forall>w. JWTAuthMiddleware (one_jwt gw_claims) gw_config 150000000000 150000000000 (LikeHandlerFunc H)
      gw_bad_request (w :: int) = (ErrorCtx e, w)"
    by (simp add: svc)
qed

end
