(* ===== verification/Deployment.thy ===== *)
theory Deployment
  imports Gateway
begin

text \<open>
  The auth service and the gateway as they are started (\<open>auth/cmd/server/main.go\<close>,
  \<open>api-gateway/gateway.go\<close>) with the configurations of the repository (\<open>auth/etc/auth.yaml\<close>,
  \<open>api-gateway/etc/gateway.yaml\<close>), and the tokens this system hands out. Loading the files, the
  HTTP and RPC servers and the router are the framework's.
\<close>

section \<open>main\<close>

definition auth_main ::
  "('w \<Rightarrow> int) \<Rightarrow> jwtlib \<Rightarrow> (string \<Rightarrow> 'w auth_sqlconn) \<Rightarrow> AuthServiceConfig \<Rightarrow>
   auth_rpc \<Rightarrow> 'w \<Rightarrow> AuthLoginResponse res \<times> 'w" where
  "auth_main clk J newMysql c = (let ctx = NewAuthServiceContext newMysql c in AuthServer clk J ctx)"

text \<open>The routes of a request that is checked at the times \<open>now\<close> and \<open>now'\<close>.\<close>

definition gateway_main ::
  "('c, 'w) rpclib \<Rightarrow> httpx \<Rightarrow> jwtlib \<Rightarrow> GwConfig \<Rightarrow> 'w \<Rightarrow> (int \<Rightarrow> int \<Rightarrow> 'w Route list) \<times> 'w" where
  "gateway_main L H J c w =
     (let (ctx, w1) = NewGwServiceContext L c w
      in (\<lambda>now now'. RegisterHandler H J now now' ctx, w1))"

section \<open>The shipped configurations\<close>

definition shipped_auth :: AuthServiceConfig where
  "shipped_auth = \<lparr>JwtAuth = \<lparr>AccessSecret = ''123isMySecret'', AccessExpire = 86400\<rparr>,
     asc_MySQL = \<lparr>amc_DataSource = ''root:li200602@tcp(${MYSQL_HOST:127.0.0.1}:${MYSQL_PORT:3306})/${MYSQL_DATABASE:bobo_db}?charset=utf8mb4&parseTime=true&loc=Local''\<rparr>\<rparr>"

text \<open>An RPC client without a timeout of its own has the framework's 2000 milliseconds.\<close>

definition shipped_gateway :: GwConfig where
  "shipped_gateway = \<lparr>
     gc_Auth = \<lparr>rc_Endpoints = [''127.0.0.1:8001''], rc_Timeout = 2000\<rparr>,
     gc_Post = \<lparr>rc_Endpoints = [''127.0.0.1:8002''], rc_Timeout = 30000\<rparr>,
     gc_Search = \<lparr>rc_Endpoints = [''127.0.0.1:8003''], rc_Timeout = 2000\<rparr>,
     gc_Interaction = \<lparr>rc_Endpoints = [''127.0.0.1:8004''], rc_Timeout = 2000\<rparr>,
     gc_JWT = \<lparr>jwt_Secret = ''b0b0-f0rum-s3cr3t-k3y-2024'', jwt_Expire = 86400, jwt_PrevSecret = [], jwt_PrevExpire = 0\<rparr>\<rparr>"

section \<open>Tokens the system hands out\<close>

text \<open>The token in an answer of the gateway.\<close>

fun answer_token :: "payload \<Rightarrow> string option" where
  "answer_token (PLogin l) = Some (lresp_Token l)"
| "answer_token (PMap m) = (case map_of m ''token'' of Some (JStr t) \<Rightarrow> Some t | _ \<Rightarrow> None)"
| "answer_token _ = None"

text \<open>
  What a client can have come to hold: tokens in answers of the gateway's routes, to any request at any
  time, and tokens in answers of the auth service.
\<close>

datatype issuer = GatewayToken | AuthToken

inductive handed_out ::
  "(int \<Rightarrow> int \<Rightarrow> 'g Route list) \<Rightarrow> (auth_rpc \<Rightarrow> 'w \<Rightarrow> AuthLoginResponse res \<times> 'w) \<Rightarrow> issuer \<Rightarrow> string \<Rightarrow> bool"
  for routes auth where
  by_gateway: "rt \<in> set (routes now now') \<Longrightarrow> rt_Handler rt r w = (OkJsonCtx p, w') \<Longrightarrow> answer_token p = Some t \<Longrightarrow>
     handed_out routes auth GatewayToken t"
| by_auth: "auth rpc w = (Inr resp, w') \<Longrightarrow> handed_out routes auth AuthToken (lr_Token resp)"

inductive_cases by_gatewayE: "handed_out routes auth GatewayToken t"
inductive_cases by_authE: "handed_out routes auth AuthToken t"

text \<open>Handlers that answer without a token keep doing so behind the middleware.\<close>

definition tokenless :: "'w HandlerFunc \<Rightarrow> bool" where
  "tokenless h \<longleftrightarrow> (\<forall>r w p w'. h r w = (OkJsonCtx p, w') \<longrightarrow> answer_token p = None)"

lemma tokenless_middleware: "tokenless h \<Longrightarrow> tokenless (JWTAuthMiddleware J c now now' h)"
  unfolding tokenless_def JWTAuthMiddleware_def by (auto split: sum.splits)

lemmas logic_defs = Gw_DeletePost_def Gw_Like_def Gw_Comment_def Gw_Follow_def Gw_Search_def

lemma tokenless_handlers:
  "tokenless (SearchHandlerFunc H)" "tokenless DeletePostHandlerFunc" "tokenless (LikeHandlerFunc H)"
  "tokenless (CommentHandlerFunc H)" "tokenless (FollowHandlerFunc H)"
  by (auto simp: tokenless_def handler_defs logic_defs respond_def split: sum.splits option.splits)

lemma tokenless_posts: "tokenless (CreatePostHandlerFunc H s)" "tokenless (GetPostDetailHandlerFunc s)"
  by (auto simp: tokenless_def CreatePostHandlerFunc_def GetPostDetailHandlerFunc_def Gw_CreatePost_def
      Gw_GetPostDetail_def respond_def split: sum.splits option.splits prod.splits)

lemmas tokenless_all = tokenless_handlers tokenless_posts tokenless_middleware

text \<open>
  Names that a JSON body can carry; and two keys that are apart: what is signed with the one does not
  verify with the other.
\<close>

definition json_names :: "httpx \<Rightarrow> (JWTClaims \<Rightarrow> bool) \<Rightarrow> bool" where
  "json_names H plain \<longleftrightarrow>
     (\<forall>r req cl. parseLogin H r = Inr req \<longrightarrow> jc_Username cl = log_Username req \<longrightarrow> plain cl) \<and>
     (\<forall>r req cl. parseRegister H r = Inr req \<longrightarrow> jc_Username cl = reg_Username req \<longrightarrow> plain cl)"

definition keys_apart :: "jwtlib \<Rightarrow> (string \<Rightarrow> string \<Rightarrow> bool) \<Rightarrow> string \<Rightarrow> string \<Rightarrow> bool" where
  "keys_apart J sig k k' \<longleftrightarrow> (\<forall>cl t. jwtSign J HS256 cl k = Inr t \<longrightarrow> \<not> sig t k')"

lemma Gateway_signed:
  "Gateway_GenerateToken J now i n k e = Inr t \<Longrightarrow>
   \<exists>cl. jc_UserID cl = i \<and> jc_Username cl = n \<and> jwtSign J HS256 cl k = Inr t"
  unfolding Gateway_GenerateToken_def by (intro exI conjI) (simp_all (no_asm_use))

lemma LoginHandler_token:
  assumes "json_names H plain" "LoginHandlerFunc H J now s r w = (OkJsonCtx p, w')" "answer_token p = Some t"
  shows "\<exists>cl. jc_UserID cl = 1 \<and> plain cl \<and> jwtSign J HS256 cl (jwt_Secret (gw_JWT s)) = Inr t"
proof -
  from assms(2,3) obtain req where "parseLogin H r = Inr req"
    "Gateway_GenerateToken J now 1 (log_Username req) (jwt_Secret (gw_JWT s)) (jwt_Expire (gw_JWT s)) = Inr t"
    by (auto simp: LoginHandlerFunc_def Gw_Login_def respond_def split: sum.splits)
  with assms(1) Gateway_signed show ?thesis unfolding json_names_def by metis
qed

lemma RegisterHandler_token:
  assumes "json_names H plain" "RegisterHandlerFunc H J now s r w = (OkJsonCtx p, w')" "answer_token p = Some t"
  shows "\<exists>cl. jc_UserID cl = 1 \<and> plain cl \<and> jwtSign J HS256 cl (jwt_Secret (gw_JWT s)) = Inr t"
proof -
  from assms(2,3) obtain req where "parseRegister H r = Inr req"
    "Gateway_GenerateToken J now 1 (reg_Username req) (jwt_Secret (gw_JWT s)) (jwt_Expire (gw_JWT s)) = Inr t"
    by (auto simp: RegisterHandlerFunc_def Gw_Register_def respond_def split: sum.splits)
  with assms(1) Gateway_signed show ?thesis unfolding json_names_def by metis
qed

text \<open>Every token of the gateway names user 1.\<close>

lemma gateway_tokens:
  assumes "json_names H plain" "rt \<in> set (RegisterHandler H J now now' s)"
    and "rt_Handler rt r w = (OkJsonCtx p, w')" "answer_token p = Some t"
  shows "\<exists>cl. jc_UserID cl = 1 \<and> plain cl \<and> jwtSign J HS256 cl (jwt_Secret (gw_JWT s)) = Inr t"
proof -
  from assms(2) consider "rt_Handler rt = LoginHandlerFunc H J now s" | "rt_Handler rt = RegisterHandlerFunc H J now s"
    | "tokenless (rt_Handler rt)"
    by (auto simp: RegisterHandler_def Let_def tokenless_all)
  then show ?thesis
  proof cases
    case 1
    with LoginHandler_token [OF assms(1) _ assms(4)] assms(3) show ?thesis by simp
  next
    case 2
    with RegisterHandler_token [OF assms(1) _ assms(4)] assms(3) show ?thesis by simp
  next
    case 3
    with assms(3,4) have False unfolding tokenless_def by (metis option.distinct(1))
    then show ?thesis ..
  qed
qed

lemma AuthServer_signed:
  assumes "AuthServer clk J s rpc w = (Inr resp, w')"
  shows "\<exists>cl. jwtSign J HS256 cl (AccessSecret (JwtAuth (as_Config s))) = Inr (lr_Token resp)"
  using assms
  by (cases rpc) (auto simp: Auth_Register_def Auth_Login_def Auth_GenerateToken_def
      split: sum.splits prod.splits option.splits)

lemma gateway_main_routes:
  "fst (gateway_main L H J c w) now now' = RegisterHandler H J now now' (fst (NewGwServiceContext L c w))"
  by (simp add: gateway_main_def Let_def split: prod.split)

text \<open>A creation that is answered was asked of the post service for the user in the context.\<close>

lemma CreatePostHandler_calls:
  assumes "CreatePostHandlerFunc H s (with_user r cl) w = (OkJsonCtx a, w')"
  shows "\<exists>rpc req post. gw_PostRpc s = Some rpc \<and> cp_UserId req = jc_UserID cl \<and>
    pcCreatePost rpc req w = (Inr (Some post), w') \<and>
    a = PPost \<lparr>presp_ID = pi_Id post, presp_Title = pi_Title post, presp_Content = pi_Content post,
      presp_Author = jc_Username cl\<rparr>"
proof -
  have ctx: "GetUserIDFromContext (hr_Ctx (with_user r cl)) = Some (jc_UserID cl)"
    "username_of (hr_Ctx (with_user r cl)) = jc_Username cl"
    by (simp_all add: context_defs)
  from assms show ?thesis
    by (auto simp: CreatePostHandlerFunc_def Gw_CreatePost_def respond_def ctx
        split: sum.splits prod.splits option.splits intro!: exI)
qed

section \<open>One user\<close>

definition guarded :: "'w Route \<Rightarrow> bool" where
  "guarded rt \<longleftrightarrow> (rt_Method rt, rt_Path rt) \<notin> {(''POST'', ''/api/v1/auth/register''), (''POST'', ''/api/v1/auth/login''),
     (''GET'', ''/api/v1/search''), (''GET'', ''/api/v1/posts/:id'')}"

lemma guarded_middleware:
  assumes "rt \<in> set (RegisterHandler H J now now' s)" "guarded rt"
  obtains h where "rt_Handler rt = JWTAuthMiddleware J (gw_JWT s) now now' h"
    "rt_Path rt = ''/api/v1/posts'' \<Longrightarrow> h = CreatePostHandlerFunc H s"
  using assms by (auto simp: RegisterHandler_def Let_def guarded_def)

lemma handed_out_claims:
  assumes "jwt_signs J dec sig plain" "json_names H plain"
    and "handed_out (fst (gateway_main L H J c w0)) auth GatewayToken t"
  shows "\<exists>cl. jc_UserID cl = 1 \<and> dec t = Some (HS256, cl)"
  using assms(3)
proof (rule by_gatewayE)
  fix rt now now' r w p w'
  assume "rt \<in> set (fst (gateway_main L H J c w0) now now')" "rt_Handler rt r w = (OkJsonCtx p, w')" "answer_token p = Some t"
  from gateway_tokens [OF assms(2) this [unfolded gateway_main_routes]] assms(1) show ?thesis
    unfolding jwt_signs_def by blast
qed

text \<open>
  C5: The deployed system knows one user. With the configurations of the repository a client that
  presents a token the system has handed out gets past the gateway's middleware only as user 1: a token
  of the auth service is refused on every guarded route, because the two services are configured with
  different secrets, and a token of the gateway's own login or registration names user 1 whoever asked
  for it. So whatever post the gateway creates for a token that was handed out, it creates for user 1.
\<close>

theorem deployed_system_knows_one_user:
  fixes rt :: "'g Route"
  assumes "jwt_laws J dec sig" "jwt_signs J dec sig plain" "json_names H plain"
    and "keys_apart J sig (AccessSecret (JwtAuth shipped_auth)) (jwt_Secret (gc_JWT shipped_gateway))"
    and "handed_out (fst (gateway_main L H J shipped_gateway w0)) (auth_main clk J newMysql shipped_auth) iss t"
    and "rt \<in> set (fst (gateway_main L H J shipped_gateway w0) now now')" "guarded rt" "now \<le> now'"
    and "hr_Header r ''Authorization'' = ''Bearer '' @ t" "rt_Handler rt r w = (OkJsonCtx a, w')"
  shows "iss = GatewayToken
    \<and> (\<exists>cl. jc_UserID cl = 1 \<and>
         (\<forall>nxt v. JWTAuthMiddleware J (gc_JWT shipped_gateway) now now' nxt r v = (nxt (with_user r cl) v :: HttpResponse \<times> 'g)))
    \<and> (rt_Path rt = ''/api/v1/posts'' \<longrightarrow>
         (\<exists>rpc req post. gw_PostRpc (fst (NewGwServiceContext L shipped_gateway w0)) = Some rpc \<and> cp_UserId req = 1 \<and>
            pcCreatePost rpc req w = (Inr (Some post), w')))"
proof -
  let ?s = "fst (NewGwServiceContext L shipped_gateway w0)"
  have conf: "gw_JWT ?s = gc_JWT shipped_gateway" by (simp add: NewGwServiceContext_config)
  obtain h where h: "rt_Handler rt = JWTAuthMiddleware J (gw_JWT ?s) now now' h"
    "rt_Path rt = ''/api/v1/posts'' \<Longrightarrow> h = CreatePostHandlerFunc H ?s"
    using guarded_middleware [OF assms(6) [unfolded gateway_main_routes] assms(7)] by blast
  obtain cl where cl: "good_token dec sig now (gw_JWT ?s) r cl"
  proof (rule ccontr)
    assume "\<not> thesis"
    then have "\<not> good_token dec sig now (gw_JWT ?s) r cl" for cl using that by blast
    then obtain e where "JWTAuthMiddleware J (gw_JWT ?s) now now' h r w = (ErrorCtx e, w)"
      using middleware_refuses [OF assms(1,8)] by metis
    with assms(10) h(1) show False by simp
  qed
  then have t: "sig t (jwt_Secret (gc_JWT shipped_gateway))" "\<exists>alg. dec t = Some (alg, cl)"
    using assms(9) by (auto simp: good_token_def accepted_def conf)
  have iss: "iss = GatewayToken"
  proof (cases iss)
    case AuthToken
    from assms(5) [unfolded AuthToken] have False
    proof (rule by_authE)
      fix rpc w1 resp w2
      assume "auth_main clk J newMysql shipped_auth rpc w1 = (Inr resp, w2)" "t = lr_Token resp"
      moreover have "as_Config (NewAuthServiceContext newMysql shipped_auth) = shipped_auth"
        by (simp add: NewAuthServiceContext_def Let_def)
      ultimately show False
        using AuthServer_signed [of clk J "NewAuthServiceContext newMysql shipped_auth" rpc w1 resp w2] assms(4) t(1)
        by (auto simp: auth_main_def keys_apart_def)
    qed
    then show ?thesis ..
  qed
  with handed_out_claims [OF assms(2,3)] assms(5) t(2) have one: "jc_UserID cl = 1" by fastforce
  have pass: "h (with_user r cl) w = (OkJsonCtx a, w')"
    using assms(10) h(1) middleware_passes [OF assms(1,8) cl, of h w] by simp
  show ?thesis
  proof (intro conjI impI iss exI [of _ cl] allI one)
    show "JWTAuthMiddleware J (gc_JWT shipped_gateway) now now' nxt r v = nxt (with_user r cl) v" for nxt v
      using middleware_passes [OF assms(1,8) cl] by (simp add: conf)
    assume "rt_Path rt = ''/api/v1/posts''"
    with h(2) pass CreatePostHandler_calls [of H ?s r cl w a w'] one
    show "\<exists>rpc req post. gw_PostRpc ?s = Some rpc \<and> cp_UserId req = 1 \<and> pcCreatePost rpc req w = (Inr (Some post), w')"
      by metis
  qed
qed

text \<open>For examples: a library whose tokens spell out their key, over fixed claims; one client of each service.\<close>

definition keyed_dec :: "JWTClaims \<Rightarrow> string \<Rightarrow> (string \<times> JWTClaims) option" where
  "keyed_dec c t = (case t of [] \<Rightarrow> None | x # k \<Rightarrow> Some (HS256, c))"

definition keyed_sig :: "string \<Rightarrow> string \<Rightarrow> bool" where
  "keyed_sig t k \<longleftrightarrow> t = CHR ''t'' # k"

definition keyed_jwt :: "JWTClaims \<Rightarrow> jwtlib" where
  "keyed_jwt c = \<lparr>
     jwtSign = (\<lambda>alg c' k. if alg = HS256 \<and> c' = c then Inr (CHR ''t'' # k) else Inl (ErrLib ''claims'')),
     jwtParse = (\<lambda>t kf now.
       case keyed_dec c t of
         None \<Rightarrow> Inl (ErrLib ''token contains an invalid number of segments'')
       | Some (alg, c) \<Rightarrow>
           (case kf alg of
              Inl e \<Rightarrow> Inl e
            | Inr k \<Rightarrow>
                if \<not> keyed_sig t k then Inl (ErrLib ''signature is invalid'')
                else if current c now then Inr \<lparr>tok_Claims = Some c, tok_Valid = True\<rparr>
                else if expired c now then Inl (ErrLib ''token is expired by 1s'')
                else Inl (ErrLib ''token is not valid yet'')))\<rparr>"

lemma keyed_jwt_laws: "jwt_laws (keyed_jwt c) (keyed_dec c) keyed_sig"
  by (auto simp: jwt_laws_def keyed_jwt_def expired_msg_def split: option.split sum.split)

lemma keyed_jwt_signs: "jwt_signs (keyed_jwt c) (keyed_dec c) keyed_sig (\<lambda>c. True)"
  by (auto simp: jwt_signs_def keyed_jwt_def keyed_dec_def keyed_sig_def)

lemma keyed_apart: "k \<noteq> k' \<Longrightarrow> keys_apart (keyed_jwt c) keyed_sig k k'"
  by (auto simp: keys_apart_def keyed_jwt_def keyed_sig_def)

definition shipped_claims :: JWTClaims where
  "shipped_claims = \<lparr>jc_UserID = 1, jc_Username = ''bob'', jc_ExpiresAt = Some 86500, jc_IssuedAt = Some 100,
     jc_NotBefore = Some 100, jc_Issuer = [], jc_Subject = []\<rparr>"

definition bob_httpx :: httpx where
  "bob_httpx = \<lparr>parseRegister = (\<lambda>r. Inl ErrStrconv), parseLogin = (\<lambda>r. Inr \<lparr>log_Username = ''bob'', log_Password = ''wrong''\<rparr>),
     parseCreatePost = (\<lambda>r. Inr \<lparr>gcp_Title = ''t'', gcp_Content = ''c''\<rparr>), parseSearch = (\<lambda>r. Inl ErrStrconv),
     parseLike = (\<lambda>r. Inl ErrStrconv), parseComment = (\<lambda>r. Inl ErrStrconv), parseFollow = (\<lambda>r. Inl ErrStrconv)\<rparr>"

definition own_posts :: "int list PostClient" where
  "own_posts = \<lparr>pcCreatePost = (\<lambda>req w. (Inr (Some (postInfo (demo_post\<lparr>post_UserID := cp_UserId req\<rparr>) [])), cp_UserId req # w)),
     pcGetPost = (\<lambda>i u w. (Inl ErrCtx, w))\<rparr>"

definition bob_request :: HttpRequest where
  "bob_request = gw_request\<lparr>hr_Header := (\<lambda>h. if h = ''Authorization'' then ''Bearer tb0b0-f0rum-s3cr3t-k3y-2024'' else [])\<rparr>"

abbreviation (input) "bob_gateway \<equiv> gateway_main (gw_lib own_posts) bob_httpx (keyed_jwt shipped_claims) shipped_gateway []"
abbreviation (input) "bob_auth \<equiv> auth_main (\<lambda>w. 100000000000) (keyed_jwt shipped_claims) (\<lambda>dsn. list_users) shipped_auth"

lemma bob_ctx: "gw_JWT (fst (NewGwServiceContext L shipped_gateway w)) = gc_JWT shipped_gateway"
  by (simp add: NewGwServiceContext_config)

lemma bob_handed: "handed_out (fst bob_gateway) bob_auth GatewayToken ''tb0b0-f0rum-s3cr3t-k3y-2024''"
proof (rule by_gateway)
  let ?s = "fst (NewGwServiceContext (gw_lib own_posts) shipped_gateway [])"
  let ?h = "LoginHandlerFunc bob_httpx (keyed_jwt shipped_claims) 100000000000 ?s"
  show "\<lparr>rt_Method = ''POST'', rt_Path = ''/api/v1/auth/login'', rt_Handler = ?h\<rparr>
      \<in> set (fst bob_gateway 100000000000 100000000000)"
    by (simp add: gateway_main_routes RegisterHandler_def Let_def)
  have "Gateway_GenerateToken (keyed_jwt shipped_claims) 100000000000 1 ''bob'' (jwt_Secret (gc_JWT shipped_gateway))
      (jwt_Expire (gc_JWT shipped_gateway)) = Inr ''tb0b0-f0rum-s3cr3t-k3y-2024''" by code_simp
  then show "rt_Handler \<lparr>rt_Method = ''POST'', rt_Path = ''/api/v1/auth/login'', rt_Handler = ?h\<rparr> gw_request [] =
      (OkJsonCtx (PLogin \<lparr>lresp_Token = ''tb0b0-f0rum-s3cr3t-k3y-2024'', lresp_ID = 1, lresp_Username = ''bob'',
         lresp_Email = ''demo@example.com''\<rparr>), [])"
    by (simp add: LoginHandlerFunc_def bob_httpx_def Gw_Login_def respond_def bob_ctx)
qed simp

abbreviation (input) "bob_svc \<equiv> fst (NewGwServiceContext (gw_lib own_posts) shipped_gateway [])"
abbreviation (input) "bob_route \<equiv> \<lparr>rt_Method = ''POST'', rt_Path = ''/api/v1/posts'',
  rt_Handler = JWTAuthMiddleware (keyed_jwt shipped_claims) (gw_JWT bob_svc) 150000000000 150000000000
    (CreatePostHandlerFunc bob_httpx bob_svc)\<rparr>"

lemma bob_good: "good_token (keyed_dec shipped_claims) keyed_sig 150000000000 (gc_JWT shipped_gateway) bob_request shipped_claims"
  by (simp add: good_token_def bob_request_def accepted_def keyed_dec_def keyed_sig_def shipped_gateway_def is_HMAC_def
      current_def shipped_claims_def)

lemma bob_rpc: "gw_PostRpc bob_svc = Some own_posts"
  by (simp add: NewGwServiceContext_def Let_def newAuthClient_def newPostClient_def newRpcClient_def gw_lib_def
      shipped_gateway_def)

lemma own_posts_create:
  "pcCreatePost own_posts req w = (Inr (Some (postInfo (demo_post\<lparr>post_UserID := cp_UserId req\<rparr>) [])), cp_UserId req # w)"
  by (simp add: own_posts_def)

lemma bob_posts:
  "\<exists>p. rt_Handler bob_route bob_request [] = (OkJsonCtx (PPost p), [1])"
proof -
  have ctx: "GetUserIDFromContext (hr_Ctx (with_user bob_request shipped_claims)) = Some 1"
    by (simp add: context_defs shipped_claims_def)
  have "rt_Handler bob_route bob_request [] = CreatePostHandlerFunc bob_httpx bob_svc (with_user bob_request shipped_claims) []"
    by (simp add: middleware_passes [OF keyed_jwt_laws order_refl] bob_good bob_ctx)
  then show ?thesis
    by (simp add: CreatePostHandlerFunc_def bob_httpx_def Gw_CreatePost_def ctx bob_rpc own_posts_create respond_def)
qed

theorem deployed_system_knows_one_user_witness:
  "\<exists>p req post. rt_Handler bob_route bob_request [] = (OkJsonCtx (PPost p), [1]) \<and> cp_UserId req = 1 \<and>
     pcCreatePost own_posts req [] = (Inr (Some post), [1])"
proof -
  have apart: "keys_apart (keyed_jwt shipped_claims) keyed_sig (AccessSecret (JwtAuth shipped_auth)) (jwt_Secret (gc_JWT shipped_gateway))"
    by (rule keyed_apart) (simp add: shipped_auth_def shipped_gateway_def)
  have names: "json_names bob_httpx (\<lambda>c. True)" by (simp add: json_names_def)
  have rt: "bob_route \<in> set (fst bob_gateway 150000000000 150000000000)" "guarded bob_route"
    by (simp_all add: gateway_main_routes RegisterHandler_def Let_def guarded_def)
  have hdr: "hr_Header bob_request ''Authorization'' = ''Bearer '' @ ''tb0b0-f0rum-s3cr3t-k3y-2024''"
    by (simp add: bob_request_def)
  obtain p where p: "rt_Handler bob_route bob_request [] = (OkJsonCtx (PPost p), [1])" using bob_posts by blast
  from deployed_system_knows_one_user [OF keyed_jwt_laws keyed_jwt_signs names apart bob_handed rt order_refl hdr p]
  have "\<exists>rpc req post. gw_PostRpc bob_svc = Some rpc \<and> cp_UserId req = 1 \<and> pcCreatePost rpc req [] = (Inr (Some post), [1])"
    by simp
  with bob_rpc p show ?thesis by auto
qed

end
