(* ===== verification/Spec2Isabelle.thy ===== *)
theory Spec2Isabelle
  imports KeyTypes PostRoundtrip RowMapping InteractionMain Deployment
begin

text \<open>
  A model of the BOBO forum backend (Go services \<open>src/post\<close>, \<open>src/interaction\<close>, \<open>src/auth\<close> and
  \<open>src/api-gateway\<close>), with the theorems about it.

  The program. The gateway takes HTTP requests, checks a JWT and calls the post service by RPC; most
  of its other routes are stubs. The auth service keeps the users table and issues tokens. The post
  service keeps posts and comments in MySQL behind Redis, a local cache, a negative cache, a loader
  with a Redis lock, a Bloom filter and a circuit breaker; jobs rank hot posts and add up view counts.
  The interaction service keeps likes: a row per user and target in MySQL, counters and sets in Redis,
  and a Kafka topic that feeds a syncer; a checker compares the three.

  How code becomes model. A struct is a record, an enumeration a datatype. A Go function that returns
  a value and an error returns \<open>err + 'a\<close>, and a function that changes the outside world takes the world
  as its last argument and returns it; state of the program itself (breaker, caches, Bloom filter) is
  in records that are returned updated. The mutexes make each method one step, so
  concurrent use is a sequence of calls, except where a theory interleaves smaller steps. A goroutine
  with a select loop is a function of the list of events it receives. Libraries (Redis, bigcache, the
  SQL connection, the Kafka client, the JSON and JWT codecs, the Bloom filter, the request parser) are
  records of functions, and what a property needs of them is a named hypothesis; each property
  with such a hypothesis has a witness with concrete functions. int64 is \<open>int\<close> with the wrap-around
  written out (\<open>i64\<close>, \<open>is_int64\<close>) where it can happen, and 64-bit words in the id generator. float64 is
  real. Log lines, contexts and metrics are left out.

  Theories, in import order.
  \<^item> \<open>BoboPrelude\<close>: errors, results, int64; the locales \<open>invariant_machine\<close> and \<open>event_loop\<close>, the
    contract of all goroutines that receive events, interpreted for each of them.
  \<^item> \<open>GoLib\<close>: decimal numbers, splitting, \<open>Sscanf\<close>; the locale \<open>key_scheme\<close>, the contract of all
    builders of cache keys, interpreted for each of them.
  \<^item> \<open>External\<close>, \<open>RedisStore\<close>: the library handles with their laws, and a reference store of typed
    values for the Redis commands of the like service.
  \<^item> \<open>Snowflake\<close> (\<open>pkg/snowid\<close>): ids on 64-bit words; the busy wait on the clock is a partial function,
    and termination is proved for clocks that go on. The locale \<open>id_source\<close> gives the order of ids.
  \<^item> \<open>CircuitBreaker\<close> (\<open>circuit_breaker.go\<close>): invariant, deadlock with the defaults, recovery.
  \<^item> \<open>PostModel\<close>, \<open>HotPostLocalCache\<close>, \<open>EmptyValueCache\<close>, \<open>HotPostService\<close>, \<open>CacheLoader\<close>, \<open>BloomFilter\<close>,
    \<open>RedisViews\<close>, \<open>PostRepository\<close>, \<open>ViewCountSyncer\<close>, \<open>Cron\<close>, \<open>PostLogic\<close>: the post service, one theory
    per file or package of \<open>src/post/internal\<close>, up to its server. The waiting loop of the loader is
    bounded by its events: a timer, a tick or the end of the context. What happens outside between the
    count and the deletion of a view counter is an argument (\<open>interrupted\<close>).
  \<^item> \<open>PostSystem\<close>: the post service as one state with its events (calls, view count sync, warm-up,
    hourly job, moves of the outside world) in any order, and the invariant \<open>svc_ok\<close> of that state.
    \<open>KeyTypes\<close>: which Redis commands each key is used with. \<open>PostRoundtrip\<close>: a created post as it is
    read back. \<open>RowMapping\<close>: the columns the statements select against the structs rows are read into.
    \<open>Startup\<close> (\<open>post/cmd/server/main.go\<close>, \<open>svc/servicecontext.go\<close>, \<open>cron\<close>): opening the
    database, building the service, the scheduler, and the ids of the two processes.
  \<^item> \<open>LikeCache\<close>, \<open>Kafka\<close>, \<open>LikeRepository\<close>, \<open>LikeSync\<close>, \<open>ConsistencyChecker\<close>, \<open>InteractionLogic\<close>: the
    interaction service. The counters refine a map of non-negative counts (\<open>represents\<close>, \<open>spec_step\<close>).
  \<^item> \<open>LikeRaces\<close>: like and unlike requests taken apart into their calls and interleaved by the step
    relation \<open>like_step\<close>; its invariant ties the counter to the rows.
  \<^item> \<open>LikeService\<close>: the abstract service, a set of likes, and the refinement of the server to it.
    \<open>LikePipeline\<close>: the service with its batch consumer, checker and expiring keys, one event at a
    time, and what its jobs may write. \<open>KafkaTiming\<close>: the batch consumer on a clock, whose fetch blocks.
    \<open>InteractionMain\<close> (\<open>interaction/cmd/server/main.go\<close>): the process up to its server, with the
    tickers of its goroutines.
  \<^item> \<open>Jwt\<close>, \<open>AuthService\<close>: tokens of both services and the laws of the JWT library; users, login,
    registration. \<open>AuthClient\<close> (\<open>auth/pkg/client\<close>, \<open>auth/test_client.go\<close>): the client package and the
    manual test program against the service.
  \<^item> \<open>Gateway\<close>: service context, middleware, handlers, route table, logic.
  \<^item> \<open>Deployment\<close>: auth service and gateway as they are started with the shipped configurations, and the
    tokens a client can come to hold, as the inductive predicate \<open>handed_out\<close>.
  \<^item> This theory: a token of the auth service at a gateway with the same secret, and a post that goes
    through the gateway into the post service.

  What the lemmas show. Per component, the invariant of its state and the behaviour of each operation
  on every branch the properties use; then the properties, marked C1 to C40 in the text before each,
  in the theory of the component they are about. Many state what the code does where
  that is not what it means to do: a load lock that is never reported as taken, a ranking that is emptied by its
  own cleanup, posts hidden after a restart, listings and comments that cannot be read, likes that wait for
  the next one, a gateway that knows one user.

  Not modelled: reading flags and configuration files, the HTTP and RPC servers and the router of
  go-zero, and the two calls in the interaction service's \<open>main\<close> of methods that do not exist; the
  options of connection pools; the generated protocol code, whose clients and messages are arguments
  and records; what the Lua scripts and the SQL texts do inside Redis and MySQL, beyond the stated
  laws; printing, logging and the time spent in calls, except in the batch consumer. What the map does
  not cover in modelled files is imports, interface declarations and the constructors of the logic
  objects, which carry a context and a logger. The copy of the id generator in the interaction service
  has the text of the modelled one.
\<close>

section \<open>Tokens across services\<close>

text \<open>
  The auth service's tokens at the gateway: after a login, when both services are configured with
  the same secret, a request bearing the token passes the middleware until the token's lifetime is
  over, as the user and name the login answered; where the token does not verify under the gateway's
  secret, as with the two shipped configurations, every such request is refused.
\<close>

theorem auth_token_opens_gateway:
  assumes "jwt_laws J dec sig" "jwt_signs J dec sig plain"
    and "\<forall>cl. jc_Username cl = ui_Username (lr_UserInfo resp) \<longrightarrow> plain cl"
    and "Auth_Login clk J a name pw w0 = (Inr resp, w1)"
    and "hr_Header r ''Authorization'' = ''Bearer '' @ lr_Token resp"
    and "is_int64 (AccessExpire (JwtAuth (as_Config a)) * 1000000000)" "clk w1 \<le> now" "now \<le> now'"
    and "now < (clk w1 div 1000000000 + AccessExpire (JwtAuth (as_Config a))) * 1000000000"
  shows "(AccessSecret (JwtAuth (as_Config a)) = jwt_Secret c \<longrightarrow>
      (\<exists>cl. jc_UserID cl = ui_Id (lr_UserInfo resp) \<and> jc_Username cl = ui_Username (lr_UserInfo resp) \<and>
         (\<forall>nxt w. JWTAuthMiddleware J c now now' nxt r w = nxt (with_user r cl) w)))
    \<and> (\<not> sig (lr_Token resp) (jwt_Secret c) \<longrightarrow>
      (\<exists>e. \<forall>nxt w. JWTAuthMiddleware J c now now' nxt r w = (ErrorCtx e, w)))"
proof (intro conjI impI)
  let ?u = "lr_UserInfo resp"
  define cl where "cl = \<lparr>jc_UserID = ui_Id ?u, jc_Username = ui_Username ?u,
    jc_ExpiresAt = NewNumericDate (add_seconds (clk w1) (AccessExpire (JwtAuth (as_Config a)))),
    jc_IssuedAt = NewNumericDate (clk w1), jc_NotBefore = NewNumericDate (clk w1),
    jc_Issuer = ''auth-service'', jc_Subject = show_int (ui_Id ?u)\<rparr>"
  have cl: "jc_UserID cl = ui_Id ?u" "jc_Username cl = ui_Username ?u" by (simp_all add: cl_def)
  have tok: "jwtSign J HS256 cl (AccessSecret (JwtAuth (as_Config a))) = Inr (lr_Token resp)"
    using Login_token [OF assms(4)] by (simp add: Auth_GenerateToken_def cl_def)
  have cur: "current cl now" by (rule fresh_current [OF assms(6,7,9)]) (simp_all add: cl_def)
  have plain: "plain cl" using assms(3) cl by blast
  show "\<exists>cl. jc_UserID cl = ui_Id ?u \<and> jc_Username cl = ui_Username ?u \<and>
      (\<forall>nxt w. JWTAuthMiddleware J c now now' nxt r w = nxt (with_user r cl) w)"
    if "AccessSecret (JwtAuth (as_Config a)) = jwt_Secret c"
  proof -
    have "good_token dec sig now c r cl"
      by (rule signed_token_good [OF assms(2) tok [unfolded that] plain cur assms(5)])
    then show ?thesis
      by (intro exI [of _ cl] conjI allI cl middleware_passes [OF assms(1,8)])
  qed
  show "\<exists>e. \<forall>nxt w. JWTAuthMiddleware J c now now' nxt r w = (ErrorCtx e, w)"
    if "\<not> sig (lr_Token resp) (jwt_Secret c)"
    by (rule middleware_refuses [OF assms(1,8)]) (use that assms(5) in \<open>simp add: good_token_def accepted_def\<close>)
qed

abbreviation (input) demo_user :: User where
  "demo_user \<equiv> \<lparr>user_ID = 1, user_Username = ''ann'', user_PasswordHash = ''Secret'', user_Email = ''a@b''\<rparr>"

lemma demo_login:
  "Auth_Login (\<lambda>w. 100000000000) (one_jwt demo_claims) demo_auth ''ann'' ''Secret'' [demo_user] =
     (Inr \<lparr>lr_Token = ''tok'', lr_UserInfo = \<lparr>ui_Id = 1, ui_Username = ''ann'', ui_Email = ''a@b''\<rparr>\<rparr>, [demo_user])"
  by code_simp

theorem auth_token_opens_gateway_witness:
  "(\<exists>cl. jc_UserID cl = 1 \<and> jc_Username cl = ''ann'' \<and>
     (\<forall>nxt w. JWTAuthMiddleware (one_jwt demo_claims) gw_config 150000000000 150000000000 nxt gw_request (w :: int) =
        (nxt (with_user gw_request cl) w :: HttpResponse \<times> int)))
   \<and> (\<exists>e. \<forall>nxt w. JWTAuthMiddleware (one_jwt demo_claims) (gw_config\<lparr>jwt_Secret := ''other''\<rparr>)
         150000000000 150000000000 nxt gw_request (w :: int) = (ErrorCtx e, w))"
proof -
  let ?resp = "\<lparr>lr_Token = ''tok'', lr_UserInfo = \<lparr>ui_Id = 1, ui_Username = ''ann'', ui_Email = ''a@b''\<rparr>\<rparr>"
  have hdr: "hr_Header gw_request ''Authorization'' = ''Bearer '' @ lr_Token ?resp" by (simp add: gw_request_def)
  have conf: "AccessExpire (JwtAuth (as_Config demo_auth)) = 3600" "AccessSecret (JwtAuth (as_Config demo_auth)) = ''s3cret''"
    by (simp_all add: demo_auth_def NewAuthServiceContext_def)
  have life: "is_int64 (AccessExpire (JwtAuth (as_Config demo_auth)) * 1000000000)" by (simp add: conf is_int64_def)
  note T = auth_token_opens_gateway [OF one_jwt_laws one_jwt_signs [where plain = "\<lambda>_. True"] _ demo_login hdr life, of 150000000000 150000000000]
  show ?thesis
    using T [of gw_config, THEN conjunct1] T [of "gw_config\<lparr>jwt_Secret := ''other''\<rparr>", THEN conjunct2]
    by (simp add: conf gw_config_def one_sig_def)
qed

section \<open>A post through the gateway\<close>

text \<open>
  The gateway's client of the post service, wired to the service itself: a call that is still waiting
  when the client gives up is a deadline error.
\<close>

definition wired_client ::
  "('w \<Rightarrow> int) \<Rightarrow> json \<Rightarrow> 'f bloom_lib \<Rightarrow> ('w \<Rightarrow> int res \<times> 'w) \<Rightarrow> (wait_event \<times> ('w \<Rightarrow> 'w)) list \<Rightarrow>
   (('f, 'w) PostSvc \<times> 'w) PostClient" where
  "wired_client clk J L nextID evs = \<lparr>
     pcCreatePost = (\<lambda>req (s, w). case PostServer clk J L nextID evs (RpcCreatePost req) s w of
         Some (RepPost r, s', w') \<Rightarrow> (r, s', w') | _ \<Rightarrow> (Inl (ErrLib ''DeadlineExceeded''), s, w)),
     pcGetPost = (\<lambda>i u (s, w). case PostServer clk J L nextID evs (RpcGetPost i u) s w of
         Some (RepDetail r, s', w') \<Rightarrow> (map_sum (\<lambda>e. e) (\<lambda>(p, cs). (Some p, cs)) r, s', w')
       | _ \<Rightarrow> (Inl (ErrLib ''DeadlineExceeded''), s, w))\<rparr>"

text \<open>
  C15: A post created through the gateway is stored in the name of the token: when POST /api/v1/posts is
  answered with a post, the request carried a good token and the row that was inserted has the id of
  the answer, the token's user and the title and content of the body, but an empty user name and
  community 0 although the answer names the token's user as the author; and the post service's filter
  lets the new id through.
\<close>

theorem post_stored_for_token_user:
  fixes ps ps' :: "('f, 'w) PostSvc"
  assumes "jwt_laws J dec sig" "now \<le> now'" "bloom_laws L"
    and "gw_PostRpc s = Some (wired_client clk js L nextID evs)"
    and "JWTAuthMiddleware J (gw_JWT s) now now' (CreatePostHandlerFunc H s) r (ps, w) =
           (OkJsonCtx (PPost resp), (ps', w'))"
  shows "\<exists>cl req tags t w1 w2 x. good_token dec sig now (gw_JWT s) r cl
    \<and> parseCreatePost H (with_user r cl) = Inr req
    \<and> dbExec (pr_db (svc_PostRepo ps)) insertPostSQL
        [SInt (presp_ID resp), SInt (jc_UserID cl), SInt 0, SStr [], SStr (gcp_Title req), SStr (gcp_Content req),
         SStr tags, SInt 2, STime t, STime t] w1 = (Inr x, w2)
    \<and> presp_Author resp = jc_Username cl
    \<and> MightContain L (presp_ID resp) (svc_BloomFilter ps')"
proof -
  have "\<exists>cl. good_token dec sig now (gw_JWT s) r cl"
  proof (rule ccontr)
    assume "\<nexists>cl. good_token dec sig now (gw_JWT s) r cl"
    with assms(5) middleware_stops [OF assms(1,2), of "gw_JWT s" r] show False
      by (metis HttpResponse.distinct(1) prod.inject)
  qed
  then obtain cl where good: "good_token dec sig now (gw_JWT s) r cl" ..
  have h: "CreatePostHandlerFunc H s (with_user r cl) (ps, w) = (OkJsonCtx (PPost resp), (ps', w'))"
    using assms(5) middleware_passes [OF assms(1,2) good] by metis
  have ctx: "GetUserIDFromContext (hr_Ctx (with_user r cl)) = Some (jc_UserID cl)"
    "username_of (hr_Ctx (with_user r cl)) = jc_Username cl"
    by (simp_all add: context_defs)
  from h obtain req where req: "parseCreatePost H (with_user r cl) = Inr req"
    "Gw_CreatePost s (hr_Ctx (with_user r cl)) req (ps, w) = (Inr (PPost resp), (ps', w'))"
    by (auto simp: CreatePostHandlerFunc_def respond_def split: sum.splits prod.splits)
  let ?creq = "\<lparr>cp_UserId = jc_UserID cl, cp_CommunityId = 0, cp_Title = gcp_Title req,
    cp_Content = gcp_Content req, cp_Tags = []\<rparr>"
  obtain res ps1 w1 where cp: "CreatePost clk js L nextID ps ?creq w = (res, ps1, w1)" by (metis prod_cases3)
  from req(2) obtain info where ok: "res = Inr info" "ps1 = ps'" "presp_ID resp = pi_Id info" "presp_Author resp = jc_Username cl"
    by (cases res) (auto simp: Gw_CreatePost_def assms(4) ctx wired_client_def cp)
  from CreatePost_inserts [OF cp [unfolded ok(1)]] ok good req(1)
    CreatePost_bloom [OF cp [unfolded ok(1)]] assms(3)
  show ?thesis
    by (fastforce simp: MightContain_def Bloom_Add_def bloom_laws_def)
qed

definition demo_httpx :: httpx where
  "demo_httpx = \<lparr>parseRegister = (\<lambda>r. Inl ErrStrconv), parseLogin = (\<lambda>r. Inl ErrStrconv),
     parseCreatePost = (\<lambda>r. Inr \<lparr>gcp_Title = ''t'', gcp_Content = ''c''\<rparr>), parseSearch = (\<lambda>r. Inl ErrStrconv),
     parseLike = (\<lambda>r. Inl ErrStrconv), parseComment = (\<lambda>r. Inl ErrStrconv), parseFollow = (\<lambda>r. Inl ErrStrconv)\<rparr>"

text \<open>A database that remembers the arguments of the last statement.\<close>

definition log_db :: "sqlarg list post_sqlconn" where
  "log_db = demo_db\<lparr>dbExec := (\<lambda>sql args w. (Inr \<lparr>rowsAffected = Inr 1, lastInsertId = Inr 1\<rparr>, args))\<rparr>"

definition demo_gateway :: "(unit, (string list, sqlarg list) PostSvc \<times> sqlarg list) GwSvc" where
  "demo_gateway = gw_demo (wired_client (\<lambda>w. 0) demo_json list_bloom (\<lambda>w. (Inr 99, w)) []) (demo_ctx log_db, []) [''p'']"

lemma demo_gateway_creates:
  "JWTAuthMiddleware (one_jwt gw_claims) (gw_JWT demo_gateway) 150000000000 150000000000
     (CreatePostHandlerFunc demo_httpx demo_gateway) gw_request (demo_ctx log_db, []) =
   (OkJsonCtx (PPost \<lparr>presp_ID = 99, presp_Title = ''t'', presp_Content = ''c'', presp_Author = ''ann''\<rparr>),
    ((demo_ctx log_db)\<lparr>svc_BloomFilter := Bloom_Add list_bloom 99 (svc_BloomFilter (demo_ctx log_db))\<rparr>,
     [SInt 99, SInt 7, SInt 0, SStr [], SStr ''t'', SStr ''c'', SStr (CHR 0x22 # ''[]'' @ [CHR 0x22]), SInt 2,
      STime 0, STime 0]))"
proof -
  have pass: "JWTAuthMiddleware (one_jwt gw_claims) (gw_JWT demo_gateway) 150000000000 150000000000 nxt gw_request w =
      nxt (with_user gw_request gw_claims) w" for nxt and w :: "(string list, sqlarg list) PostSvc \<times> sqlarg list"
    using gw_good_token by (intro middleware_passes [OF one_jwt_laws]) (simp_all add: demo_gateway_def)
  have ctx: "GetUserIDFromContext (hr_Ctx (with_user gw_request gw_claims)) = Some 7"
    "username_of (hr_Ctx (with_user gw_request gw_claims)) = ''ann''"
    by (simp_all add: context_defs gw_claims_def)
  have "CreatePost (\<lambda>w. 0) demo_json list_bloom (\<lambda>w. (Inr 99, w)) (demo_ctx log_db)
      \<lparr>cp_UserId = 7, cp_CommunityId = 0, cp_Title = ''t'', cp_Content = ''c'', cp_Tags = []\<rparr> [] =
    (Inr (postInfo \<lparr>post_ID = 99, post_UserID = 7, post_CommunityID = 0, post_Username = [], post_Title = ''t'',
       post_Content = ''c'', post_Tags = ''[]'', post_LikeCount = 0, post_CommentCount = 0, post_ViewCount = 0,
       post_Status = 2, post_CreatedAt = 0, post_UpdatedAt = 0\<rparr> []),
     (demo_ctx log_db)\<lparr>svc_BloomFilter := Bloom_Add list_bloom 99 (svc_BloomFilter (demo_ctx log_db))\<rparr>,
     [SInt 99, SInt 7, SInt 0, SStr [], SStr ''t'', SStr ''c'', SStr (CHR 0x22 # ''[]'' @ [CHR 0x22]), SInt 2,
      STime 0, STime 0])"
    by (simp add: CreatePost_def Post_Create_def demo_json_def demo_ctx_def NewPostRepository_def log_db_def
        AddWhenCreate_def evalErr_def ok_redis_def postInfo_def Let_def unix_now_def)
  then show ?thesis
    unfolding pass CreatePostHandlerFunc_def
    by (simp add: demo_httpx_def Gw_CreatePost_def ctx demo_gateway_def
        wired_client_def respond_def postInfo_def)
qed

theorem post_stored_for_token_user_witness:
  "\<exists>cl. good_token (one_dec gw_claims) one_sig 150000000000 gw_config gw_request cl \<and> jc_Username cl = ''ann''"
proof -
  have "gw_PostRpc demo_gateway = Some (wired_client (\<lambda>w. 0) demo_json list_bloom (\<lambda>w. (Inr 99, w)) [])"
    by (simp add: demo_gateway_def)
  from post_stored_for_token_user [OF one_jwt_laws _ list_bloom_laws this demo_gateway_creates]
  show ?thesis by (auto simp: demo_gateway_def)
qed

end
